(* ===== verification/GoPrelude.thy ===== *)
theory GoPrelude
  imports Main "HOL-Library.Word" "HOL-Library.AList" "HOL-Library.Multiset"
begin

text \<open>
  Shared ground of the development: the Go types the server is written in and the generic
  facts every component uses.
  \<^item> Go's \<^verbatim>\<open>int\<close> and \<^verbatim>\<open>time.Duration\<close> are 64-bit words (signed reading by \<open>sint\<close>),
    \<^verbatim>\<open>uint32\<close>/\<^verbatim>\<open>uint64\<close> are words read by \<open>unat\<close>/\<open>uint\<close>.
  \<^item> \<^verbatim>\<open>time.Time\<close> is the number of nanoseconds since Go's zero time, an \<open>int\<close>.
  \<^item> \<^verbatim>\<open>[]byte\<close> and \<^verbatim>\<open>string\<close> are lists of characters (a character is a byte).
  \<^item> A Go map and a \<^verbatim>\<open>sync.Map\<close> are association lists with distinct keys; the order in which
    \<^verbatim>\<open>range\<close> visits one is unspecified in Go and is an element of the type \<open>range_order\<close>:
    a function that permutes the entries. Every theorem that mentions such an order holds
    for all of them.
  \<^item> A panic is the value \<open>None\<close> of an \<open>option\<close>; an \<^verbatim>\<open>error\<close> result is the left of a sum.
\<close>

named_theorems go_defs \<open>unfolding of the Go library operations used by the components\<close>
named_theorems abs_simps \<open>abstraction functions applied to the results of operations\<close>

section \<open>Integers, durations and time\<close>

type_synonym go_int = "64 word"
type_synonym uint64 = "64 word"
type_synonym uint32 = "32 word"
type_synonym duration = "64 word"
type_synonym time = int
type_synonym bytes = string

definition Second :: duration where
  "Second = 1000000000"

definition zero_time :: time where
  "zero_time = 0"

definition IsZero :: "time \<Rightarrow> bool" where
  "IsZero t \<longleftrightarrow> t = zero_time"

definition Before :: "time \<Rightarrow> time \<Rightarrow> bool" where
  "Before t u \<longleftrightarrow> t < u"

definition Add :: "time \<Rightarrow> duration \<Rightarrow> time" where
  "Add t d = t + sint d"

lemmas time_defs [go_defs] = Second_def zero_time_def IsZero_def Before_def Add_def

lemma sint64_bounds: "- (2 ^ 63) \<le> sint (w :: 64 word) \<and> sint w < 2 ^ 63"
  using sint_range_size [of w] by (simp add: word_size)

lemma uint_sint_cases:
  "uint (w :: 64 word) = (if 0 \<le> sint w then sint w else sint w + 2 ^ 64)"
proof -
  have "uint w = sint w mod 2 ^ 64"
    by (simp add: uint_sint take_bit_eq_mod)
  moreover have "sint w mod 2 ^ 64 = (sint w + 2 ^ 64) mod 2 ^ 64"
    by simp
  ultimately show ?thesis
    using sint64_bounds [of w] by (auto simp: mod_pos_pos_trivial simp del: mod_add_self2)
qed

lemma sint_of_int64:
  "- (2 ^ 63) \<le> i \<Longrightarrow> i < 2 ^ 63 \<Longrightarrow> sint (word_of_int i :: 64 word) = i"
  by (simp add: sint_sbintrunc' signed_take_bit_int_eq_self)

lemma sint_mult_minus64:
  fixes a b :: "64 word"
  assumes "- (2 ^ 63) \<le> - (sint a * sint b)" and "- (sint a * sint b) < 2 ^ 63"
  shows "sint (a * - b) = - (sint a * sint b)"
proof -
  have "a * - b = word_of_int (- (sint a * sint b))"
    by simp
  then show ?thesis
    using sint_of_int64 [OF assms] by simp
qed

section \<open>Iteration order of Go maps\<close>

typedef 'a range_order = "{f :: 'a list \<Rightarrow> 'a list. \<forall>xs. mset (f xs) = mset xs}"
  morphisms range_in Abs_range_order
  by (rule exI [of _ "\<lambda>xs. xs"]) simp

setup_lifting type_definition_range_order

lift_definition insertion_order :: "'a range_order" is "\<lambda>xs. xs"
  by simp

lift_definition reversed_order :: "'a range_order" is rev
  by simp

lemma mset_range_in [simp]: "mset (range_in p xs) = mset xs"
  using range_in [of p] by simp

lemma set_range_in [simp]: "set (range_in p xs) = set xs"
  by (rule mset_eq_setD) simp

lemma length_range_in [simp]: "length (range_in p xs) = length xs"
  by (rule mset_eq_length) simp

lemma range_in_Nil [simp]: "range_in p [] = []"
  by (metis length_0_conv length_range_in)

lemma distinct_range_in [simp]: "distinct (range_in p xs) = distinct xs"
  by (metis mset_eq_imp_distinct_iff mset_range_in)

lemma distinct_map_range_in [simp]: "distinct (map f (range_in p xs)) = distinct (map f xs)"
  by (metis mset_eq_imp_distinct_iff mset_map mset_range_in)

lemma range_in_insertion_order [simp, code]: "range_in insertion_order xs = xs"
  by (simp add: insertion_order.rep_eq)

lemma range_in_reversed_order [simp, code]: "range_in reversed_order xs = rev xs"
  by (simp add: reversed_order.rep_eq)

section \<open>Decimal text\<close>

text \<open>\<^verbatim>\<open>strconv.Itoa\<close> on a number that is not negative.\<close>

definition digit_char :: "nat \<Rightarrow> char" where
  "digit_char d = char_of (48 + d)"

fun Itoa :: "nat \<Rightarrow> string" where
  "Itoa n = (if n < 10 then [digit_char n] else Itoa (n div 10) @ [digit_char (n mod 10)])"

declare Itoa.simps [simp del]

fun Atoi :: "string \<Rightarrow> nat" where
  "Atoi s = foldl (\<lambda>acc c. 10 * acc + (of_char c - 48)) 0 s"

lemma digit_char_value: "d < 10 \<Longrightarrow> of_char (digit_char d) = (48 + d :: nat)"
  by (simp add: digit_char_def)

lemma Atoi_Itoa: "Atoi (Itoa n) = n"
proof (induction n rule: Itoa.induct)
  case (1 n)
  show ?case
  proof (cases "n < 10")
    case True
    then show ?thesis by (simp add: Itoa.simps [of n] digit_char_value)
  next
    case False
    with "1.IH" have "foldl (\<lambda>acc c. 10 * acc + (of_char c - 48)) 0 (Itoa (n div 10)) = n div 10"
      by simp
    with False show ?thesis by (simp add: Itoa.simps [of n] digit_char_value)
  qed
qed

lemma Itoa_inject [simp]: "Itoa m = Itoa n \<longleftrightarrow> m = n"
  by (metis Atoi_Itoa)

lemma Itoa_digits: "c \<in> set (Itoa n) \<Longrightarrow> \<exists>d < 10. c = digit_char d"
proof (induction n rule: Itoa.induct)
  case (1 n)
  then show ?case
    by (cases "n < 10") (auto simp: Itoa.simps [of n] intro: exI [of _ "n mod 10"])
qed

lemma digit_char_neq:
  assumes "d < 10" and "of_char c < (48 :: nat) \<or> 58 \<le> (of_char c :: nat)"
  shows "digit_char d \<noteq> c"
  using assms digit_char_value [of d] by auto

lemma Itoa_no_colon [simp]: "CHR '':'' \<notin> set (Itoa n)"
  by (auto dest!: Itoa_digits simp: digit_char_neq [symmetric])

lemma Itoa_no_dash [simp]: "CHR ''-'' \<notin> set (Itoa n)"
  by (auto dest!: Itoa_digits simp: digit_char_neq [symmetric])

section \<open>Association lists\<close>

lemma map_of_update [simp]: "map_of (AList.update k v al) = (map_of al)(k \<mapsto> v)"
  by (rule update_conv')

lemma map_of_delete [simp]: "map_of (AList.delete k al) = (map_of al)(k := None)"
  by (rule delete_conv')

lemma map_of_map_key:
  "map_of (map (\<lambda>x. (f x, g x)) xs) k = Some y \<Longrightarrow> \<exists>x \<in> set xs. f x = k \<and> g x = y"
  by (induction xs) (auto split: if_splits)

lemma map_of_eq_of_mset:
  assumes "mset xs = mset ys" and "distinct (map fst xs)"
  shows "map_of xs = map_of ys"
proof (rule map_of_eqI)
  show "set (map fst xs) = set (map fst ys)"
    using mset_eq_setD [OF assms(1)] by simp
  have "distinct (map fst ys)"
    using assms by (metis mset_eq_imp_distinct_iff mset_map)
  then show "\<forall>k \<in> set (map fst xs). map_of xs k = map_of ys k"
    using assms mset_eq_setD [OF assms(1)] by (auto dest!: map_of_is_SomeI simp: assms)
qed

lemma in_set_update: "x \<in> set (AList.update k v al) \<Longrightarrow> x = (k, v) \<or> x \<in> set al"
  by (induction al) (auto split: if_splits)

lemma set_update_keyed:
  assumes "inj f" and "\<forall>(k, v) \<in> set m. k = f v"
  shows "set (AList.update (f x) x m) = insert (f x, x) (set m)"
  using assms(2) by (induction m) (auto dest: injD [OF assms(1)])

lemma length_update_fresh:
  "k \<notin> fst ` set al \<Longrightarrow> length (AList.update k v al) = Suc (length al)"
  by (induction al) auto

lemma length_update_old:
  "k \<in> fst ` set al \<Longrightarrow> length (AList.update k v al) = length al"
  by (induction al) auto

lemma distinct_fst_filter: "distinct (map fst al) \<Longrightarrow> distinct (map fst (filter P al))"
  by (induction al) auto

lemma map_of_filter_distinct:
  "distinct (map fst al) \<Longrightarrow>
   map_of (filter P al) k =
     (case map_of al k of None \<Rightarrow> None | Some v \<Rightarrow> if P (k, v) then Some v else None)"
proof (induction al)
  case Nil
  then show ?case by simp
next
  case (Cons a al)
  then have "fst a \<notin> dom (map_of al)"
    by (simp add: dom_map_of_conv_image_fst)
  with Cons show ?case
    by (cases a) (auto split: option.splits)
qed

end
