(* ===== verification/Machine.thy ===== *)
theory Machine
  imports GoPrelude
begin

text \<open>
  Interleaved executions: finite runs of a labelled step relation, and the contract of an
  invariant. Every concurrent part of the program (the UDP server, the circuit breaker) is a
  step relation whose runs are these, and its invariant is an interpretation of the locale
  \<open>invariant_system\<close>.
\<close>

inductive run :: "('s \<Rightarrow> 'a \<Rightarrow> 's \<Rightarrow> bool) \<Rightarrow> 's \<Rightarrow> 'a list \<Rightarrow> 's \<Rightarrow> bool"
  for step :: "'s \<Rightarrow> 'a \<Rightarrow> 's \<Rightarrow> bool" where
  run_Nil: "run step s [] s"
| run_Cons: "step s a s' \<Longrightarrow> run step s' as s'' \<Longrightarrow> run step s (a # as) s''"

inductive_simps run_Nil_iff [simp]: "run step s [] s'"
inductive_simps run_Cons_iff: "run step s (a # as) s'"

lemma run_append: "run step s (as @ bs) s' \<longleftrightarrow> (\<exists>t. run step s as t \<and> run step t bs s')"
  by (induction as arbitrary: s) (auto simp: run_Cons_iff)

definition reachable :: "('s \<Rightarrow> bool) \<Rightarrow> ('s \<Rightarrow> 'a \<Rightarrow> 's \<Rightarrow> bool) \<Rightarrow> 's \<Rightarrow> bool" where
  "reachable init step s \<longleftrightarrow> (\<exists>s0 as. init s0 \<and> run step s0 as s)"

lemma reachable_init: "init s \<Longrightarrow> reachable init step s"
  using run_Nil unfolding reachable_def by fast

lemma reachable_step: "reachable init step s \<Longrightarrow> step s a s' \<Longrightarrow> reachable init step s'"
  unfolding reachable_def by (metis run_append run_Cons run_Nil)

lemma reachable_run: "reachable init step s \<Longrightarrow> run step s as s' \<Longrightarrow> reachable init step s'"
  unfolding reachable_def by (metis run_append)

locale invariant_system =
  fixes init :: "'s \<Rightarrow> bool"
    and step :: "'s \<Rightarrow> 'a \<Rightarrow> 's \<Rightarrow> bool"
    and inv :: "'s \<Rightarrow> bool"
  assumes init_inv: "init s \<Longrightarrow> inv s"
    and step_inv: "inv s \<Longrightarrow> step s a s' \<Longrightarrow> inv s'"
begin

lemma run_inv: "run step s as s' \<Longrightarrow> inv s \<Longrightarrow> inv s'"
  by (induction rule: run.induct) (auto intro: step_inv)

lemma reachable_inv: "reachable init step s \<Longrightarrow> inv s"
  unfolding reachable_def using init_inv run_inv by blast

end

end
