(* ===== verification/Breaker.thy ===== *)
theory Breaker
  imports Machine
begin

text \<open>
  The circuit breaker of the client library, \<^verbatim>\<open>pkg/clients/udpGameServer/cb\<close>. Every method holds
  the breaker's mutex while it runs, so a method is one atomic step; the request itself runs
  outside the mutex, between \<^verbatim>\<open>beforeRequest\<close> and \<^verbatim>\<open>afterRequest\<close>, and any number of requests are
  in flight at once. Counters are 32-bit words and the generation is a 64-bit word, both
  wrapping as in Go. Callbacks (\<^verbatim>\<open>readyToTrip\<close>, \<^verbatim>\<open>isSuccessful\<close>, the fallback, the request) are
  functions or outcomes given from outside; the calls of \<^verbatim>\<open>onStateChange\<close> are logged.
\<close>

section \<open>Counts\<close>

record Counts =
  Requests :: uint32
  TotalSuccesses :: uint32
  TotalFailures :: uint32
  ConsecutiveSuccesses :: uint32
  ConsecutiveFailures :: uint32

definition counts_zero :: Counts where
  "counts_zero = \<lparr>Requests = 0, TotalSuccesses = 0, TotalFailures = 0, ConsecutiveSuccesses = 0,
     ConsecutiveFailures = 0\<rparr>"

definition counts_onRequest :: "Counts \<Rightarrow> Counts" where
  "counts_onRequest c = c\<lparr>Requests := Requests c + 1\<rparr>"

definition counts_onSuccess :: "Counts \<Rightarrow> Counts" where
  "counts_onSuccess c = c\<lparr>TotalSuccesses := TotalSuccesses c + 1,
     ConsecutiveSuccesses := ConsecutiveSuccesses c + 1, ConsecutiveFailures := 0\<rparr>"

definition counts_onFailure :: "Counts \<Rightarrow> Counts" where
  "counts_onFailure c = c\<lparr>TotalFailures := TotalFailures c + 1,
     ConsecutiveFailures := ConsecutiveFailures c + 1, ConsecutiveSuccesses := 0\<rparr>"

definition counts_clear :: "Counts \<Rightarrow> Counts" where
  "counts_clear c = c\<lparr>Requests := 0, TotalSuccesses := 0, TotalFailures := 0,
     ConsecutiveSuccesses := 0, ConsecutiveFailures := 0\<rparr>"

lemma counts_clear_eq [simp]: "counts_clear c = counts_zero"
  by (cases c) (simp add: counts_clear_def counts_zero_def)

lemmas counts_defs = counts_zero_def counts_onRequest_def counts_onSuccess_def counts_onFailure_def

section \<open>The breaker\<close>

text \<open>\<^verbatim>\<open>State\<close> is an integer type in Go; these three constants are all the values it takes.\<close>

datatype State = StateClosed | StateHalfOpen | StateOpen

fun State_String :: "State \<Rightarrow> string" where
  "State_String StateClosed = ''closed''"
| "State_String StateHalfOpen = ''half-open''"
| "State_String StateOpen = ''open''"

datatype cb_error = ErrOpenState | CbErrTooManyRequests | AppError string

fun cb_Error :: "cb_error \<Rightarrow> string" where
  "cb_Error CbErrTooManyRequests = ''too many requests''"
| "cb_Error ErrOpenState = ''circuit breaker is open''"
| "cb_Error (AppError msg) = msg"

text \<open>A nil error is \<open>None\<close>; a nil callback in the settings is \<open>None\<close>.\<close>

record cb_Settings =
  st_MaxRequests :: uint32
  st_Interval :: duration
  st_Timeout :: duration
  st_ReadyToTrip :: "(Counts \<Rightarrow> bool) option"
  st_OnStateChange :: bool
  st_IsSuccessful :: "(cb_error option \<Rightarrow> bool) option"

record CircuitBreaker =
  cb_name :: string
  maxRequests :: uint32
  interval :: duration
  timeout :: duration
  readyToTrip :: "Counts \<Rightarrow> bool"
  isSuccessful :: "cb_error option \<Rightarrow> bool"
  onStateChange :: bool
  cb_state :: State
  generation :: uint64
  counts :: Counts
  expiry :: time
  changes :: "(string \<times> State \<times> State) list"

definition defaultInterval :: duration where
  "defaultInterval = 0 * Second"

definition defaultTimeout :: duration where
  "defaultTimeout = 10 * Second"

definition defaultReadyToTrip :: "Counts \<Rightarrow> bool" where
  "defaultReadyToTrip c \<longleftrightarrow> 5 \<le> ConsecutiveFailures c"

definition defaultIsSuccessful :: "cb_error option \<Rightarrow> bool" where
  "defaultIsSuccessful err \<longleftrightarrow> err = None"

definition toNewGeneration :: "time \<Rightarrow> CircuitBreaker \<Rightarrow> CircuitBreaker" where
  "toNewGeneration now cb =
     (let cb1 = cb\<lparr>generation := generation cb + 1, counts := counts_clear (counts cb)\<rparr>
      in case cb_state cb1 of
           StateClosed \<Rightarrow>
             (if interval cb1 = 0 then cb1\<lparr>expiry := zero_time\<rparr>
              else cb1\<lparr>expiry := Add now (interval cb1)\<rparr>)
         | StateOpen \<Rightarrow> cb1\<lparr>expiry := Add now (timeout cb1)\<rparr>
         | StateHalfOpen \<Rightarrow> cb1\<lparr>expiry := zero_time\<rparr>)"

definition NewCircuitBreaker :: "time \<Rightarrow> string \<Rightarrow> cb_Settings \<Rightarrow> CircuitBreaker" where
  "NewCircuitBreaker now name st =
     toNewGeneration now
       \<lparr>cb_name = name,
        maxRequests = (if st_MaxRequests st = 0 then 1 else st_MaxRequests st),
        interval = (if st_Interval st \<le>s 0 then defaultInterval else st_Interval st),
        timeout = (if st_Timeout st \<le>s 0 then defaultTimeout else st_Timeout st),
        readyToTrip = (case st_ReadyToTrip st of None \<Rightarrow> defaultReadyToTrip | Some f \<Rightarrow> f),
        isSuccessful = (case st_IsSuccessful st of None \<Rightarrow> defaultIsSuccessful | Some f \<Rightarrow> f),
        onStateChange = st_OnStateChange st,
        cb_state = StateClosed, generation = 0, counts = counts_zero, expiry = zero_time, changes = []\<rparr>"

definition setState :: "State \<Rightarrow> time \<Rightarrow> CircuitBreaker \<Rightarrow> CircuitBreaker" where
  "setState state now cb =
     (if cb_state cb = state then cb
      else
        (let prev = cb_state cb; cb1 = toNewGeneration now (cb\<lparr>cb_state := state\<rparr>)
         in if onStateChange cb1 then cb1\<lparr>changes := changes cb1 @ [(cb_name cb1, prev, state)]\<rparr> else cb1))"

definition currentState :: "time \<Rightarrow> CircuitBreaker \<Rightarrow> (State \<times> uint64) \<times> CircuitBreaker" where
  "currentState now cb =
     (let cb1 =
        (case cb_state cb of
           StateClosed \<Rightarrow> if \<not> IsZero (expiry cb) \<and> Before (expiry cb) now then toNewGeneration now cb else cb
         | StateOpen \<Rightarrow> if Before (expiry cb) now then setState StateHalfOpen now cb else cb
         | StateHalfOpen \<Rightarrow> cb)
      in ((cb_state cb1, generation cb1), cb1))"

definition State_method :: "time \<Rightarrow> CircuitBreaker \<Rightarrow> State \<times> CircuitBreaker" where
  "State_method now cb = (let ((state, _), cb1) = currentState now cb in (state, cb1))"

definition onSuccess :: "State \<Rightarrow> time \<Rightarrow> CircuitBreaker \<Rightarrow> CircuitBreaker" where
  "onSuccess state now cb =
     (case state of
        StateClosed \<Rightarrow> cb\<lparr>counts := counts_onSuccess (counts cb)\<rparr>
      | StateHalfOpen \<Rightarrow>
          (let cb1 = cb\<lparr>counts := counts_onSuccess (counts cb)\<rparr>
           in if maxRequests cb1 \<le> ConsecutiveSuccesses (counts cb1) then setState StateClosed now cb1 else cb1)
      | StateOpen \<Rightarrow> cb)"

definition onFailure :: "State \<Rightarrow> time \<Rightarrow> CircuitBreaker \<Rightarrow> CircuitBreaker" where
  "onFailure state now cb =
     (case state of
        StateClosed \<Rightarrow>
          (let cb1 = cb\<lparr>counts := counts_onFailure (counts cb)\<rparr>
           in if readyToTrip cb1 (counts cb1) then setState StateOpen now cb1 else cb1)
      | StateHalfOpen \<Rightarrow> setState StateOpen now cb
      | StateOpen \<Rightarrow> cb)"

definition beforeRequest :: "time \<Rightarrow> CircuitBreaker \<Rightarrow> (uint64 \<times> cb_error option) \<times> CircuitBreaker" where
  "beforeRequest now cb =
     (let ((state, gen), cb1) = currentState now cb
      in if state = StateOpen then ((gen, Some ErrOpenState), cb1)
         else if state = StateHalfOpen \<and> maxRequests cb1 \<le> Requests (counts cb1)
           then ((gen, Some CbErrTooManyRequests), cb1)
         else ((gen, None), cb1\<lparr>counts := counts_onRequest (counts cb1)\<rparr>))"

definition afterRequest :: "uint64 \<Rightarrow> bool \<Rightarrow> time \<Rightarrow> CircuitBreaker \<Rightarrow> CircuitBreaker" where
  "afterRequest before success now cb =
     (let ((state, gen), cb1) = currentState now cb
      in if gen \<noteq> before then cb1
         else if success then onSuccess state now cb1
         else onFailure state now cb1)"

section \<open>Execute\<close>

record cb_options =
  op_fallback :: "(cb_error option \<Rightarrow> cb_error option option) option"
  op_isSuccessful :: "(cb_error option \<Rightarrow> bool) option"

definition prepareOpts :: "(cb_options \<Rightarrow> cb_options) list \<Rightarrow> cb_options" where
  "prepareOpts opts = fold (\<lambda>op ops. op ops) opts \<lparr>op_fallback = None, op_isSuccessful = None\<rparr>"

definition IsSuccessful :: "(cb_error option \<Rightarrow> bool) \<Rightarrow> cb_options \<Rightarrow> cb_options" where
  "IsSuccessful f ops = ops\<lparr>op_isSuccessful := Some f\<rparr>"

definition Fallback :: "(cb_error option \<Rightarrow> cb_error option option) \<Rightarrow> cb_options \<Rightarrow> cb_options" where
  "Fallback f ops = ops\<lparr>op_fallback := Some f\<rparr>"

text \<open>
  \<^verbatim>\<open>Execute\<close> by one caller: \<open>now\<close> is the time before the request and \<open>later\<close> the time after it.
  A call of a callback gives \<open>None\<close> when it panics and \<open>Some err\<close> when it returns \<open>err\<close>, and so
  does \<^verbatim>\<open>Execute\<close>: the deferred function counts a panic as a failure and raises it again.
\<close>

definition Execute ::
    "time \<Rightarrow> cb_error option option \<Rightarrow> time \<Rightarrow> (cb_options \<Rightarrow> cb_options) list \<Rightarrow> CircuitBreaker \<Rightarrow>
     cb_error option option \<times> CircuitBreaker" where
  "Execute now req later opts cb =
     (let values = prepareOpts opts; ((gen, err), cb1) = beforeRequest now cb
      in case err of
           Some e \<Rightarrow>
             (case op_fallback values of
                Some fallback \<Rightarrow>
                  (if e = ErrOpenState
                   then (case fallback (Some e) of
                           None \<Rightarrow> (None, cb1)
                         | Some None \<Rightarrow> (Some None, cb1)
                         | Some (Some _) \<Rightarrow> (Some (Some e), cb1))
                   else (Some (Some e), cb1))
              | None \<Rightarrow> (Some (Some e), cb1))
         | None \<Rightarrow>
             (case req of
                None \<Rightarrow> (None, afterRequest gen False later cb1)
              | Some res \<Rightarrow>
                  (let f = (case op_isSuccessful values of None \<Rightarrow> isSuccessful cb1 | Some g \<Rightarrow> g);
                       successful = f res
                   in case (successful, op_fallback values) of
                        (False, Some fallback) \<Rightarrow>
                          (case fallback res of
                             None \<Rightarrow> (None, afterRequest gen False later cb1)
                           | Some err' \<Rightarrow> (Some err', afterRequest gen successful later cb1))
                      | _ \<Rightarrow> (Some res, afterRequest gen successful later cb1))))"

definition cb_Name :: "CircuitBreaker \<Rightarrow> string" where
  "cb_Name cb = cb_name cb"

definition Counts_method :: "CircuitBreaker \<Rightarrow> Counts" where
  "Counts_method cb = counts cb"

text \<open>The two-step breaker, a breaker under another type: \<^verbatim>\<open>Allow\<close> gives the function that reports the result later.\<close>

definition NewTwoStepCircuitBreaker :: "time \<Rightarrow> string \<Rightarrow> cb_Settings \<Rightarrow> CircuitBreaker" where
  "NewTwoStepCircuitBreaker now name st = NewCircuitBreaker now name st"

definition ts_Name :: "CircuitBreaker \<Rightarrow> string" where
  "ts_Name cb = cb_Name cb"

definition ts_State :: "time \<Rightarrow> CircuitBreaker \<Rightarrow> State \<times> CircuitBreaker" where
  "ts_State now cb = State_method now cb"

definition ts_Counts :: "CircuitBreaker \<Rightarrow> Counts" where
  "ts_Counts cb = Counts_method cb"

definition Allow ::
    "time \<Rightarrow> CircuitBreaker \<Rightarrow> (cb_error + (bool \<Rightarrow> time \<Rightarrow> CircuitBreaker \<Rightarrow> CircuitBreaker)) \<times> CircuitBreaker" where
  "Allow now cb =
     (let ((gen, err), cb1) = beforeRequest now cb
      in case err of Some e \<Rightarrow> (Inl e, cb1) | None \<Rightarrow> (Inr (\<lambda>success. afterRequest gen success), cb1))"

end
