(* ===== verification/BreakerProps.thy ===== *)
theory BreakerProps
  imports Breaker "HOL-Library.Sublist"
begin

text \<open>
  Properties of the circuit breaker: what each state admits, when it trips and recovers, and how
  requests in flight are accounted for when many callers use it at once.
\<close>

section \<open>How a method changes the breaker\<close>

text \<open>
  \<open>fresh_gen cb cb'\<close>: the breaker started a new generation, with all counters at zero.
\<close>

definition same_settings :: "CircuitBreaker \<Rightarrow> CircuitBreaker \<Rightarrow> bool" where
  "same_settings cb cb' \<longleftrightarrow> maxRequests cb' = maxRequests cb \<and> interval cb' = interval cb \<and>
     timeout cb' = timeout cb \<and> readyToTrip cb' = readyToTrip cb \<and> isSuccessful cb' = isSuccessful cb"

definition fresh_gen :: "CircuitBreaker \<Rightarrow> CircuitBreaker \<Rightarrow> bool" where
  "fresh_gen cb cb' \<longleftrightarrow> same_settings cb cb' \<and> generation cb' = generation cb + 1 \<and> counts cb' = counts_zero"

lemma same_settings_refl [simp]: "same_settings cb cb"
  by (simp add: same_settings_def)

lemma toNewGeneration_fresh [simp]:
  "fresh_gen cb (toNewGeneration now cb)" "cb_state (toNewGeneration now cb) = cb_state cb"
  by (auto simp: fresh_gen_def same_settings_def toNewGeneration_def Let_def split: State.splits)

lemma toNewGeneration_expiry:
  "expiry (toNewGeneration now cb) =
     (case cb_state cb of
        StateClosed \<Rightarrow> if interval cb = 0 then zero_time else Add now (interval cb)
      | StateOpen \<Rightarrow> Add now (timeout cb)
      | StateHalfOpen \<Rightarrow> zero_time)"
  by (auto simp: toNewGeneration_def Let_def split: State.splits)

lemma setState_fresh:
  "cb_state cb \<noteq> s \<Longrightarrow> fresh_gen cb (setState s now cb) \<and> cb_state (setState s now cb) = s \<and>
     expiry (setState s now cb) = expiry (toNewGeneration now (cb\<lparr>cb_state := s\<rparr>))"
  using toNewGeneration_fresh [where cb = "cb\<lparr>cb_state := s\<rparr>" and now = now]
  by (auto simp: setState_def Let_def fresh_gen_def same_settings_def)

lemma setState_other:
  "cb_state cb \<noteq> s \<Longrightarrow> fresh_gen cb (setState s now cb)"
  "cb_state cb \<noteq> s \<Longrightarrow> cb_state (setState s now cb) = s"
  "cb_state cb \<noteq> s \<Longrightarrow> expiry (setState s now cb) =
     (case s of
        StateClosed \<Rightarrow> if interval cb = 0 then zero_time else Add now (interval cb)
      | StateOpen \<Rightarrow> Add now (timeout cb)
      | StateHalfOpen \<Rightarrow> zero_time)"
  using setState_fresh [of cb s now] by (auto simp: toNewGeneration_expiry split: State.splits)

text \<open>\<open>rolls now cb\<close>: the time makes \<^verbatim>\<open>currentState\<close> leave the generation.\<close>

definition rolls :: "time \<Rightarrow> CircuitBreaker \<Rightarrow> bool" where
  "rolls now cb \<longleftrightarrow>
     cb_state cb = StateClosed \<and> \<not> IsZero (expiry cb) \<and> Before (expiry cb) now \<or>
     cb_state cb = StateOpen \<and> Before (expiry cb) now"

lemma currentState_stays: "\<not> rolls now cb \<Longrightarrow> currentState now cb = ((cb_state cb, generation cb), cb)"
  by (auto simp: currentState_def rolls_def split: State.splits)

lemma currentState_rolls:
  assumes "rolls now cb"
  obtains cb' where "currentState now cb = ((cb_state cb', generation cb'), cb')" and "fresh_gen cb cb'"
    and "cb_state cb' = (if cb_state cb = StateOpen then StateHalfOpen else cb_state cb)"
  using assms setState_other(1,2) [of cb StateHalfOpen now]
  by (cases "cb_state cb") (auto simp: currentState_def rolls_def Let_def)

section \<open>Open, half-open, closed\<close>

text \<open>
  An open breaker rejects every request until its timeout has passed, without changing, and
  then admits the next one as the first request of a half-open generation.
\<close>

theorem open_breaker_rejects_until_expiry:
  assumes "cb_state cb = StateOpen"
  shows "(now \<le> expiry cb \<longrightarrow> beforeRequest now cb = ((generation cb, Some ErrOpenState), cb)) \<and>
    (expiry cb < now \<longrightarrow> 0 < maxRequests cb \<longrightarrow>
       fst (beforeRequest now cb) = (generation cb + 1, None) \<and>
       cb_state (snd (beforeRequest now cb)) = StateHalfOpen \<and>
       counts (snd (beforeRequest now cb)) = counts_onRequest counts_zero)"
proof -
  have "beforeRequest now cb = ((generation cb, Some ErrOpenState), cb)" if "now \<le> expiry cb"
    using currentState_stays [of now cb] that assms by (simp add: rolls_def beforeRequest_def Before_def)
  moreover have "fst (beforeRequest now cb) = (generation cb + 1, None) \<and>
       cb_state (snd (beforeRequest now cb)) = StateHalfOpen \<and>
       counts (snd (beforeRequest now cb)) = counts_onRequest counts_zero"
    if "expiry cb < now" "0 < maxRequests cb"
  proof -
    have "rolls now cb" using that assms by (simp add: rolls_def Before_def)
    then obtain cb' where "currentState now cb = ((cb_state cb', generation cb'), cb')" "fresh_gen cb cb'"
        "cb_state cb' = StateHalfOpen"
      using assms by (auto elim: currentState_rolls)
    then show ?thesis
      using that by (simp add: beforeRequest_def fresh_gen_def same_settings_def counts_zero_def not_le)
  qed
  ultimately show ?thesis by blast
qed

definition ex_settings :: cb_Settings where
  "ex_settings = \<lparr>st_MaxRequests = 2, st_Interval = 0, st_Timeout = 0, st_ReadyToTrip = None,
     st_OnStateChange = False, st_IsSuccessful = None\<rparr>"

theorem open_breaker_rejects_until_expiry_witness:
  "let cb = setState StateOpen 100 (NewCircuitBreaker 1 ''b'' ex_settings) in
   cb_state cb = StateOpen \<and> fst (beforeRequest 200 cb) = (2, Some ErrOpenState) \<and>
   fst (beforeRequest 20000000000 cb) = (3, None)"
proof -
  let ?n = "NewCircuitBreaker 1 ''b'' ex_settings"
  let ?cb = "setState StateOpen 100 ?n"
  have n: "cb_state ?n = StateClosed" "maxRequests ?n = 2" "timeout ?n = 10000000000" "generation ?n = 1"
    by (simp_all add: NewCircuitBreaker_def ex_settings_def toNewGeneration_def Let_def defaultTimeout_def
        defaultInterval_def Second_def)
  have cb: "cb_state ?cb = StateOpen" "maxRequests ?cb = 2" "generation ?cb = 2" "expiry ?cb = 10000000100"
    using setState_other [of ?n StateOpen 100] n by (simp_all add: fresh_gen_def same_settings_def Add_def)
  from open_breaker_rejects_until_expiry [OF cb(1), of 200] open_breaker_rejects_until_expiry [OF cb(1), of 20000000000] cb
  show ?thesis by (simp add: Let_def)
qed

text \<open>
  The two-step breaker is the breaker with the request in the hands of the caller: asking, running the
  request and reporting its success is \<^verbatim>\<open>Execute\<close> without options.
\<close>

lemma two_step_Execute:
  "Execute now (Some res) later [] cb =
     (case Allow now cb of
        (Inl e, cb1) \<Rightarrow> (Some (Some e), cb1)
      | (Inr report, cb1) \<Rightarrow> (Some res, report (isSuccessful cb1 res) later cb1))"
  by (auto simp: Execute_def Allow_def prepareOpts_def Let_def split: prod.split option.split bool.split)

section \<open>Requests one after the other\<close>

text \<open>
  A caller that makes requests in sequence, without options: each has the time before it, its
  outcome and the time after it. Under the default \<^verbatim>\<open>isSuccessful\<close> a request fails when it panics
  or returns an error.
\<close>

fun serve :: "(time \<times> cb_error option option \<times> time) list \<Rightarrow> CircuitBreaker \<Rightarrow> CircuitBreaker" where
  "serve [] cb = cb"
| "serve ((now, req, later) # rs) cb = serve rs (snd (Execute now req later [] cb))"

definition failed :: "cb_error option option \<Rightarrow> bool" where
  "failed req \<longleftrightarrow> req \<noteq> Some None"

lemma serve_append: "serve (rs @ rs') cb = serve rs' (serve rs cb)"
  by (induction rs cb rule: serve.induct) auto

lemma Execute_plain:
  assumes "beforeRequest now cb = ((g, None), cb1)" and "isSuccessful cb1 = defaultIsSuccessful"
  shows "snd (Execute now req later [] cb) = afterRequest g (\<not> failed req) later cb1"
  using assms by (auto simp: Execute_def prepareOpts_def failed_def defaultIsSuccessful_def Let_def
      split: option.splits bool.splits)

lemma Execute_rejected:
  assumes "beforeRequest now cb = ((g, Some e), cb1)"
  shows "snd (Execute now req later [] cb) = cb1"
  using assms by (simp add: Execute_def prepareOpts_def Let_def)

text \<open>A breaker with the default policies that never clears its counts while closed.\<close>

definition default_policy :: "CircuitBreaker \<Rightarrow> bool" where
  "default_policy cb \<longleftrightarrow> interval cb = 0 \<and> readyToTrip cb = defaultReadyToTrip \<and> isSuccessful cb = defaultIsSuccessful"

lemma default_policy_same: "same_settings cb cb' \<Longrightarrow> default_policy cb' = default_policy cb"
  by (simp add: same_settings_def default_policy_def)

definition closed_with :: "nat \<Rightarrow> CircuitBreaker \<Rightarrow> bool" where
  "closed_with k cb \<longleftrightarrow> default_policy cb \<and> cb_state cb = StateClosed \<and> expiry cb = zero_time \<and>
     unat (ConsecutiveFailures (counts cb)) = k"

lemma Execute_closed:
  assumes "closed_with k cb" and "k < 5"
  shows "let k' = (if failed req then Suc k else 0); cb' = snd (Execute now req later [] cb) in
    timeout cb' = timeout cb \<and>
    (if k' < 5 then closed_with k' cb'
     else cb_state cb' = StateOpen \<and> expiry cb' = Add later (timeout cb))"
proof -
  define cb' where "cb' = snd (Execute now req later [] cb)"
  have c: "cb_state cb = StateClosed" "expiry cb = zero_time" "interval cb = 0" "isSuccessful cb = defaultIsSuccessful"
      "readyToTrip cb = defaultReadyToTrip" "unat (ConsecutiveFailures (counts cb)) = k"
    using assms(1) by (simp_all add: closed_with_def default_policy_def)
  let ?cb1 = "cb\<lparr>counts := counts_onRequest (counts cb)\<rparr>"
  have nr: "\<not> rolls t cb" "\<not> rolls t ?cb1" for t
    using c by (simp_all add: rolls_def IsZero_def)
  have "beforeRequest now cb = ((generation cb, None), ?cb1)"
    using currentState_stays [OF nr(1), of now] c by (simp add: beforeRequest_def)
  from Execute_plain [OF this] c
  have E: "cb' = (if failed req then onFailure else onSuccess) StateClosed later ?cb1"
    using currentState_stays [OF nr(2), of later] by (simp add: cb'_def afterRequest_def)
  let ?cb2 = "cb\<lparr>counts := counts_onFailure (counts_onRequest (counts cb))\<rparr>"
  have "unat (ConsecutiveFailures (counts cb) + 1) = Suc k"
    using c(6) assms(2) by (subst unat_add_lem [THEN iffD1]) simp_all
  then have u: "unat (ConsecutiveFailures (counts ?cb2)) = Suc k" and
      trip: "defaultReadyToTrip (counts ?cb2) \<longleftrightarrow> 5 \<le> Suc k"
    by (simp_all add: counts_defs defaultReadyToTrip_def word_le_nat_alt)
  show ?thesis
    using E u trip c setState_other [of ?cb2 StateOpen later]
    by (auto simp: cb'_def [symmetric] onFailure_def onSuccess_def Let_def closed_with_def default_policy_def
        fresh_gen_def same_settings_def counts_onSuccess_def)
qed

text \<open>
  The specification of tripping: five failures in a row. \<open>tripped k rs\<close> runs it along the
  outcomes \<open>rs\<close> with \<open>k\<close> failures already in a row.
\<close>

fun tripped :: "nat \<Rightarrow> bool list \<Rightarrow> bool" where
  "tripped k [] = False"
| "tripped k (f # fs) = (let k' = (if f then Suc k else 0) in 5 \<le> k' \<or> tripped k' fs)"

lemma prefix_replicate_le: "m \<le> n \<Longrightarrow> prefix (replicate n True) fs \<Longrightarrow> prefix (replicate m True) fs"
  using prefix_order.trans [of "replicate m True" "replicate n True" fs]
  by (metis le_add_diff_inverse prefixI replicate_add)

lemma tripped_iff:
  "k < 5 \<Longrightarrow> tripped k fs \<longleftrightarrow>
     sublist (replicate 5 True) fs \<or> prefix (replicate (5 - k) True) fs"
proof (induction fs arbitrary: k)
  case Nil
  then show ?case by simp
next
  case (Cons f fs)
  have sub: "sublist (replicate 5 True) (f # fs) \<longleftrightarrow> f \<and> prefix (replicate 4 True) fs \<or> sublist (replicate 5 True) fs"
    by (auto simp: sublist_Cons_right eval_nat_numeral)
  have pre: "prefix (replicate (5 - k) True) (f # fs) \<longleftrightarrow> f \<and> prefix (replicate (4 - k) True) fs"
    using Cons.prems Suc_diff_le [of k 4] by simp
  have four: "prefix (replicate 4 True) fs \<Longrightarrow> prefix (replicate (4 - k) True) fs"
    by (rule prefix_replicate_le [of _ 4]) simp_all
  show ?case
  proof (cases "f \<and> Suc k < 5")
    case True
    then show ?thesis using Cons.IH [of "Suc k"] sub pre four by auto
  next
    case False
    then show ?thesis
      using Cons.IH [of 0] Cons.prems sub pre prefix_imp_sublist [of "replicate 5 True" fs]
      by (cases f) (auto simp: not_less_eq_eq)
  qed
qed

lemma serve_open:
  assumes "cb_state cb = StateOpen" and "\<forall>(now, req, later) \<in> set rs. now \<le> expiry cb"
  shows "serve rs cb = cb"
  using assms
proof (induction rs)
  case (Cons r rs)
  obtain now req later where r: "r = (now, req, later)" by (cases r)
  have "beforeRequest now cb = ((generation cb, Some ErrOpenState), cb)"
    using currentState_stays [of now cb] Cons.prems r by (simp add: rolls_def beforeRequest_def Before_def)
  then show ?case
    using Cons r by (simp add: Execute_rejected)
qed simp

lemma serve_default:
  assumes "closed_with k cb" and "k < 5"
    and "\<forall>(now, req, later) \<in> set rs. T \<le> later \<and> now \<le> T + sint (timeout cb)"
  shows "cb_state (serve rs cb) = (if tripped k (map (\<lambda>(now, req, later). failed req) rs) then StateOpen else StateClosed)"
  using assms
proof (induction rs arbitrary: k cb)
  case Nil
  then show ?case by (simp add: closed_with_def)
next
  case (Cons r rs)
  obtain now req later where r: "r = (now, req, later)" by (cases r)
  let ?k = "if failed req then Suc k else 0" and ?cb = "snd (Execute now req later [] cb)"
  have E: "timeout ?cb = timeout cb"
      "if ?k < 5 then closed_with ?k ?cb else cb_state ?cb = StateOpen \<and> expiry ?cb = Add later (timeout cb)"
    using Execute_closed [OF Cons.prems(1,2), of req now later] by (simp_all add: Let_def)
  show ?case
  proof (cases "?k < 5")
    case True
    with Cons.IH [of ?k ?cb] Cons.prems(3) E show ?thesis by (simp add: r Let_def split: if_splits)
  next
    case False
    then have "serve rs ?cb = ?cb"
      using E(2) Cons.prems(3) by (intro serve_open) (auto simp: r Add_def)
    then show ?thesis using False E(2) by (simp add: r Let_def)
  qed
qed

text \<open>
  C25: the default breaker trips on the fifth consecutive failure and not before. When a sequence
  of requests stays within one timeout, the breaker is open after it exactly when five
  requests in a row failed (a panic is a failure), and closed otherwise.
\<close>

theorem default_breaker_trips_on_five:
  assumes "st_Interval st \<le>s 0" and "st_ReadyToTrip st = None" and "st_IsSuccessful st = None"
    and "\<forall>(now, req, later) \<in> set rs. T \<le> later \<and> now \<le> T + sint (timeout (NewCircuitBreaker t name st))"
  shows "cb_state (serve rs (NewCircuitBreaker t name st)) =
    (if sublist (replicate 5 True) (map (\<lambda>(now, req, later). failed req) rs) then StateOpen else StateClosed)"
proof -
  let ?fs = "map (\<lambda>(now, req, later). failed req) rs"
  have "closed_with 0 (NewCircuitBreaker t name st)"
    using assms(1-3) by (simp add: NewCircuitBreaker_def toNewGeneration_def Let_def closed_with_def
        default_policy_def defaultInterval_def counts_zero_def)
  note S = serve_default [OF this _ assms(4)]
  have "tripped 0 ?fs \<longleftrightarrow> sublist (replicate 5 True) ?fs"
    using tripped_iff [of 0 ?fs] prefix_imp_sublist by auto
  with S show ?thesis by simp
qed

theorem default_breaker_trips_on_five_witness:
  "let bad = (1, Some (Some (AppError ''x'')), 2); good = (1, Some None, 2); cb = NewCircuitBreaker 1 ''b'' ex_settings in
   cb_state (serve [bad, bad, bad, bad, good, bad] cb) = StateClosed \<and>
   cb_state (serve [good, bad, bad, bad, (1, None, 2), bad] cb) = StateOpen"
proof -
  let ?bad = "(1, Some (Some (AppError ''x'')), 2)" and ?good = "(1, Some None, 2)"
  have t: "timeout (NewCircuitBreaker 1 ''b'' ex_settings) = 10000000000"
    by (simp add: NewCircuitBreaker_def ex_settings_def toNewGeneration_def Let_def defaultTimeout_def Second_def)
  have st: "st_Interval ex_settings \<le>s 0" "st_ReadyToTrip ex_settings = None" "st_IsSuccessful ex_settings = None"
    by (simp_all add: ex_settings_def)
  show ?thesis
    using default_breaker_trips_on_five [OF st, of "[?bad, ?bad, ?bad, ?bad, ?good, ?bad]" 0 1 "''b''"]
      default_breaker_trips_on_five [OF st, of "[?good, ?bad, ?bad, ?bad, (1, None, 2), ?bad]" 0 1 "''b''"]
    by (simp add: t Let_def failed_def eval_nat_numeral sublist_Cons_right)
qed

text \<open>A half-open generation in which \<open>k\<close> requests were made and succeeded.\<close>

definition half_open_with :: "nat \<Rightarrow> CircuitBreaker \<Rightarrow> bool" where
  "half_open_with k cb \<longleftrightarrow> cb_state cb = StateHalfOpen \<and> isSuccessful cb = defaultIsSuccessful \<and>
     unat (Requests (counts cb)) = k \<and> unat (ConsecutiveSuccesses (counts cb)) = k \<and>
     k < unat (maxRequests cb)"

lemma unat_Suc_below: "unat (a + 1) = Suc (unat a)" if "unat a < unat b" for a b :: "32 word"
proof -
  have "unat b < 2 ^ 32" using unsigned_less [where w = b] by simp
  with that show ?thesis by (subst unat_add_lem [THEN iffD1]) simp_all
qed

lemma Execute_half_open:
  assumes "half_open_with k cb"
  shows "let cb' = snd (Execute now req later [] cb) in
    same_settings cb cb' \<and>
    (if failed req then cb_state cb' = StateOpen
     else if Suc k = unat (maxRequests cb) then cb_state cb' = StateClosed
     else half_open_with (Suc k) cb')"
proof -
  define cb' where "cb' = snd (Execute now req later [] cb)"
  have c: "cb_state cb = StateHalfOpen" "isSuccessful cb = defaultIsSuccessful"
      "unat (Requests (counts cb)) = k" "unat (ConsecutiveSuccesses (counts cb)) = k" "k < unat (maxRequests cb)"
    using assms by (simp_all add: half_open_with_def)
  let ?cb1 = "cb\<lparr>counts := counts_onRequest (counts cb)\<rparr>"
  have nr: "\<not> rolls t cb" "\<not> rolls t ?cb1" for t
    using c by (simp_all add: rolls_def)
  have "beforeRequest now cb = ((generation cb, None), ?cb1)"
    using currentState_stays [OF nr(1), of now] c by (simp add: beforeRequest_def word_le_nat_alt)
  from Execute_plain [OF this] c
  have E: "cb' = (if failed req then onFailure else onSuccess) StateHalfOpen later ?cb1"
    using currentState_stays [OF nr(2), of later] by (simp add: cb'_def afterRequest_def)
  let ?cb2 = "cb\<lparr>counts := counts_onSuccess (counts_onRequest (counts cb))\<rparr>"
  have u: "unat (Requests (counts ?cb2)) = Suc k" "unat (ConsecutiveSuccesses (counts ?cb2)) = Suc k"
    using unat_Suc_below [of "Requests (counts cb)" "maxRequests cb"]
      unat_Suc_below [of "ConsecutiveSuccesses (counts cb)" "maxRequests cb"] c
    by (simp_all add: counts_defs)
  show ?thesis
    using E u c setState_other(1,2) [of ?cb1 StateOpen later] setState_other(1,2) [of ?cb2 StateClosed later]
    by (auto simp: cb'_def [symmetric] onFailure_def onSuccess_def Let_def half_open_with_def fresh_gen_def
        same_settings_def word_le_nat_alt)
qed

lemma serve_half_open:
  assumes "half_open_with k cb" and "\<forall>(now, req, later) \<in> set rs. \<not> failed req"
    and "k + length rs < unat (maxRequests cb)"
  shows "half_open_with (k + length rs) (serve rs cb) \<and> same_settings cb (serve rs cb)"
  using assms
proof (induction rs arbitrary: k cb)
  case (Cons r rs)
  obtain now req later where r: "r = (now, req, later)" by (cases r)
  let ?cb = "snd (Execute now req later [] cb)"
  have "same_settings cb ?cb" "half_open_with (Suc k) ?cb"
    using Execute_half_open [OF Cons.prems(1), of now req later] Cons.prems(2,3) by (auto simp: r Let_def)
  with Cons.IH [of "Suc k" ?cb] Cons.prems(2,3) show ?case
    by (auto simp: r same_settings_def)
qed simp

text \<open>
  C26: recovery. Once its timeout has passed, an open breaker is closed again by as many
  consecutive successes as \<^verbatim>\<open>maxRequests\<close>, stays half-open before that, and any failure on the
  way opens it again.
\<close>

theorem breaker_recovers_after_maxRequests:
  assumes "cb_state cb = StateOpen" and "isSuccessful cb = defaultIsSuccessful"
    and "\<forall>(now, req, later) \<in> set rs. \<not> failed req" and "length rs < unat (maxRequests cb)"
    and "expiry cb < fst (hd (rs @ [(now, req, later)]))"
  shows "cb_state (serve (rs @ [(now, req, later)]) cb) =
    (if failed req then StateOpen
     else if Suc (length rs) = unat (maxRequests cb) then StateClosed
     else StateHalfOpen)"
proof -
  let ?t = "fst (hd (rs @ [(now, req, later)]))"
  have "rolls ?t cb" using assms(1,5) by (simp add: rolls_def Before_def)
  then obtain cb0 where cb0: "currentState ?t cb = ((cb_state cb0, generation cb0), cb0)" "fresh_gen cb cb0"
      "cb_state cb0 = StateHalfOpen"
    using assms(1) by (auto elim: currentState_rolls)
  then have "currentState ?t cb0 = currentState ?t cb"
    using currentState_stays [of ?t cb0] by (simp add: rolls_def)
  then have same: "Execute ?t r l [] cb0 = Execute ?t r l [] cb" for r l
    by (simp add: Execute_def beforeRequest_def)
  have serve: "serve (rs @ [(now, req, later)]) cb = serve (rs @ [(now, req, later)]) cb0"
    using same by (cases rs) auto
  have h: "half_open_with 0 cb0" and m: "maxRequests cb0 = maxRequests cb"
    using cb0(2,3) assms(2,4) by (auto simp: half_open_with_def fresh_gen_def same_settings_def counts_zero_def)
  have "half_open_with (length rs) (serve rs cb0)" "maxRequests (serve rs cb0) = maxRequests cb"
    using serve_half_open [OF h assms(3)] assms(4) m by (simp_all add: same_settings_def)
  then show ?thesis
    unfolding serve
    using Execute_half_open [of "length rs" "serve rs cb0" now req later]
    by (auto simp: serve_append Let_def half_open_with_def)
qed

theorem breaker_recovers_after_maxRequests_witness:
  "let cb = setState StateOpen 100 (NewCircuitBreaker 1 ''b'' ex_settings); t = 20000000000; ok = (t, Some None, t) in
   cb_state (serve [ok] cb) = StateHalfOpen \<and> cb_state (serve [ok, ok] cb) = StateClosed \<and>
   cb_state (serve [ok, (t, None, t)] cb) = StateOpen"
proof -
  let ?n = "NewCircuitBreaker 1 ''b'' ex_settings" and ?t = "20000000000 :: time"
  let ?cb = "setState StateOpen 100 ?n"
  have n: "cb_state ?n = StateClosed" "maxRequests ?n = 2" "timeout ?n = 10000000000" "isSuccessful ?n = defaultIsSuccessful"
    by (simp_all add: NewCircuitBreaker_def ex_settings_def toNewGeneration_def Let_def defaultTimeout_def
        defaultInterval_def Second_def)
  have cb: "cb_state ?cb = StateOpen" "isSuccessful ?cb = defaultIsSuccessful" "maxRequests ?cb = 2" "expiry ?cb = 10000000100"
    using setState_other [of ?n StateOpen 100] n by (simp_all add: fresh_gen_def same_settings_def Add_def)
  show ?thesis
    using breaker_recovers_after_maxRequests [OF cb(1,2), of "[]" ?t "Some None" ?t]
      breaker_recovers_after_maxRequests [OF cb(1,2), of "[(?t, Some None, ?t)]" ?t "Some None" ?t]
      breaker_recovers_after_maxRequests [OF cb(1,2), of "[(?t, Some None, ?t)]" ?t None ?t] cb(3,4)
    by (simp add: Let_def failed_def)
qed

section \<open>Many callers at once\<close>

text \<open>
  The breaker with the requests in flight: a multiset of the generations they were admitted in.
  A step is one call of a method by some caller.
\<close>

record calls =
  brk :: CircuitBreaker
  inflight :: "uint64 multiset"

datatype cb_action = BeforeReq time | AfterReq uint64 bool time | AskState time

inductive cb_step :: "calls \<Rightarrow> cb_action \<Rightarrow> calls \<Rightarrow> bool" where
  admitted: "beforeRequest now (brk s) = ((g, None), cb) \<Longrightarrow>
    cb_step s (BeforeReq now) \<lparr>brk = cb, inflight = add_mset g (inflight s)\<rparr>"
| rejected: "beforeRequest now (brk s) = ((g, Some e), cb) \<Longrightarrow>
    cb_step s (BeforeReq now) (s\<lparr>brk := cb\<rparr>)"
| reported: "g \<in># inflight s \<Longrightarrow>
    cb_step s (AfterReq g ok now) \<lparr>brk = afterRequest g ok now (brk s), inflight = inflight s - {#g#}\<rparr>"
| asked: "State_method now (brk s) = (st, cb) \<Longrightarrow> cb_step s (AskState now) (s\<lparr>brk := cb\<rparr>)"

definition counts_ok :: "CircuitBreaker \<Rightarrow> uint64 multiset \<Rightarrow> bool" where
  "counts_ok cb fl \<longleftrightarrow>
     (let c = counts cb; n = count fl (generation cb)
      in case cb_state cb of
           StateClosed \<Rightarrow> Requests c = of_nat n + TotalSuccesses c + TotalFailures c
         | StateHalfOpen \<Rightarrow>
             unat (Requests c) = n + unat (TotalSuccesses c) \<and> TotalFailures c = 0 \<and>
             ConsecutiveSuccesses c = TotalSuccesses c \<and> Requests c \<le> maxRequests cb \<and>
             TotalSuccesses c < maxRequests cb
         | StateOpen \<Rightarrow> c = counts_zero \<and> n = 0)"

definition calls_ok :: "calls \<Rightarrow> bool" where
  "calls_ok s \<longleftrightarrow> 0 < maxRequests (brk s) \<and> (\<forall>g \<in># inflight s. g \<le> generation (brk s)) \<and>
     counts_ok (brk s) (inflight s)"

text \<open>Room below the top of the 64-bit generation counter for the two new generations a step may start.\<close>

definition no_wrap :: "calls \<Rightarrow> bool" where
  "no_wrap s \<longleftrightarrow> unat (generation (brk s)) + 2 < 2 ^ 64"

lemma counts_ok_fresh:
  assumes "0 < maxRequests cb" and "counts cb = counts_zero" and "count fl (generation cb) = 0"
  shows "counts_ok cb fl"
  using assms by (simp add: counts_ok_def counts_zero_def Let_def split: State.splits)

text \<open>What a new generation keeps: no request in flight belongs to it.\<close>

lemma fresh_gen_calls:
  assumes "fresh_gen cb cb'" and "0 < maxRequests cb" and "\<forall>g \<in># fl. g \<le> generation cb"
    and "unat (generation cb) + 1 < 2 ^ 64"
  shows "0 < maxRequests cb'" and "\<forall>g \<in># fl. g \<le> generation cb'" and "counts_ok cb' fl"
    and "count fl (generation cb') = 0" and "unat (generation cb') = unat (generation cb) + 1"
proof -
  have g: "generation cb' = generation cb + 1" "counts cb' = counts_zero" "maxRequests cb' = maxRequests cb"
    using assms(1) by (simp_all add: fresh_gen_def same_settings_def)
  show u: "unat (generation cb') = unat (generation cb) + 1"
    using assms(4) by (subst g(1), subst unat_add_lem [THEN iffD1]) simp_all
  show m: "0 < maxRequests cb'" using assms(2) g by simp
  show "\<forall>g \<in># fl. g \<le> generation cb'" using assms(3) u by (fastforce simp: word_le_nat_alt)
  have "generation cb' \<notin># fl" using assms(3) u by (fastforce simp: word_le_nat_alt)
  then show n: "count fl (generation cb') = 0" by (simp add: not_in_iff)
  show "counts_ok cb' fl" by (rule counts_ok_fresh [OF m g(2) n])
qed

text \<open>
  After \<^verbatim>\<open>currentState\<close> the breaker is the same or fresh; either way the invariant holds, and one
  more generation fits.
\<close>

lemma currentState_calls:
  assumes "calls_ok s" and "no_wrap s"
  obtains cb where "currentState now (brk s) = ((cb_state cb, generation cb), cb)"
    and "calls_ok (s\<lparr>brk := cb\<rparr>)" and "unat (generation cb) + 1 < 2 ^ 64"
    and "unat (generation cb) \<le> unat (generation (brk s)) + 1" and "same_settings (brk s) cb"
proof (cases "rolls now (brk s)")
  case False
  then show thesis
    using assms currentState_stays by (intro that [of "brk s"]) (auto simp: no_wrap_def calls_ok_def)
next
  case True
  then obtain cb where cb: "currentState now (brk s) = ((cb_state cb, generation cb), cb)" "fresh_gen (brk s) cb"
    by (auto elim: currentState_rolls)
  have "0 < maxRequests (brk s)" "\<forall>g \<in># inflight s. g \<le> generation (brk s)" "unat (generation (brk s)) + 1 < 2 ^ 64"
    using assms by (simp_all add: calls_ok_def no_wrap_def)
  from fresh_gen_calls [OF cb(2) this] show thesis
    using cb assms(2) by (intro that [OF cb(1)]) (auto simp: calls_ok_def no_wrap_def fresh_gen_def)
qed

lemma beforeRequest_calls:
  assumes "calls_ok s" and "no_wrap s" and "beforeRequest now (brk s) = ((g, err), cb)"
  shows "calls_ok \<lparr>brk = cb, inflight = (if err = None then add_mset g (inflight s) else inflight s)\<rparr>"
    and "unat (generation cb) \<le> unat (generation (brk s)) + 1"
proof -
  obtain cb1 where c: "currentState now (brk s) = ((cb_state cb1, generation cb1), cb1)"
      and ok: "calls_ok (s\<lparr>brk := cb1\<rparr>)" and le: "unat (generation cb1) \<le> unat (generation (brk s)) + 1"
    using currentState_calls [OF assms(1,2)] by blast
  have S: "unat (Requests (counts cb1) + 1) = Suc (unat (Requests (counts cb1)))"
    if "\<not> maxRequests cb1 \<le> Requests (counts cb1)"
    using that by (intro unat_Suc_below [of _ "maxRequests cb1"]) (simp add: word_le_nat_alt)
  show "calls_ok \<lparr>brk = cb, inflight = (if err = None then add_mset g (inflight s) else inflight s)\<rparr>"
    using assms(3) c ok S
    by (cases "cb_state cb1")
      (auto simp: beforeRequest_def calls_ok_def counts_ok_def counts_defs Let_def word_le_nat_alt split: if_splits)
  show "unat (generation cb) \<le> unat (generation (brk s)) + 1"
    using assms(3) c le by (auto simp: beforeRequest_def split: if_splits)
qed

lemma fresh_calls:
  assumes "fresh_gen cb2 cb'" and "maxRequests cb2 = maxRequests cb" and "generation cb2 = generation cb"
    and "calls_ok \<lparr>brk = cb, inflight = fl\<rparr>" and "unat (generation cb) + 1 < 2 ^ 64"
  shows "calls_ok \<lparr>brk = cb', inflight = fl - {#g#}\<rparr> \<and> unat (generation cb') \<le> unat (generation cb) + 1"
proof -
  have "0 < maxRequests cb2" "\<forall>g \<in># fl - {#g#}. g \<le> generation cb2" "unat (generation cb2) + 1 < 2 ^ 64"
    using assms(2-5) by (auto simp: calls_ok_def dest: in_diffD)
  from fresh_gen_calls [OF assms(1) this] show ?thesis using assms(3) by (simp add: calls_ok_def)
qed

lemma counted_calls:
  assumes "calls_ok \<lparr>brk = cb, inflight = fl\<rparr>" and "generation cb \<in># fl"
    and "cb_state cb = StateClosed \<and> f \<in> {counts_onSuccess, counts_onFailure} \<or>
      cb_state cb = StateHalfOpen \<and> f = counts_onSuccess \<and> ConsecutiveSuccesses (counts cb) + 1 < maxRequests cb"
  shows "calls_ok \<lparr>brk = cb\<lparr>counts := f (counts cb)\<rparr>, inflight = fl - {#generation cb#}\<rparr>"
proof -
  have "count fl (generation cb) = Suc (count (fl - {#generation cb#}) (generation cb))"
    using assms(2) by (simp add: Suc_diff_1)
  moreover have "unat (TotalSuccesses (counts cb) + 1) = Suc (unat (TotalSuccesses (counts cb)))"
    if "TotalSuccesses (counts cb) < maxRequests cb"
    using that by (intro unat_Suc_below [of _ "maxRequests cb"]) (simp add: word_less_nat_alt)
  ultimately show ?thesis
    using assms
    by (auto simp: calls_ok_def counts_ok_def counts_onSuccess_def counts_onFailure_def Let_def dest: in_diffD)
qed

lemma onSuccess_calls:
  assumes "calls_ok \<lparr>brk = cb, inflight = fl\<rparr>" and "generation cb \<in># fl" and "unat (generation cb) + 1 < 2 ^ 64"
  shows "calls_ok \<lparr>brk = onSuccess (cb_state cb) now cb, inflight = fl - {#generation cb#}\<rparr> \<and>
    unat (generation (onSuccess (cb_state cb) now cb)) \<le> unat (generation cb) + 1"
proof (cases "cb_state cb")
  case StateClosed
  then show ?thesis using counted_calls [OF assms(1,2), of counts_onSuccess] by (simp add: onSuccess_def)
next
  case StateHalfOpen
  let ?cb2 = "cb\<lparr>counts := counts_onSuccess (counts cb)\<rparr>"
  show ?thesis
  proof (cases "maxRequests cb \<le> ConsecutiveSuccesses (counts cb) + 1")
    case True
    then have "onSuccess (cb_state cb) now cb = setState StateClosed now ?cb2"
      using StateHalfOpen by (simp add: onSuccess_def Let_def counts_onSuccess_def)
    then show ?thesis
      using fresh_calls [OF setState_other(1) [of ?cb2 StateClosed now], of cb fl] assms(1,3) StateHalfOpen by simp
  next
    case False
    then have "onSuccess (cb_state cb) now cb = ?cb2"
      using StateHalfOpen by (simp add: onSuccess_def Let_def counts_onSuccess_def)
    then show ?thesis
      using counted_calls [OF assms(1,2), of counts_onSuccess] StateHalfOpen False by (simp add: not_le)
  qed
next
  case StateOpen
  then show ?thesis using assms(1,2) by (simp add: calls_ok_def counts_ok_def Let_def count_eq_zero_iff)
qed

lemma onFailure_calls:
  assumes "calls_ok \<lparr>brk = cb, inflight = fl\<rparr>" and "generation cb \<in># fl" and "unat (generation cb) + 1 < 2 ^ 64"
  shows "calls_ok \<lparr>brk = onFailure (cb_state cb) now cb, inflight = fl - {#generation cb#}\<rparr> \<and>
    unat (generation (onFailure (cb_state cb) now cb)) \<le> unat (generation cb) + 1"
proof (cases "cb_state cb")
  case StateClosed
  let ?cb2 = "cb\<lparr>counts := counts_onFailure (counts cb)\<rparr>"
  show ?thesis
    using counted_calls [OF assms(1,2), of counts_onFailure] StateClosed assms(1,3)
      fresh_calls [OF setState_other(1) [of ?cb2 StateOpen now], of cb fl "generation cb"]
    by (simp add: onFailure_def Let_def)
next
  case StateHalfOpen
  then show ?thesis
    using fresh_calls [OF setState_other(1) [of cb StateOpen now], of cb fl "generation cb"] assms(1,3)
    by (simp add: onFailure_def)
next
  case StateOpen
  then show ?thesis using assms(1,2) by (simp add: calls_ok_def counts_ok_def Let_def count_eq_zero_iff)
qed

lemma afterRequest_calls:
  assumes "calls_ok s" and "no_wrap s" and "g \<in># inflight s"
  shows "calls_ok \<lparr>brk = afterRequest g ok now (brk s), inflight = inflight s - {#g#}\<rparr> \<and>
    unat (generation (afterRequest g ok now (brk s))) \<le> unat (generation (brk s)) + 2"
proof -
  obtain cb where c: "currentState now (brk s) = ((cb_state cb, generation cb), cb)"
      and ok: "calls_ok (s\<lparr>brk := cb\<rparr>)" and w: "unat (generation cb) + 1 < 2 ^ 64"
      and le: "unat (generation cb) \<le> unat (generation (brk s)) + 1"
    using currentState_calls [OF assms(1,2)] by blast
  have ok': "calls_ok \<lparr>brk = cb, inflight = inflight s\<rparr>" using ok by (simp add: calls_ok_def)
  show ?thesis
  proof (cases "generation cb = g")
    case True
    then show ?thesis
      using onSuccess_calls [OF ok' _ w, of now] onFailure_calls [OF ok' _ w, of now] assms(3) le
      by (auto simp: afterRequest_def c)
  next
    case False
    then have "calls_ok \<lparr>brk = cb, inflight = inflight s - {#g#}\<rparr>"
      using ok' by (auto simp: calls_ok_def counts_ok_def Let_def dest: in_diffD)
    with False show ?thesis using le by (simp add: afterRequest_def c)
  qed
qed

lemma cb_step_ok:
  assumes "calls_ok s" and "no_wrap s" and "cb_step s a s'"
  shows "calls_ok s' \<and> unat (generation (brk s')) \<le> unat (generation (brk s)) + 2"
  using assms(3)
proof cases
  case (admitted now g cb)
  then show ?thesis using beforeRequest_calls [OF assms(1,2)] by fastforce
next
  case (rejected now g e cb)
  then show ?thesis using beforeRequest_calls [OF assms(1,2), of now g "Some e" cb] by (auto simp: calls_ok_def)
next
  case (reported g ok now)
  then show ?thesis using afterRequest_calls [OF assms(1,2)] by simp
next
  case (asked now st cb)
  obtain cb1 where "currentState now (brk s) = ((cb_state cb1, generation cb1), cb1)" "calls_ok (s\<lparr>brk := cb1\<rparr>)"
      "unat (generation cb1) \<le> unat (generation (brk s)) + 1"
    using currentState_calls [OF assms(1,2)] by blast
  with asked show ?thesis by (simp add: State_method_def)
qed

interpretation cbs: invariant_system
    "\<lambda>s. inflight s = {#} \<and> (\<exists>t name st. brk s = NewCircuitBreaker t name st)"
    "\<lambda>s a s'. cb_step s a s' \<and> no_wrap s" calls_ok
proof unfold_locales
  fix s :: calls
  assume "inflight s = {#} \<and> (\<exists>t name st. brk s = NewCircuitBreaker t name st)"
  then show "calls_ok s"
    by (auto simp: calls_ok_def NewCircuitBreaker_def intro!: counts_ok_fresh)
      (auto simp: toNewGeneration_def Let_def counts_zero_def word_gt_0)
qed (use cb_step_ok in blast)

lemma run_no_wrap:
  assumes "run cb_step s as s'" and "calls_ok s" and "unat (generation (brk s)) + 2 * length as < 2 ^ 64"
  shows "calls_ok s' \<and> run (\<lambda>s a s'. cb_step s a s' \<and> no_wrap s) s as s'"
  using assms
proof (induction rule: run.induct)
  case (run_Nil s)
  then show ?case by (simp add: run.run_Nil)
next
  case (run_Cons s a s' as s'')
  then have w: "no_wrap s" by (simp add: no_wrap_def)
  have ok: "calls_ok s'" "unat (generation (brk s')) \<le> unat (generation (brk s)) + 2"
    using cb_step_ok [OF run_Cons.prems(1) w run_Cons.hyps(1)] by auto
  then have "unat (generation (brk s')) + 2 * length as < 2 ^ 64"
    using run_Cons.prems(2) by simp
  with run_Cons.IH ok w run_Cons.hyps(1) show ?case by (auto intro: run.run_Cons)
qed

lemma new_calls_ok [simp]: "calls_ok \<lparr>brk = NewCircuitBreaker t name st, inflight = {#}\<rparr>"
  by (rule cbs.init_inv) auto

lemma generation_new [simp]: "generation (NewCircuitBreaker t name st) = 1"
  by (simp add: NewCircuitBreaker_def toNewGeneration_def Let_def)

definition quick_settings :: cb_Settings where
  "quick_settings = ex_settings\<lparr>st_ReadyToTrip := Some (\<lambda>c. 1 \<le> ConsecutiveFailures c)\<rparr>"

text \<open>One request fails and opens the breaker; after the timeout two are admitted on trial, and a third is refused.\<close>

definition trial_breaker :: "uint32 \<Rightarrow> CircuitBreaker" where
  "trial_breaker n = (NewCircuitBreaker 1 ''b'' quick_settings)\<lparr>cb_state := StateHalfOpen, generation := 3,
     counts := counts_zero\<lparr>Requests := n\<rparr>, expiry := zero_time\<rparr>"

lemma quick_run:
  "run cb_step \<lparr>brk = NewCircuitBreaker 1 ''b'' quick_settings, inflight = {#}\<rparr>
     [BeforeReq 2, AfterReq 1 False 3, BeforeReq 20000000000, BeforeReq 20000000001, BeforeReq 20000000002]
     \<lparr>brk = trial_breaker 2, inflight = {#3, 3#}\<rparr>"
proof -
  let ?n = "NewCircuitBreaker 1 ''b'' quick_settings"
  let ?one = "?n\<lparr>counts := counts_zero\<lparr>Requests := 1\<rparr>\<rparr>"
  let ?open = "?n\<lparr>cb_state := StateOpen, generation := 2, counts := counts_zero, expiry := 10000000003\<rparr>"
  note defs = NewCircuitBreaker_def quick_settings_def ex_settings_def toNewGeneration_def Let_def defaultTimeout_def defaultInterval_def
    Second_def beforeRequest_def currentState_def counts_onRequest_def counts_zero_def counts_clear_def zero_time_def IsZero_def Before_def Add_def
  have "beforeRequest 2 ?n = ((1, None), ?one)"
    by (simp add: defs)
  moreover have "afterRequest 1 False 3 ?one = ?open"
    by (simp add: defs afterRequest_def onFailure_def setState_def counts_onFailure_def)
  moreover have "beforeRequest 20000000000 ?open = ((3, None), trial_breaker 1)"
    by (simp add: defs trial_breaker_def setState_def)
  moreover have "beforeRequest 20000000001 (trial_breaker 1) = ((3, None), trial_breaker 2)"
    by (simp add: defs trial_breaker_def word_le_nat_alt)
  moreover have "beforeRequest 20000000002 (trial_breaker 2) = ((3, Some CbErrTooManyRequests), trial_breaker 2)"
    by (simp add: defs trial_breaker_def word_le_nat_alt)
  ultimately show ?thesis
    by (auto simp: run_Cons_iff cb_step.simps)
qed

text \<open>
  C24: however many callers use the breaker at once, while it is half-open at most \<^verbatim>\<open>maxRequests\<close>
  requests were admitted in that generation: those still in flight and those that succeeded
  together are at most \<^verbatim>\<open>maxRequests\<close> and are what \<^verbatim>\<open>Requests\<close> counts; and while it is open, no
  request of its generation is in flight. (Runs shorter than half the range of the generation
  counter.)
\<close>

theorem half_open_admits_at_most_maxRequests:
  assumes "run cb_step \<lparr>brk = NewCircuitBreaker t name st, inflight = {#}\<rparr> as s" and "2 * length as + 1 < 2 ^ 64"
  shows "let cb = brk s; n = count (inflight s) (generation cb) in
    (cb_state cb = StateHalfOpen \<longrightarrow>
       n + unat (TotalSuccesses (counts cb)) = unat (Requests (counts cb)) \<and>
       n + unat (TotalSuccesses (counts cb)) \<le> unat (maxRequests cb)) \<and>
    (cb_state cb = StateOpen \<longrightarrow> n = 0)"
proof -
  have "calls_ok s"
    using run_no_wrap [OF assms(1) new_calls_ok] assms(2) by simp
  then show ?thesis
    by (auto simp: calls_ok_def counts_ok_def Let_def word_le_nat_alt)
qed

theorem half_open_admits_at_most_maxRequests_witness:
  "let s = \<lparr>brk = trial_breaker 2, inflight = {#3, 3#}\<rparr> in
   cb_state (brk s) = StateHalfOpen \<and> maxRequests (brk s) = 2 \<and> count (inflight s) (generation (brk s)) = 2 \<and>
   count (inflight s) (generation (brk s)) + unat (TotalSuccesses (counts (brk s))) \<le> unat (maxRequests (brk s))"
  using half_open_admits_at_most_maxRequests [OF quick_run]
  by (simp add: Let_def trial_breaker_def NewCircuitBreaker_def quick_settings_def ex_settings_def toNewGeneration_def)

text \<open>
  Every result is accounted for. While the breaker is closed, its request counter is the
  number of requests of this generation still in flight plus the successes and failures
  reported in it (modulo \<open>2 ^ 32\<close>, as the counters wrap); a result that arrives from an older
  generation changes no counter.
\<close>

theorem closed_breaker_accounts_for_requests:
  assumes "run cb_step \<lparr>brk = NewCircuitBreaker t name st, inflight = {#}\<rparr> as s" and "2 * length as + 1 < 2 ^ 64"
  shows "(cb_state (brk s) = StateClosed \<longrightarrow>
       Requests (counts (brk s)) =
         of_nat (count (inflight s) (generation (brk s))) + TotalSuccesses (counts (brk s)) + TotalFailures (counts (brk s))) \<and>
    (\<forall>g ok now. g \<noteq> snd (fst (currentState now (brk s))) \<longrightarrow>
       afterRequest g ok now (brk s) = snd (currentState now (brk s)))"
proof -
  have "calls_ok s"
    using run_no_wrap [OF assms(1) new_calls_ok] assms(2) by simp
  then show ?thesis
    by (auto simp: calls_ok_def counts_ok_def Let_def afterRequest_def case_prod_unfold)
qed

theorem closed_breaker_accounts_for_requests_witness:
  "afterRequest 7 True 2 (NewCircuitBreaker 1 ''b'' ex_settings) = NewCircuitBreaker 1 ''b'' ex_settings"
proof -
  let ?cb = "NewCircuitBreaker 1 ''b'' ex_settings"
  have "\<not> rolls 2 ?cb"
    by (simp add: rolls_def NewCircuitBreaker_def toNewGeneration_def Let_def ex_settings_def defaultInterval_def IsZero_def)
  note c = currentState_stays [OF this]
  show ?thesis
    using closed_breaker_accounts_for_requests [OF run_Nil, of 1 "''b''" ex_settings] by (simp add: c)
qed

end
