(* ===== verification/CurlText.thy ===== *)
theory CurlText
  imports GoPrelude "HOL-Library.Char_ord" "HOL-Library.List_Lexorder"
begin

text \<open>
  The curl command that the client logs for a request
  (\<^verbatim>\<open>pkg/clients/udpGameServer/jsonrpc/http2curl.go\<close>), and the proof that a shell reads it back as
  exactly the arguments meant, whatever the request contains.
\<close>

section \<open>The command\<close>

text \<open>
  The part of \<^verbatim>\<open>http.Request\<close> that the client sets. The body of a request of this client is a buffer,
  whose reading does not fail; nil is \<open>None\<close>.
\<close>

record http_Request =
  hr_Method :: string
  hr_URL :: string
  hr_Host :: string
  hr_Body :: "string option"
  hr_Header :: "(string \<times> string list) list"

fun Join :: "string \<Rightarrow> string list \<Rightarrow> string" where
  "Join sep [] = []"
| "Join sep [x] = x"
| "Join sep (x # y # ys) = x @ sep @ Join sep (y # ys)"

definition Replace_quote :: "string \<Rightarrow> string" where
  "Replace_quote str = concat (map (\<lambda>c. if c = CHR 0x27 then [CHR 0x27, CHR 0x5C, CHR 0x27, CHR 0x27] else [c]) str)"

definition bashEscape :: "string \<Rightarrow> string" where
  "bashEscape str = [CHR 0x27] @ Replace_quote str @ [CHR 0x27]"

definition header_line :: "(string \<times> string list) list \<Rightarrow> string \<Rightarrow> string" where
  "header_line header k = k @ '': '' @ Join '' '' (case map_of header k of None \<Rightarrow> [] | Some vs \<Rightarrow> vs)"

text \<open>The headers are visited in the order \<open>p\<close> of the map and then sorted.\<close>

definition toCurl :: "(string \<times> string list) range_order \<Rightarrow> http_Request \<Rightarrow> string list" where
  "toCurl p req =
     (let command = [''curl''];
          command = command @ [''-X'', bashEscape (hr_Method req)];
          command = command @ (case hr_Body req of None \<Rightarrow> [] | Some body \<Rightarrow> [''-d'', bashEscape body]);
          keys = sort (map fst (range_in p (hr_Header req)));
          command = command @ concat (map (\<lambda>k. [''-H'', bashEscape (header_line (hr_Header req) k)]) keys)
      in command @ [bashEscape (hr_URL req)])"

definition CurlCommand_String :: "string list \<Rightarrow> string" where
  "CurlCommand_String parts = Join '' '' parts"

section \<open>What a shell reads\<close>

text \<open>
  Word splitting of a POSIX shell on the part of its input language that the command uses:
  blanks separate words, single quotes keep everything up to the next single quote, a backslash
  outside quotes keeps one character, letters, digits and dashes stand for themselves. Any other
  character outside quotes may mean something to a shell and is refused (\<open>None\<close>), as is an
  unfinished word.
\<close>

datatype sh_mode = Between | InWord string | InQuote string | Escaped string

definition plain :: "char \<Rightarrow> bool" where
  "plain c \<longleftrightarrow> c \<in> set ''abcdefghijklmnopqrstuvwxyzABCDEFGHIJKLMNOPQRSTUVWXYZ0123456789-''"

fun sh_words :: "sh_mode \<Rightarrow> string \<Rightarrow> string list option" where
  "sh_words Between [] = Some []"
| "sh_words (InWord w) [] = Some [w]"
| "sh_words (InQuote w) [] = None"
| "sh_words (Escaped w) [] = None"
| "sh_words Between (c # cs) =
     (if c = CHR '' '' then sh_words Between cs
      else if c = CHR 0x27 then sh_words (InQuote []) cs
      else if c = CHR 0x5C then sh_words (Escaped []) cs
      else if plain c then sh_words (InWord [c]) cs
      else None)"
| "sh_words (InWord w) (c # cs) =
     (if c = CHR '' '' then map_option (Cons w) (sh_words Between cs)
      else if c = CHR 0x27 then sh_words (InQuote w) cs
      else if c = CHR 0x5C then sh_words (Escaped w) cs
      else if plain c then sh_words (InWord (w @ [c])) cs
      else None)"
| "sh_words (InQuote w) (c # cs) =
     (if c = CHR 0x27 then sh_words (InWord w) cs else sh_words (InQuote (w @ [c])) cs)"
| "sh_words (Escaped w) (c # cs) = sh_words (InWord (w @ [c])) cs"

lemma sh_quote: "sh_words (InQuote w) (Replace_quote s @ CHR 0x27 # rest) = sh_words (InWord (w @ s)) rest"
  by (induction s arbitrary: w) (auto simp: Replace_quote_def)

lemma sh_bashEscape: "sh_words Between (bashEscape s @ rest) = sh_words (InWord s) rest"
  using sh_quote [of "[]" s rest] by (simp add: bashEscape_def)

lemma sh_plain:
  "\<forall>c \<in> set s. plain c \<Longrightarrow> sh_words (InWord w) (s @ rest) = sh_words (InWord (w @ s)) rest"
  by (induction s arbitrary: w) (auto simp: plain_def)

text \<open>An argument and how the command writes it.\<close>

definition writes :: "string \<Rightarrow> string \<Rightarrow> bool" where
  "writes arg w \<longleftrightarrow> w = bashEscape arg \<or> w = arg \<and> arg \<noteq> [] \<and> (\<forall>c \<in> set arg. plain c)"

lemma sh_writes: "writes arg w \<Longrightarrow> sh_words Between (w @ rest) = sh_words (InWord arg) rest"
proof -
  assume "writes arg w"
  then consider "w = bashEscape arg" | c s where "w = c # s" "arg = c # s" "plain c" "\<forall>c \<in> set s. plain c"
    by (cases arg) (auto simp: writes_def)
  then show ?thesis
  proof cases
    case 1
    then show ?thesis by (simp add: sh_bashEscape)
  next
    case 2
    then show ?thesis using sh_plain [of s "[c]" rest] by (auto simp: plain_def)
  qed
qed

lemma sh_Join:
  "list_all2 writes args ws \<Longrightarrow> sh_words Between (Join '' '' ws) = Some args"
proof (induction args ws rule: list_all2_induct)
  case (Cons a as w ws)
  then show ?case using sh_writes [of a w "[]"] sh_writes [of a w "'' '' @ Join '' '' ws"] by (cases ws) auto
qed simp

lemma writes_escape [simp]: "writes s (bashEscape s)"
  by (simp add: writes_def)

lemma writes_word: "s \<noteq> [] \<Longrightarrow> \<forall>c \<in> set s. plain c \<Longrightarrow> writes s s"
  by (simp add: writes_def)

text \<open>The arguments that are meant.\<close>

definition curl_args :: "http_Request \<Rightarrow> string list" where
  "curl_args req =
     [''curl'', ''-X'', hr_Method req] @
     (case hr_Body req of None \<Rightarrow> [] | Some body \<Rightarrow> [''-d'', body]) @
     concat (map (\<lambda>k. [''-H'', header_line (hr_Header req) k]) (sort (map fst (hr_Header req)))) @
     [hr_URL req]"

text \<open>
  C40: the logged command is safe to paste. Whatever the method, body, headers and address of the
  request contain (quotes, blanks, shell metacharacters), a shell splits the command into
  exactly the intended arguments: nothing is expanded and nothing is lost. The command does not
  depend on the order in which the header map is visited.
\<close>

theorem curl_command_roundtrip:
  "sh_words Between (CurlCommand_String (toCurl p req)) = Some (curl_args req)"
proof -
  have sorted: "sort (map fst (range_in p (hr_Header req))) = sort (map fst (hr_Header req))"
    by (rule properties_for_sort [symmetric]) simp_all
  have flags: "writes ''curl'' ''curl''" "writes ''-X'' ''-X''" "writes ''-d'' ''-d''" "writes ''-H'' ''-H''"
    by (simp_all add: writes_word plain_def)
  have headers: "list_all2 writes (concat (map (\<lambda>k. [''-H'', f k]) ks)) (concat (map (\<lambda>k. [''-H'', bashEscape (f k)]) ks))"
    for f :: "string \<Rightarrow> string" and ks
    using flags(4) by (induction ks) simp_all
  have "list_all2 writes (curl_args req) (toCurl p req)"
    unfolding curl_args_def toCurl_def sorted Let_def
    using flags by (auto intro!: list_all2_appendI headers split: option.splits)
  then show ?thesis
    unfolding CurlCommand_String_def by (rule sh_Join)
qed

end
