(* ===== verification/Identity.thy ===== *)
theory Identity
  imports GoPrelude
begin

text \<open>
  Identifiers: the errors of \<^verbatim>\<open>pkg/errors/errors.go\<close>, the UUIDs that name games, rooms and
  users with their textual form, the client information a token carries
  (\<^verbatim>\<open>tokentype.Info\<close>), and the storage key of a room
  (\<^verbatim>\<open>internal/utils/room_generator.go\<close>). The main fact is that room keys identify rooms:
  two games or rooms never share a key.
\<close>

section \<open>Errors\<close>

text \<open>
  The sentinel errors of the program, and \<open>ErrExternal\<close> for an error that a library function
  outside the repository returned, with its text.
\<close>

datatype error =
    ErrUserNotFound
  | ErrNewConnectionMastGetToken
  | ErrUserBadValue
  | ErrRoomNotFound
  | ErrRoomIsExists
  | ErrRoomBadValue
  | ErrTooManyRequests
  | ErrNotifyServerNotFound
  | ErrNotifyServerNotValid
  | ErrGameConfigMarshalUserData
  | ErrGameResultsNotFound
  | ErrExternal string

fun Error :: "error \<Rightarrow> string" where
  "Error ErrUserNotFound = ''user not found''"
| "Error ErrNewConnectionMastGetToken = ''new connection mast get new token''"
| "Error ErrUserBadValue = ''user bad value mast be reconnected''"
| "Error ErrRoomNotFound = ''room not found''"
| "Error ErrRoomIsExists = ''room is exists''"
| "Error ErrRoomBadValue = ''room bad value''"
| "Error ErrTooManyRequests = ''too many requests''"
| "Error ErrNotifyServerNotFound = ''err notify server not found''"
| "Error ErrNotifyServerNotValid = ''err notify server not valid''"
| "Error ErrGameConfigMarshalUserData = ''err game config marshal user data''"
| "Error ErrGameResultsNotFound = ''game results not found''"
| "Error (ErrExternal msg) = msg"

section \<open>UUIDs\<close>

text \<open>
  A UUID is sixteen bytes; it is kept as one 128-bit word, most significant byte first, so
  that Go's \<^verbatim>\<open>==\<close> on the array is equality of words and \<^verbatim>\<open>uuid.Nil\<close> is \<open>0\<close>. Its text is 32
  lower-case hexadecimal digits in groups of 8, 4, 4, 4 and 12.
\<close>

type_synonym uuid = "128 word"

definition hex_digits :: string where
  "hex_digits = ''0123456789abcdef''"

definition uuid_nibble :: "uuid \<Rightarrow> nat \<Rightarrow> nat" where
  "uuid_nibble u k = unat (take_bit 4 (drop_bit (4 * k) u))"

definition uuid_hex :: "uuid \<Rightarrow> string" where
  "uuid_hex u = map (\<lambda>k. hex_digits ! uuid_nibble u k) (rev [0..<32])"

definition uuid_String :: "uuid \<Rightarrow> string" where
  "uuid_String u = (let h = uuid_hex u in
     take 8 h @ ''-'' @ take 4 (drop 8 h) @ ''-'' @ take 4 (drop 12 h) @ ''-'' @
     take 4 (drop 16 h) @ ''-'' @ drop 20 h)"

section \<open>Client information and room keys\<close>

record Info =
  GameID :: uuid
  RoomID :: uuid
  UserID :: uuid
  TTL :: duration

definition GenerateRoomKey :: "Info \<Rightarrow> string" where
  "GenerateRoomKey info =
     ''game:'' @ uuid_String (GameID info) @ ''-room:'' @ uuid_String (RoomID info)"

definition GenerateNotifyServerKey :: string where
  "GenerateNotifyServerKey = ''notify_server''"

section \<open>Room keys identify rooms\<close>

lemma uuid_nibble_lt: "uuid_nibble u k < 16"
proof -
  have "take_bit 4 (unat (drop_bit (4 * k) u)) < (2 :: nat) ^ 4"
    by (rule take_bit_nat_less_exp)
  then show ?thesis
    by (simp add: uuid_nibble_def unsigned_take_bit_eq)
qed

lemma hex_digit_inject:
  "i < 16 \<Longrightarrow> j < 16 \<Longrightarrow> hex_digits ! i = hex_digits ! j \<longleftrightarrow> i = j"
  by (rule nth_eq_iff_index_eq) (simp_all add: hex_digits_def)

lemma length_uuid_hex [simp]: "length (uuid_hex u) = 32"
  by (simp add: uuid_hex_def)

lemma length_uuid_String [simp]: "length (uuid_String u) = 36"
  by (simp add: uuid_String_def Let_def)

lemma uuid_String_nonempty [simp]: "uuid_String u \<noteq> []"
  using length_uuid_String [of u] by (metis list.size(3) zero_neq_numeral)

lemma uuid_eqI:
  assumes "\<And>k. k < 32 \<Longrightarrow> uuid_nibble u k = uuid_nibble v k"
  shows "u = v"
proof (rule bit_word_eqI)
  fix n assume "n < LENGTH(128)"
  then have k: "n div 4 < 32" and n: "4 * (n div 4) + n mod 4 = n"
    by simp_all
  from assms [OF k] have "take_bit 4 (drop_bit (4 * (n div 4)) u) = take_bit 4 (drop_bit (4 * (n div 4)) v)"
    by (simp add: uuid_nibble_def word_unat_eq_iff)
  then have "bit (take_bit 4 (drop_bit (4 * (n div 4)) u)) (n mod 4) =
             bit (take_bit 4 (drop_bit (4 * (n div 4)) v)) (n mod 4)"
    by simp
  then show "bit u n = bit v n"
    by (simp add: bit_take_bit_iff bit_drop_bit_eq n)
qed

lemma uuid_hex_inject: "uuid_hex u = uuid_hex v \<longleftrightarrow> u = v"
proof
  assume eq: "uuid_hex u = uuid_hex v"
  show "u = v"
  proof (rule uuid_eqI)
    fix k :: nat assume "k < 32"
    with eq have "hex_digits ! uuid_nibble u k = hex_digits ! uuid_nibble v k"
      by (simp add: uuid_hex_def)
    then show "uuid_nibble u k = uuid_nibble v k"
      by (simp add: hex_digit_inject uuid_nibble_lt)
  qed
qed simp

definition ungroup :: "string \<Rightarrow> string" where
  "ungroup s = take 8 s @ take 4 (drop 9 s) @ take 4 (drop 14 s) @ take 4 (drop 19 s) @ drop 24 s"

lemma take_drop_4: "take 4 (drop n xs) @ drop (n + 4) xs = drop n xs"
  by (metis add.commute append_take_drop_id drop_drop)

lemma ungroup_uuid_String: "ungroup (uuid_String u) = uuid_hex u"
  using take_drop_4 [of 8 "uuid_hex u"] take_drop_4 [of 12 "uuid_hex u"]
    take_drop_4 [of 16 "uuid_hex u"]
  by (simp add: ungroup_def uuid_String_def Let_def)

lemma uuid_String_inject [simp]: "uuid_String u = uuid_String v \<longleftrightarrow> u = v"
  by (metis ungroup_uuid_String uuid_hex_inject)

text \<open>
  The key under which a room is stored determines the game and the room: two clients get
  the same key exactly when their tokens name the same game and the same room.
\<close>

theorem GenerateRoomKey_inject:
  "GenerateRoomKey a = GenerateRoomKey b \<longleftrightarrow> GameID a = GameID b \<and> RoomID a = RoomID b"
  by (auto simp: GenerateRoomKey_def)

end
