(* ===== verification/Rooms.thy ===== *)
theory Rooms
  imports Identity
begin

text \<open>
  Connections and rooms: \<^verbatim>\<open>internal/connection/udp.go\<close> (the identity of a client is the text of
  its UDP address) and \<^verbatim>\<open>pkg/api/types/room.go\<close> (the users of a room and the servers it is
  known to). The lists \<^verbatim>\<open>Users\<close> and \<^verbatim>\<open>ServerID\<close> are edited while a \<^verbatim>\<open>range\<close> loop walks the same
  backing array, so removal is modelled on the array itself, with the panic of a slice
  expression out of range. The room is shown to implement a finite map from user ids to
  users (locale \<open>membership\<close>).
\<close>

section \<open>Connections\<close>

text \<open>
  \<^verbatim>\<open>net.UDPAddr\<close>: the text of its IP (with zone) and its port; \<^verbatim>\<open>String\<close> joins them as
  \<^verbatim>\<open>net.JoinHostPort\<close> does, with brackets around a host that contains a colon.
\<close>

record UDPAddr =
  IPText :: string
  Port :: nat

definition UDPAddr_String :: "UDPAddr \<Rightarrow> string" where
  "UDPAddr_String a =
     (if CHR '':'' \<in> set (IPText a) then ''['' @ IPText a @ '']'' else IPText a) @
     '':'' @ Itoa (Port a)"

text \<open>
  The one implementation of \<^verbatim>\<open>connection.DataSender\<close>. Its field \<^verbatim>\<open>Conn\<close> is the server's only
  socket and is not repeated in every value.
\<close>

record UDPConnection =
  ClientAddr :: UDPAddr

definition GetID :: "UDPConnection \<Rightarrow> string" where
  "GetID u = UDPAddr_String (ClientAddr u)"

section \<open>Rooms\<close>

record User =
  u_ID :: uuid
  u_Connection :: UDPConnection

record Room =
  r_GameID :: uuid
  r_RoomID :: uuid
  r_ServerID :: "uuid list"
  r_Users :: "User list"
  r_UpdatedAt :: time

definition new_Room :: "uuid \<Rightarrow> uuid \<Rightarrow> Room" where
  "new_Room g r =
     \<lparr>r_GameID = g, r_RoomID = r, r_ServerID = [], r_Users = [], r_UpdatedAt = zero_time\<rparr>"

text \<open>
  \<^verbatim>\<open>setUser\<close> collects the users in a Go map from id to user, stores the new one over it, and
  reads the map back in the order \<open>p\<close> in which \<^verbatim>\<open>range\<close> visits it.
\<close>

fun unique_users :: "User list \<Rightarrow> (uuid \<times> User) list \<Rightarrow> (uuid \<times> User) list" where
  "unique_users [] m = m"
| "unique_users (u # us) m = unique_users us (AList.update (u_ID u) u m)"

definition setUser :: "(uuid \<times> User) range_order \<Rightarrow> User list \<Rightarrow> User \<Rightarrow> User list" where
  "setUser p users user =
     map snd (range_in p (AList.update (u_ID user) user (unique_users users [])))"

definition SetUser :: "(uuid \<times> User) range_order \<Rightarrow> User \<Rightarrow> Room \<Rightarrow> Room" where
  "SetUser p user r = r\<lparr>r_Users := setUser p (r_Users r) user\<rparr>"

definition GetUser :: "Room \<Rightarrow> User list" where
  "GetUser r = r_Users r"

definition SetUpdatedAt :: "time \<Rightarrow> Room \<Rightarrow> Room" where
  "SetUpdatedAt now r = r\<lparr>r_UpdatedAt := now\<rparr>"

text \<open>
  \<^verbatim>\<open>for i, x := range s { if P x { s = append(s[:i], s[i+1:]...) } }\<close>. The loop runs over the
  indices of the slice as it was at the start and reads the shared backing array \<open>arr\<close>;
  \<open>len\<close> is the length of \<^verbatim>\<open>s\<close> now. \<^verbatim>\<open>append\<close> moves the tail one place to the left inside the
  array (its capacity suffices), and \<^verbatim>\<open>s[i+1:]\<close> panics when \<open>i + 1\<close> exceeds \<open>len\<close>.
\<close>

definition shift_left :: "nat \<Rightarrow> nat \<Rightarrow> 'a list \<Rightarrow> 'a list" where
  "shift_left i len arr = take i arr @ take (len - Suc i) (drop (Suc i) arr) @ drop (len - 1) arr"

fun remove_loop :: "('a \<Rightarrow> bool) \<Rightarrow> nat list \<Rightarrow> 'a list \<Rightarrow> nat \<Rightarrow> 'a list option" where
  "remove_loop P [] arr len = Some (take len arr)"
| "remove_loop P (i # is) arr len =
     (if P (arr ! i)
      then if Suc i \<le> len then remove_loop P is (shift_left i len arr) (len - 1) else None
      else remove_loop P is arr len)"

definition range_remove :: "('a \<Rightarrow> bool) \<Rightarrow> 'a list \<Rightarrow> 'a list option" where
  "range_remove P xs = remove_loop P [0..<length xs] xs (length xs)"

definition removeFromArray :: "uuid \<Rightarrow> Room \<Rightarrow> Room option" where
  "removeFromArray userID r =
     map_option (\<lambda>us. r\<lparr>r_Users := us\<rparr>) (range_remove (\<lambda>u. u_ID u = userID) (r_Users r))"

definition RemoveUser_room :: "uuid \<Rightarrow> Room \<Rightarrow> Room option" where
  "RemoveUser_room user r = removeFromArray user r"

definition SetServerID :: "uuid \<Rightarrow> Room \<Rightarrow> Room" where
  "SetServerID sid r =
     (if sid \<in> set (r_ServerID r) then r else r\<lparr>r_ServerID := r_ServerID r @ [sid]\<rparr>)"

definition RemoveServerID :: "uuid \<Rightarrow> Room \<Rightarrow> Room option" where
  "RemoveServerID sid r =
     map_option (\<lambda>ss. r\<lparr>r_ServerID := ss\<rparr>) (range_remove (\<lambda>s. s = sid) (r_ServerID r))"

section \<open>Client identities\<close>

definition after_last_colon :: "string \<Rightarrow> string" where
  "after_last_colon s = rev (takeWhile (\<lambda>c. c \<noteq> CHR '':'') (rev s))"

lemma after_last_colon_append:
  "CHR '':'' \<notin> set t \<Longrightarrow> after_last_colon (s @ CHR '':'' # t) = t"
  by (simp add: after_last_colon_def) (subst takeWhile_append2, auto)

lemma after_last_colon_addr [simp]: "after_last_colon (UDPAddr_String a) = Itoa (Port a)"
  by (auto simp: UDPAddr_String_def
      after_last_colon_append [where s = "_ @ _" and t = "Itoa _", simplified]
      after_last_colon_append)

lemma hex_digits_no_colon: "i < 16 \<Longrightarrow> hex_digits ! i \<noteq> CHR '':''"
  using nth_mem [of i hex_digits] by (auto simp: hex_digits_def)

lemma uuid_hex_no_colon: "CHR '':'' \<notin> set (uuid_hex u)"
  using hex_digits_no_colon [OF uuid_nibble_lt] by (force simp: uuid_hex_def)

lemma uuid_String_no_colon: "CHR '':'' \<notin> set (uuid_String u)"
  using uuid_hex_no_colon [of u]
  by (auto simp: uuid_String_def Let_def dest: in_set_takeD in_set_dropD)

lemma uuid_String_dash: "CHR ''-'' \<in> set (uuid_String u)"
  by (simp add: uuid_String_def Let_def)

lemma after_last_colon_key [simp]: "after_last_colon (GenerateRoomKey i) = uuid_String (RoomID i)"
proof -
  have "GenerateRoomKey i =
    (''game:'' @ uuid_String (GameID i) @ ''-room'') @ CHR '':'' # uuid_String (RoomID i)"
    by (simp add: GenerateRoomKey_def)
  then show ?thesis
    by (simp only: after_last_colon_append [OF uuid_String_no_colon])
qed

lemma bracketed_host_neq:
  "CHR '':'' \<in> set h \<Longrightarrow> CHR '':'' \<notin> set h' \<Longrightarrow> (c # h @ t = h') = False \<and> (h' = c # h @ t) = False"
  by auto

lemma UDPAddr_String_inject [simp]: "UDPAddr_String a = UDPAddr_String b \<longleftrightarrow> a = b"
proof
  assume eq: "UDPAddr_String a = UDPAddr_String b"
  then have "Port a = Port b"
    by (metis Itoa_inject after_last_colon_addr)
  moreover from eq this have "IPText a = IPText b"
    by (auto simp: UDPAddr_String_def bracketed_host_neq split: if_splits)
  ultimately show "a = b"
    by simp
qed simp

text \<open>
  The storage keys of client sessions and of rooms never collide: the text of a client
  address is never a room key, and two client addresses with the same text are the same address.
\<close>

theorem session_keys_separate:
  "GetID d \<noteq> GenerateRoomKey i \<and> (GetID d = GetID e \<longleftrightarrow> d = e)"
proof
  show "GetID d \<noteq> GenerateRoomKey i"
    using uuid_String_dash [of "RoomID i"]
    by (metis GetID_def Itoa_no_dash after_last_colon_addr after_last_colon_key)
  show "GetID d = GetID e \<longleftrightarrow> d = e"
    by (cases d, cases e) (simp add: GetID_def)
qed

section \<open>Removal inside a range loop\<close>

lemma remove_loop_skip:
  "\<forall>i \<in> set is. \<not> P (arr ! i) \<Longrightarrow> remove_loop P (is @ js) arr len = remove_loop P js arr len"
  by (induction "is") auto

lemma remove_loop_none:
  "\<forall>i \<in> set is. \<not> P (arr ! i) \<Longrightarrow> remove_loop P is arr len = Some (take len arr)"
  by (induction "is") auto

lemma shift_left_split:
  "shift_left (length ys) (length (ys @ x # zs)) (ys @ x # zs) = ys @ zs @ [last (x # zs)]"
proof -
  have "drop (length (ys @ x # zs) - 1) (ys @ x # zs) = [last (ys @ x # zs)]"
    by (metis append_is_Nil_conv length_butlast append_butlast_last_id append_eq_conv_conj list.distinct(1))
  then show ?thesis
    by (simp add: shift_left_def)
qed

lemma range_remove_one:
  assumes "P x" and "\<forall>y \<in> set ys. \<not> P y" and "\<forall>z \<in> set zs. \<not> P z"
  shows "range_remove P (ys @ x # zs) = Some (ys @ zs)"
proof -
  let ?xs = "ys @ x # zs" and ?j = "length ys"
  let ?arr = "ys @ zs @ [last (x # zs)]"
  have idx: "[0..<length ?xs] = [0..<?j] @ ?j # [Suc ?j..<length ?xs]"
    using upt_add_eq_append [of 0 ?j "Suc (length zs)"] by (simp add: upt_conv_Cons del: upt_Suc)
  have len: "Suc ?j \<le> length ?xs" by simp
  have before: "\<forall>i \<in> set [0..<?j]. \<not> P (?xs ! i)"
    using assms(2) by (simp add: nth_append)
  have tail: "\<forall>i \<in> set [Suc ?j..<length ?xs]. \<not> P (?arr ! i)"
  proof
    fix i assume i: "i \<in> set [Suc ?j..<length ?xs]"
    then have "?arr ! i \<in> set zs"
      by (cases "zs = []") (auto simp: nth_append nth_Cons' not_less)
    with assms(3) show "\<not> P (?arr ! i)" by blast
  qed
  have "range_remove P ?xs = remove_loop P (?j # [Suc ?j..<length ?xs]) ?xs (length ?xs)"
    unfolding range_remove_def idx by (rule remove_loop_skip [OF before])
  also have "\<dots> = remove_loop P [Suc ?j..<length ?xs] ?arr (length ?xs - 1)"
    using assms(1) len by (simp only: remove_loop.simps nth_append_length if_True shift_left_split)
  also have "\<dots> = Some (take (length ?xs - 1) ?arr)"
    by (rule remove_loop_none [OF tail])
  finally show ?thesis by simp
qed

lemma range_remove_distinct:
  assumes "distinct (map f xs)"
  shows "range_remove (\<lambda>x. f x = k) xs = Some (filter (\<lambda>x. f x \<noteq> k) xs)"
proof (cases "\<exists>x \<in> set xs. f x = k")
  case True
  then obtain ys x zs where xs: "xs = ys @ x # zs" and x: "f x = k"
    by (metis split_list)
  have "\<forall>y \<in> set ys. f y \<noteq> k" and "\<forall>z \<in> set zs. f z \<noteq> k"
    using assms x unfolding xs by (auto simp: image_iff)
  with x show ?thesis
    by (simp add: xs range_remove_one)
next
  case False
  then have "\<forall>i \<in> set [0..<length xs]. f (xs ! i) \<noteq> k" by auto
  with False show ?thesis
    by (auto simp: range_remove_def remove_loop_none)
qed

section \<open>A room is a finite map from ids to users\<close>

definition room_members :: "Room \<Rightarrow> uuid \<rightharpoonup> User" where
  "room_members r = map_of (map (\<lambda>u. (u_ID u, u)) (r_Users r))"

definition room_ok :: "Room \<Rightarrow> bool" where
  "room_ok r \<longleftrightarrow> distinct (map u_ID (r_Users r)) \<and> distinct (r_ServerID r)"

lemma unique_users_keys:
  "\<forall>(k, u) \<in> set m. u_ID u = k \<Longrightarrow> \<forall>(k, u) \<in> set (unique_users us m). u_ID u = k"
proof (induction us arbitrary: m)
  case (Cons u us)
  then show ?case
    by (fastforce dest: in_set_update)
qed simp

lemma unique_users_distinct:
  "distinct (map fst m) \<Longrightarrow> distinct (map fst (unique_users us m))"
  by (induction us arbitrary: m) (simp_all add: distinct_update)

lemma map_of_unique_users:
  "distinct (map u_ID us) \<Longrightarrow>
   map_of (unique_users us m) = map_of m ++ map_of (map (\<lambda>u. (u_ID u, u)) us)"
proof (induction us arbitrary: m)
  case (Cons u us)
  then have "map_of (map (\<lambda>u. (u_ID u, u)) us) (u_ID u) = None"
    by (auto simp: map_of_eq_None_iff)
  with Cons show ?case
    by (auto simp: fun_eq_iff map_add_def split: option.splits)
qed simp

lemma map_snd_keyed: "\<forall>(k, u) \<in> set al. u_ID u = k \<Longrightarrow> map (\<lambda>(k, u). (u_ID u, u)) al = al"
  by (induction al) auto

lemma setUser_keyed:
  fixes users user
  defines "al \<equiv> AList.update (u_ID user) user (unique_users users [])"
  shows "map (\<lambda>u. (u_ID u, u)) (setUser p users user) = range_in p al"
    and "distinct (map fst al)"
proof -
  have "\<forall>(k, u) \<in> set al. u_ID u = k"
    using unique_users_keys [of "[]" users] by (auto simp: al_def dest!: in_set_update)
  then show "map (\<lambda>u. (u_ID u, u)) (setUser p users user) = range_in p al"
    using map_snd_keyed [of "range_in p al"]
    by (simp add: setUser_def al_def comp_def case_prod_unfold)
  show "distinct (map fst al)"
    by (simp add: al_def distinct_update unique_users_distinct)
qed

lemma setUser_distinct: "distinct (map u_ID (setUser p users user))"
proof -
  have "map u_ID (setUser p users user) = map fst (map (\<lambda>u. (u_ID u, u)) (setUser p users user))"
    by (simp add: comp_def)
  then show ?thesis
    by (simp add: setUser_keyed)
qed

lemma map_of_setUser:
  "distinct (map u_ID users) \<Longrightarrow>
   map_of (map (\<lambda>u. (u_ID u, u)) (setUser p users user)) =
     (map_of (map (\<lambda>u. (u_ID u, u)) users))(u_ID user \<mapsto> user)"
  unfolding setUser_keyed(1)
  by (subst map_of_eq_of_mset [OF mset_range_in])
    (simp_all add: setUser_keyed(2) map_of_unique_users)

lemma map_of_filter_id:
  "map_of (map (\<lambda>u. (f u, u)) (filter (\<lambda>u. f u \<noteq> k) us)) =
   (map_of (map (\<lambda>u. (f u, u)) us))(k := None)"
  by (induction us) (auto simp: fun_eq_iff)

lemma SetUser_ok: "room_ok r \<Longrightarrow> room_ok (SetUser p u r)"
  by (simp add: room_ok_def SetUser_def setUser_distinct)

lemma SetUser_members [abs_simps]:
  "room_ok r \<Longrightarrow> room_members (SetUser p u r) = (room_members r)(u_ID u \<mapsto> u)"
  by (simp add: room_members_def SetUser_def room_ok_def map_of_setUser)

lemma RemoveUser_room_eq:
  "room_ok r \<Longrightarrow>
   RemoveUser_room k r = Some (r\<lparr>r_Users := filter (\<lambda>u. u_ID u \<noteq> k) (r_Users r)\<rparr>)"
  by (simp add: RemoveUser_room_def removeFromArray_def room_ok_def range_remove_distinct)

lemma room_ok_filter [simp]:
  "room_ok r \<Longrightarrow> room_ok (r\<lparr>r_Users := filter P (r_Users r)\<rparr>)"
  by (simp add: room_ok_def distinct_map_filter)

text \<open>
  The interface: what a caller may rely on of a set of members with ids, whatever the order in
  which the implementation keeps them.
\<close>

datatype ('o, 'u) member_event = Joins 'o 'u | Leaves uuid

fun replay ::
    "('o \<Rightarrow> 'u \<Rightarrow> 'r \<Rightarrow> 'r) \<Rightarrow> (uuid \<Rightarrow> 'r \<Rightarrow> 'r option) \<Rightarrow> ('o, 'u) member_event list \<Rightarrow> 'r \<Rightarrow> 'r option" where
  "replay add remove [] r = Some r"
| "replay add remove (Joins p u # es) r = replay add remove es (add p u r)"
| "replay add remove (Leaves k # es) r =
     (case remove k r of None \<Rightarrow> None | Some r' \<Rightarrow> replay add remove es r')"

fun replay_map :: "('u \<Rightarrow> uuid) \<Rightarrow> ('o, 'u) member_event list \<Rightarrow> (uuid \<rightharpoonup> 'u) \<Rightarrow> (uuid \<rightharpoonup> 'u)" where
  "replay_map uid [] m = m"
| "replay_map uid (Joins p u # es) m = replay_map uid es (m(uid u \<mapsto> u))"
| "replay_map uid (Leaves k # es) m = replay_map uid es (m(k := None))"

locale membership =
  fixes uid :: "'u \<Rightarrow> uuid"
    and members :: "'r \<Rightarrow> uuid \<rightharpoonup> 'u"
    and invar :: "'r \<Rightarrow> bool"
    and add :: "'o \<Rightarrow> 'u \<Rightarrow> 'r \<Rightarrow> 'r"
    and remove :: "uuid \<Rightarrow> 'r \<Rightarrow> 'r option"
  assumes invar_add: "invar r \<Longrightarrow> invar (add p u r)"
    and members_add: "invar r \<Longrightarrow> members (add p u r) = (members r)(uid u \<mapsto> u)"
    and remove_total: "invar r \<Longrightarrow> \<exists>r'. remove k r = Some r' \<and> invar r' \<and> members r' = (members r)(k := None)"
begin

lemma replay_refines:
  "invar r \<Longrightarrow>
   \<exists>r'. replay add remove es r = Some r' \<and> invar r' \<and> members r' = replay_map uid es (members r)"
proof (induction es arbitrary: r)
  case Nil
  then show ?case by simp
next
  case (Cons e es)
  show ?case
  proof (cases e)
    case (Joins p u)
    then show ?thesis
      using Cons.IH [OF invar_add [OF Cons.prems, of p u]]
      by (simp add: members_add Cons.prems fun_upd_def)
  next
    case (Leaves k)
    obtain r' where "remove k r = Some r'" "invar r'" "members r' = (members r)(k := None)"
      using remove_total [OF Cons.prems] by blast
    then show ?thesis
      using Cons.IH [of r'] Leaves by (simp add: fun_upd_def)
  qed
qed

end

interpretation room: membership u_ID room_members room_ok SetUser RemoveUser_room
proof unfold_locales
  fix r k assume "room_ok r"
  then show "\<exists>r'. RemoveUser_room k r = Some r' \<and> room_ok r' \<and> room_members r' = (room_members r)(k := None)"
    by (simp add: RemoveUser_room_eq room_members_def map_of_filter_id)
qed (rule SetUser_ok SetUser_members; assumption)+

text \<open>
  C23: any sequence of joins and leaves on a room with distinct user ids runs without a panic,
  in whatever order Go's map iteration lists the users (each join has its own order), keeps the
  ids distinct, and leaves exactly the members that the same sequence leaves in a finite map
  from ids to users.
\<close>

theorem room_replay_refines_map:
  "room_ok r \<Longrightarrow>
   \<exists>r'. replay SetUser RemoveUser_room es r = Some r' \<and> room_ok r' \<and>
        room_members r' = replay_map u_ID es (room_members r)"
  by (rule room.replay_refines)

theorem room_replay_refines_map_witness:
  "let a = \<lparr>u_ID = 7, u_Connection = \<lparr>ClientAddr = \<lparr>IPText = ''10.0.0.1'', Port = 1\<rparr>\<rparr>\<rparr>;
       b = \<lparr>u_ID = 8, u_Connection = \<lparr>ClientAddr = \<lparr>IPText = ''10.0.0.1'', Port = 2\<rparr>\<rparr>\<rparr>
   in \<exists>r'. replay SetUser RemoveUser_room
              [Joins reversed_order a, Joins insertion_order b, Leaves 7, Joins reversed_order b] (new_Room 1 2) =
              Some r' \<and>
            room_members r' = [8 \<mapsto> b]"
  using room_replay_refines_map [of "new_Room 1 2"
      "[Joins reversed_order \<lparr>u_ID = 7, u_Connection = \<lparr>ClientAddr = \<lparr>IPText = ''10.0.0.1'', Port = 1\<rparr>\<rparr>\<rparr>,
        Joins insertion_order \<lparr>u_ID = 8, u_Connection = \<lparr>ClientAddr = \<lparr>IPText = ''10.0.0.1'', Port = 2\<rparr>\<rparr>\<rparr>,
        Leaves 7,
        Joins reversed_order \<lparr>u_ID = 8, u_Connection = \<lparr>ClientAddr = \<lparr>IPText = ''10.0.0.1'', Port = 2\<rparr>\<rparr>\<rparr>]"]
  by (auto simp: Let_def room_ok_def new_Room_def room_members_def fun_eq_iff)

lemma SetServerID_ok: "room_ok r \<Longrightarrow> room_ok (SetServerID sid r)"
  by (simp add: room_ok_def SetServerID_def)

text \<open>
  The distinct ids are what keeps removal safe: with the same value twice at the end of the
  slice the loop finds the stale copy behind the shortened slice and panics.
\<close>

lemma range_remove_duplicate_panics: "range_remove (\<lambda>x. x = a) [a, a] = None"
  by (simp add: range_remove_def shift_left_def upt_rec)

text \<open>
  Registering a server with a room and removing it again gives back the servers that were
  there, without a panic, and registering twice is the same as registering once.
\<close>

theorem server_id_roundtrip:
  "room_ok r \<Longrightarrow>
   SetServerID sid (SetServerID sid r) = SetServerID sid r \<and>
   RemoveServerID sid (SetServerID sid r) =
     Some (r\<lparr>r_ServerID := filter (\<lambda>s. s \<noteq> sid) (r_ServerID r)\<rparr>)"
  using SetServerID_ok [of r sid] range_remove_distinct [of "\<lambda>s. s" "r_ServerID (SetServerID sid r)" sid]
  by (auto simp: room_ok_def RemoveServerID_def SetServerID_def)

theorem server_id_roundtrip_witness:
  "RemoveServerID 5 (SetServerID 5 ((new_Room 1 2)\<lparr>r_ServerID := [3, 4]\<rparr>)) =
     Some ((new_Room 1 2)\<lparr>r_ServerID := [3, 4]\<rparr>)"
  using server_id_roundtrip [of "(new_Room 1 2)\<lparr>r_ServerID := [3, 4]\<rparr>" 5]
  by (simp add: room_ok_def new_Room_def)

end
