(* ===== verification/MemoryStore.thy ===== *)
theory MemoryStore
  imports GoPrelude
begin

text \<open>
  The in-memory database of \<^verbatim>\<open>internal/storage/memory_db.go\<close>: two tables of rows with the time
  of their last use (user data and connections), a counter beside each, and a sweep that drops
  the rows not used for \<^verbatim>\<open>dataTTL\<close> seconds. The tables are \<^verbatim>\<open>sync.Map\<close>s, modelled as association
  lists with distinct keys. The clock is an argument: \<open>now\<close> is what \<^verbatim>\<open>time.Now()\<close> returns during
  the operation. Values have any type \<open>'v\<close>, as Go's \<^verbatim>\<open>any\<close>.

  The interface \<^verbatim>\<open>IMemoryDB\<close> that the clients hold is a record of operations, and the locale
  \<open>memory_db\<close> states what they promise about the view \<open>look\<close> of the stored values.
\<close>

section \<open>Data and operations\<close>

record 'v rowType =
  row_value :: 'v
  usedAt :: time

record 'v userData =
  ud_storage :: "(string \<times> 'v rowType) list"
  ud_count :: go_int

record connections =
  co_storage :: "(string \<times> string rowType) list"
  co_count :: go_int

record 'v MemoryDb =
  userData :: "'v userData"
  connections :: connections
  dataTTL :: duration

definition NewMemoryDb :: "duration \<Rightarrow> 'v MemoryDb" where
  "NewMemoryDb ttl =
     \<lparr>userData = \<lparr>ud_storage = [], ud_count = 0\<rparr>,
      connections = \<lparr>co_storage = [], co_count = 0\<rparr>,
      dataTTL = ttl\<rparr>"

definition GetData :: "time \<Rightarrow> string \<Rightarrow> 'v MemoryDb \<Rightarrow> 'v option \<times> 'v MemoryDb" where
  "GetData now key db =
     (case map_of (ud_storage (userData db)) key of
        None \<Rightarrow> (None, db)
      | Some row \<Rightarrow>
          (Some (row_value row),
           db\<lparr>userData := (userData db)
             \<lparr>ud_storage := AList.update key (row\<lparr>usedAt := now\<rparr>) (ud_storage (userData db))\<rparr>\<rparr>))"

definition store_row :: "string \<Rightarrow> 'v rowType \<Rightarrow> 'v MemoryDb \<Rightarrow> 'v MemoryDb" where
  "store_row key row db =
     db\<lparr>userData := \<lparr>ud_storage = AList.update key row (ud_storage (userData db)),
                      ud_count = ud_count (userData db) + 1\<rparr>\<rparr>"

definition SetData :: "time \<Rightarrow> string \<Rightarrow> 'v \<Rightarrow> 'v MemoryDb \<Rightarrow> 'v MemoryDb" where
  "SetData now key v db = store_row key \<lparr>row_value = v, usedAt = now\<rparr> db"

definition SetDataWithTTL :: "time \<Rightarrow> string \<Rightarrow> 'v \<Rightarrow> duration \<Rightarrow> 'v MemoryDb \<Rightarrow> 'v MemoryDb" where
  "SetDataWithTTL now key v ttl db = store_row key \<lparr>row_value = v, usedAt = Add now ttl\<rparr> db"

definition AddConnection :: "time \<Rightarrow> string \<Rightarrow> 'v MemoryDb \<Rightarrow> 'v MemoryDb" where
  "AddConnection now i db =
     db\<lparr>connections :=
       \<lparr>co_storage = AList.update i \<lparr>row_value = i, usedAt = now\<rparr> (co_storage (connections db)),
        co_count = co_count (connections db) + 1\<rparr>\<rparr>"

definition CountConnection :: "'v MemoryDb \<Rightarrow> go_int" where
  "CountConnection db = co_count (connections db)"

definition GetAllConnection ::
    "(string \<times> string rowType) range_order \<Rightarrow> 'v MemoryDb \<Rightarrow> string list" where
  "GetAllConnection p db = map fst (range_in p (co_storage (connections db)))"

definition RemoveConnection :: "string \<Rightarrow> 'v MemoryDb \<Rightarrow> 'v MemoryDb" where
  "RemoveConnection i db =
     db\<lparr>connections :=
       \<lparr>co_storage = AList.delete i (co_storage (connections db)),
        co_count = co_count (connections db) - 1\<rparr>\<rparr>"

definition Remove :: "string \<Rightarrow> 'v MemoryDb \<Rightarrow> 'v MemoryDb" where
  "Remove key db =
     db\<lparr>userData := (userData db)\<lparr>ud_storage := AList.delete key (ud_storage (userData db))\<rparr>\<rparr>"

text \<open>
  \<^verbatim>\<open>removeOldData\<close>: rows last used before \<^verbatim>\<open>time.Now().Add(time.Second * -db.dataTTL)\<close> go, and
  the counter of their table goes down by one for each. The product is a 64-bit product.
\<close>

definition cutoff :: "time \<Rightarrow> duration \<Rightarrow> time" where
  "cutoff now ttl = Add now (Second * - ttl)"

definition expired :: "time \<Rightarrow> 'v rowType \<Rightarrow> bool" where
  "expired limit row \<longleftrightarrow> \<not> IsZero (usedAt row) \<and> Before (usedAt row) limit"

fun sweep :: "time \<Rightarrow> (string \<times> 'v rowType) list \<Rightarrow>
    (string \<times> 'v rowType) list \<times> go_int \<Rightarrow> (string \<times> 'v rowType) list \<times> go_int" where
  "sweep limit [] (al, n) = (al, n)"
| "sweep limit ((key, row) # rows) (al, n) =
     (if expired limit row then sweep limit rows (AList.delete key al, n - 1)
      else sweep limit rows (al, n))"

definition removeOldData ::
    "(string \<times> 'v rowType) range_order \<Rightarrow> (string \<times> string rowType) range_order \<Rightarrow>
     time \<Rightarrow> 'v MemoryDb \<Rightarrow> 'v MemoryDb" where
  "removeOldData p q now db =
     (let limit = cutoff now (dataTTL db);
          (us, m) = sweep limit (range_in p (ud_storage (userData db)))
                      (ud_storage (userData db), ud_count (userData db));
          (cs, n) = sweep limit (range_in q (co_storage (connections db)))
                      (co_storage (connections db), co_count (connections db))
      in db\<lparr>userData := \<lparr>ud_storage = us, ud_count = m\<rparr>,
            connections := \<lparr>co_storage = cs, co_count = n\<rparr>\<rparr>)"

text \<open>The interface \<^verbatim>\<open>IMemoryDB\<close> as the value a client holds, and its implementation.\<close>

record ('db, 'v) IMemoryDB =
  iGetData :: "time \<Rightarrow> string \<Rightarrow> 'db \<Rightarrow> 'v option \<times> 'db"
  iSetData :: "time \<Rightarrow> string \<Rightarrow> 'v \<Rightarrow> 'db \<Rightarrow> 'db"
  iSetDataWithTTL :: "time \<Rightarrow> string \<Rightarrow> 'v \<Rightarrow> duration \<Rightarrow> 'db \<Rightarrow> 'db"
  iRemove :: "string \<Rightarrow> 'db \<Rightarrow> 'db"
  iAddConnection :: "time \<Rightarrow> string \<Rightarrow> 'db \<Rightarrow> 'db"
  iRemoveConnection :: "string \<Rightarrow> 'db \<Rightarrow> 'db"
  iGetAllConnection :: "(string \<times> string rowType) range_order \<Rightarrow> 'db \<Rightarrow> string list"
  iCountConnection :: "'db \<Rightarrow> go_int"

definition MemoryDb_ops :: "('v MemoryDb, 'v) IMemoryDB" where
  "MemoryDb_ops =
     \<lparr>iGetData = GetData, iSetData = SetData, iSetDataWithTTL = SetDataWithTTL, iRemove = Remove,
      iAddConnection = AddConnection, iRemoveConnection = RemoveConnection,
      iGetAllConnection = GetAllConnection, iCountConnection = CountConnection\<rparr>"

section \<open>The stored values\<close>

definition look :: "'v MemoryDb \<Rightarrow> string \<rightharpoonup> 'v" where
  "look db k = map_option row_value (map_of (ud_storage (userData db)) k)"

definition last_used :: "'v MemoryDb \<Rightarrow> string \<rightharpoonup> time" where
  "last_used db k = map_option usedAt (map_of (ud_storage (userData db)) k)"

definition db_ok :: "'v MemoryDb \<Rightarrow> bool" where
  "db_ok db \<longleftrightarrow> distinct (map fst (ud_storage (userData db))) \<and>
               distinct (map fst (co_storage (connections db)))"

lemmas db_op_defs = GetData_def SetData_def SetDataWithTTL_def store_row_def AddConnection_def
  RemoveConnection_def Remove_def CountConnection_def

lemma look_NewMemoryDb [simp]: "look (NewMemoryDb ttl) = Map.empty"
  by (simp add: look_def NewMemoryDb_def fun_eq_iff)

lemma GetData_value [simp]: "fst (GetData now k db) = look db k"
  by (simp add: GetData_def look_def split: option.splits)

lemma GetData_look [simp]: "look (snd (GetData now k db)) = look db"
  by (auto simp: GetData_def look_def fun_eq_iff split: option.splits)

lemma SetData_look [simp]: "look (SetData now k v db) = (look db)(k \<mapsto> v)"
  by (auto simp: db_op_defs look_def fun_eq_iff)

lemma SetDataWithTTL_look [simp]: "look (SetDataWithTTL now k v ttl db) = (look db)(k \<mapsto> v)"
  by (auto simp: db_op_defs look_def fun_eq_iff)

lemma Remove_look [simp]: "look (Remove k db) = (look db)(k := None)"
  by (auto simp: db_op_defs look_def fun_eq_iff)

lemma AddConnection_look [simp]: "look (AddConnection now i db) = look db"
  by (simp add: db_op_defs look_def fun_eq_iff)

lemma RemoveConnection_look [simp]: "look (RemoveConnection i db) = look db"
  by (simp add: db_op_defs look_def fun_eq_iff)

lemma db_ok_NewMemoryDb [simp]: "db_ok (NewMemoryDb ttl)"
  by (simp add: db_ok_def NewMemoryDb_def)

lemma db_ok_ops [simp]:
  "db_ok db \<Longrightarrow> db_ok (snd (GetData now k db))"
  "db_ok db \<Longrightarrow> db_ok (SetData now k v db)"
  "db_ok db \<Longrightarrow> db_ok (SetDataWithTTL now k v ttl db)"
  "db_ok db \<Longrightarrow> db_ok (Remove k db)"
  "db_ok db \<Longrightarrow> db_ok (AddConnection now i db)"
  "db_ok db \<Longrightarrow> db_ok (RemoveConnection i db)"
  by (auto simp: db_op_defs db_ok_def distinct_update distinct_delete split: option.splits)

lemma dataTTL_ops [simp]:
  "dataTTL (snd (GetData now k db)) = dataTTL db"
  "dataTTL (SetData now k v db) = dataTTL db"
  "dataTTL (SetDataWithTTL now k v ttl db) = dataTTL db"
  "dataTTL (AddConnection now i db) = dataTTL db"
  "dataTTL (NewMemoryDb ttl) = ttl"
  by (auto simp: db_op_defs NewMemoryDb_def split: option.splits)

lemma connections_ops [simp]:
  "connections (snd (GetData now k db)) = connections db"
  "connections (SetData now k v db) = connections db"
  "connections (SetDataWithTTL now k v ttl db) = connections db"
  by (auto simp: db_op_defs split: option.splits)

lemma CountConnection_ops [simp]:
  "CountConnection (snd (GetData now k db)) = CountConnection db"
  "CountConnection (SetData now k v db) = CountConnection db"
  "CountConnection (SetDataWithTTL now k v ttl db) = CountConnection db"
  "CountConnection (AddConnection now i db) = CountConnection db + 1"
  by (simp_all add: CountConnection_def AddConnection_def)

section \<open>The interface\<close>

text \<open>
  What a client of \<^verbatim>\<open>IMemoryDB\<close> relies on: reading returns the stored value and changes no
  value, writing replaces one value, and the connection counter moves only with connections.
\<close>

locale memory_db =
  fixes ops :: "('db, 'v) IMemoryDB"
    and view :: "'db \<Rightarrow> string \<rightharpoonup> 'v"
    and invar :: "'db \<Rightarrow> bool"
  assumes get_value: "fst (iGetData ops now k db) = view db k"
    and get_view: "view (snd (iGetData ops now k db)) = view db"
    and set_view: "view (iSetData ops now k v db) = (view db)(k \<mapsto> v)"
    and set_ttl_view: "view (iSetDataWithTTL ops now k v ttl db) = (view db)(k \<mapsto> v)"
    and add_view: "view (iAddConnection ops now i db) = view db"
    and count_get: "iCountConnection ops (snd (iGetData ops now k db)) = iCountConnection ops db"
    and count_set: "iCountConnection ops (iSetData ops now k v db) = iCountConnection ops db"
    and count_set_ttl: "iCountConnection ops (iSetDataWithTTL ops now k v ttl db) = iCountConnection ops db"
    and count_add: "iCountConnection ops (iAddConnection ops now i db) = iCountConnection ops db + 1"
    and invar_get: "invar db \<Longrightarrow> invar (snd (iGetData ops now k db))"
    and invar_set: "invar db \<Longrightarrow> invar (iSetData ops now k v db)"
    and invar_set_ttl: "invar db \<Longrightarrow> invar (iSetDataWithTTL ops now k v ttl db)"
    and invar_add: "invar db \<Longrightarrow> invar (iAddConnection ops now i db)"
begin

lemmas laws = get_value get_view set_view set_ttl_view add_view
  count_get count_set count_set_ttl count_add invar_get invar_set invar_set_ttl invar_add

lemma get_cases:
  obtains v db' where "iGetData ops now k db = (Some v, db')" "view db k = Some v" "view db' = view db"
  | db' where "iGetData ops now k db = (None, db')" "view db k = None" "view db' = view db"
  using get_value [of now k db] get_view [of now k db]
  by (cases "iGetData ops now k db"; cases "fst (iGetData ops now k db)") auto

end

interpretation mdb: memory_db MemoryDb_ops look db_ok
  by unfold_locales
    (simp_all add: MemoryDb_ops_def del: fun_upd_apply)

section \<open>The sweep\<close>

definition expired_keys :: "time \<Rightarrow> (string \<times> 'v rowType) list \<Rightarrow> string set" where
  "expired_keys limit rows = fst ` {(k, row) \<in> set rows. expired limit row}"

lemma sweep_eq:
  "sweep limit rows (al, n) =
     (filter (\<lambda>(k, row). k \<notin> expired_keys limit rows) al,
      n - of_nat (length (filter (\<lambda>(k, row). expired limit row) rows)))"
proof (induction limit rows "(al, n)" arbitrary: al n rule: sweep.induct)
  case (1 limit al n)
  then show ?case by (simp add: expired_keys_def case_prod_unfold)
next
  case (2 limit key row rows al n)
  have keys: "expired_keys limit ((key, row) # rows) =
      (if expired limit row then {key} else {}) \<union> expired_keys limit rows"
    by (auto simp: expired_keys_def image_iff)
  have comm: "(\<lambda>x :: string \<times> 'a rowType. key \<noteq> fst x \<and> P x) = (\<lambda>x. fst x \<noteq> key \<and> P x)" for P
    by auto
  show ?case
    using 2 by (auto simp: keys AList.delete_eq comm case_prod_unfold algebra_simps)
qed

lemma expired_keys_iff:
  assumes "distinct (map fst al)" and "(k, row) \<in> set al"
  shows "k \<in> expired_keys limit (range_in p al) \<longleftrightarrow> expired limit row"
  using assms by (auto simp: expired_keys_def image_iff dest: eq_key_imp_eq_value)

lemma sweep_table:
  assumes "distinct (map fst al)"
  shows "sweep limit (range_in p al) (al, n) =
     (filter (\<lambda>(k, row). \<not> expired limit row) al,
      n - of_nat (length (filter (\<lambda>(k, row). expired limit row) al)))"
proof -
  have "filter (\<lambda>(k, row). k \<notin> expired_keys limit (range_in p al)) al =
        filter (\<lambda>(k, row). \<not> expired limit row) al"
    by (rule filter_cong) (auto simp: expired_keys_iff [OF assms])
  moreover have "length (filter P (range_in p al)) = length (filter P al)" for P
    by (metis mset_filter mset_range_in size_mset)
  ultimately show ?thesis
    by (simp add: sweep_eq)
qed

lemma removeOldData_tables:
  assumes "db_ok db"
  shows "removeOldData p q now db =
    (let keep = (\<lambda>row. \<not> expired (cutoff now (dataTTL db)) row);
         keep' = (\<lambda>row. \<not> expired (cutoff now (dataTTL db)) row);
         us = ud_storage (userData db); cs = co_storage (connections db)
     in db\<lparr>userData := \<lparr>ud_storage = filter (\<lambda>(k, row). keep row) us,
                         ud_count = ud_count (userData db)
                           - of_nat (length (filter (\<lambda>(k, row). \<not> keep row) us))\<rparr>,
           connections := \<lparr>co_storage = filter (\<lambda>(k, row). keep' row) cs,
                         co_count = co_count (connections db)
                           - of_nat (length (filter (\<lambda>(k, row). \<not> keep' row) cs))\<rparr>\<rparr>)"
  using assms by (simp add: removeOldData_def sweep_table db_ok_def Let_def)

lemma removeOldData_ok [simp]: "db_ok db \<Longrightarrow> db_ok (removeOldData p q now db)"
  by (simp add: removeOldData_tables Let_def db_ok_def distinct_map_filter)

lemma removeOldData_TTL [simp]: "dataTTL (removeOldData p q now db) = dataTTL db"
  by (simp add: removeOldData_def Let_def split: prod.splits)

lemma removeOldData_row:
  assumes "db_ok db"
  shows "map_of (ud_storage (userData (removeOldData p q now db))) k =
    (case map_of (ud_storage (userData db)) k of None \<Rightarrow> None
     | Some row \<Rightarrow> if expired (cutoff now (dataTTL db)) row then None else Some row)"
  using assms
  by (auto simp: removeOldData_tables Let_def db_ok_def map_of_filter_distinct split: option.splits)

text \<open>A sweep never invents or changes a value: what is there afterwards was there before.\<close>

lemma removeOldData_look:
  "db_ok db \<Longrightarrow> look (removeOldData p q now db) \<subseteq>\<^sub>m look db"
  by (auto simp: look_def map_le_def removeOldData_row split: option.splits if_splits)

section \<open>Expiry\<close>

lemma cutoff_eq:
  assumes "0 \<le> sint ttl" and "sint ttl \<le> 9223372036"
  shows "cutoff now ttl = now - 1000000000 * sint ttl"
proof -
  have "sint (Second * - ttl) = - (sint Second * sint ttl)"
    by (rule sint_mult_minus64) (use assms in \<open>simp_all add: Second_def\<close>)
  then show ?thesis
    by (simp add: cutoff_def Add_def Second_def)
qed

lemma look_after_sweep:
  assumes "db_ok db" and "0 \<le> sint (dataTTL db)" and "sint (dataTTL db) \<le> 9223372036"
    and "look db k = Some v" and "last_used db k = Some t" and "0 < t"
  shows "look (removeOldData p q now db) k =
    (if now \<le> t + 1000000000 * sint (dataTTL db) then Some v else None)"
  using assms
  by (auto simp: look_def last_used_def removeOldData_row expired_def cutoff_eq go_defs)

lemma last_used_ops [simp]:
  "look db k = Some v \<Longrightarrow> last_used (snd (GetData now k db)) k = Some now"
  "last_used (SetData now k v db) k = Some now"
  "last_used (SetDataWithTTL now k v ttl db) k = Some (Add now ttl)"
  by (auto simp: last_used_def look_def db_op_defs)

text \<open>
  C18: the sweep is exact. It removes from each table the rows last used before the cutoff and no
  others, whatever the order in which the tables are visited, lowers each counter by the number
  of rows it removed, and keeps the keys distinct.
\<close>

theorem removeOldData_exact:
  assumes "db_ok db"
  shows "let limit = cutoff now (dataTTL db); db' = removeOldData p q now db in
    ud_storage (userData db') = filter (\<lambda>(k, row). \<not> expired limit row) (ud_storage (userData db)) \<and>
    ud_count (userData db') + of_nat (length (ud_storage (userData db)) - length (ud_storage (userData db'))) =
      ud_count (userData db) \<and>
    co_storage (connections db') = filter (\<lambda>(k, row). \<not> expired limit row) (co_storage (connections db)) \<and>
    co_count (connections db') + of_nat (length (co_storage (connections db)) - length (co_storage (connections db'))) =
      co_count (connections db) \<and>
    db_ok db'"
proof -
  have len: "length xs - length (filter (\<lambda>(k, row). \<not> P row) xs) = length (filter (\<lambda>(k, row). P row) xs)"
    for P and xs :: "(string \<times> 'c rowType) list"
    using sum_length_filter_compl [of "\<lambda>(k, row). P row" xs] by (simp add: case_prod_unfold)
  show ?thesis
    using assms removeOldData_ok [OF assms, of p q now]
    by (simp add: removeOldData_tables Let_def len)
qed

theorem removeOldData_exact_witness:
  "let db = AddConnection 5 ''t'' (SetData 90000000000 ''b'' True (SetData 7 ''a'' False (NewMemoryDb 10)));
       db' = removeOldData reversed_order insertion_order 90000000000 db
   in map fst (ud_storage (userData db')) = [''b''] \<and> ud_count (userData db') = 1 \<and>
      co_storage (connections db') = [] \<and> co_count (connections db') = 0 \<and> db_ok db'"
proof -
  let ?db = "AddConnection 5 ''t'' (SetData 90000000000 ''b'' True (SetData 7 ''a'' False (NewMemoryDb 10)))"
  have "db_ok ?db" by simp
  from removeOldData_exact [OF this, of 90000000000 reversed_order insertion_order] show ?thesis
    by (auto simp: Let_def db_op_defs NewMemoryDb_def expired_def cutoff_def go_defs)
qed

text \<open>
  Sliding expiry. A value written or read at time \<open>t\<close> is still there after a sweep at
  \<open>now\<close> when at most \<^verbatim>\<open>dataTTL\<close> seconds have passed, and gone when more have passed.
\<close>

theorem sliding_expiry:
  assumes "db_ok db" and "0 \<le> sint (dataTTL db)" and "sint (dataTTL db) \<le> 9223372036" and "0 < t"
  shows "let alive = (now \<le> t + 1000000000 * sint (dataTTL db)) in
    look (removeOldData p q now (SetData t k v db)) k = (if alive then Some v else None) \<and>
    (look db k = Some w \<longrightarrow>
       look (removeOldData p q now (snd (GetData t k db))) k = (if alive then Some w else None))"
  using assms look_after_sweep [of "SetData t k v db" k v t p q now]
    look_after_sweep [of "snd (GetData t k db)" k w t p q now]
  by (auto simp: Let_def)

theorem sliding_expiry_witness:
  "let db = SetData 1 ''k'' False (NewMemoryDb 10)
   in look (removeOldData insertion_order reversed_order 11000000000 (SetData 1000000000 ''k'' True db)) ''k'' = Some True \<and>
      look (removeOldData insertion_order reversed_order 11000000001 (snd (GetData 1000000000 ''k'' db))) ''k'' = None"
proof -
  let ?db = "SetData 1 ''k'' False (NewMemoryDb 10) :: bool MemoryDb"
  have "db_ok ?db" "0 \<le> sint (dataTTL ?db)" "sint (dataTTL ?db) \<le> 9223372036" "(0 :: int) < 1000000000"
    by simp_all
  note E = sliding_expiry [OF this]
  from E [where p = insertion_order and q = reversed_order and now = 11000000000 and k = "''k''" and v = True]
    E [where p = insertion_order and q = reversed_order and now = 11000000001 and k = "''k''" and w = False]
  show ?thesis by (simp add: Let_def)
qed

text \<open>
  C19: the range of \<^verbatim>\<open>dataTTL\<close>. It has the type \<^verbatim>\<open>time.Duration\<close> but is read as a number of seconds: the sweep multiplies
  it by \<^verbatim>\<open>time.Second\<close> in 64 bits. The cutoff is that many seconds before \<open>now\<close> exactly when the number is at
  most 9223372036; with ten seconds written the usual way, \<^verbatim>\<open>10 * time.Second\<close>, the product wraps, the cutoff lies
  268 years ahead, and a sweep removes every row, even one used at the very moment of the sweep.
\<close>

theorem data_ttl_range:
  "(cutoff now ttl = now - 1000000000 * sint ttl \<longleftrightarrow> \<bar>sint ttl\<bar> \<le> 9223372036) \<and>
   (db_ok db \<and> dataTTL db = 10 * Second \<and> last_used db k = Some t \<and> 0 < t \<and> t \<le> now \<longrightarrow>
      look (removeOldData p q now db) k = None)"
proof -
  have eq: "Second * - ttl = word_of_int (- (1000000000 * sint ttl))" by (simp add: Second_def)
  have "sint (Second * - ttl) = - (1000000000 * sint ttl) \<longleftrightarrow> \<bar>sint ttl\<bar> \<le> 9223372036"
  proof
    assume "sint (Second * - ttl) = - (1000000000 * sint ttl)"
    then show "\<bar>sint ttl\<bar> \<le> 9223372036" using sint64_bounds [of "Second * - ttl"] by auto
  next
    assume "\<bar>sint ttl\<bar> \<le> 9223372036"
    then show "sint (Second * - ttl) = - (1000000000 * sint ttl)"
      unfolding eq by (intro sint_of_int64) auto
  qed
  moreover have "cutoff now (10 * Second) = now + 8446744073709551616"
    by (simp add: cutoff_def Add_def Second_def)
  ultimately show ?thesis
    by (auto simp: cutoff_def Add_def look_def last_used_def removeOldData_row expired_def go_defs [unfolded Second_def] split: option.splits)
qed

theorem data_ttl_range_witness:
  "look (removeOldData insertion_order insertion_order 5 (SetData 5 ''k'' True (NewMemoryDb (10 * Second)))) ''k'' = None"
  using data_ttl_range [of 5 0 "SetData 5 ''k'' True (NewMemoryDb (10 * Second))" "''k''" 5 insertion_order insertion_order] by simp

text \<open>
  The time to live given to \<^verbatim>\<open>SetDataWithTTL\<close> lasts until the first read only. After a
  \<^verbatim>\<open>GetData\<close> at time \<open>t'\<close> the row lives \<^verbatim>\<open>dataTTL\<close> seconds from \<open>t'\<close>, whatever \<open>ttl\<close> was; without
  a read it lives \<^verbatim>\<open>dataTTL\<close> seconds from \<open>t + ttl\<close>.
\<close>

theorem ttl_lost_on_read:
  assumes "db_ok db" and "0 \<le> sint (dataTTL db)" and "sint (dataTTL db) \<le> 9223372036"
    and "0 < t + sint ttl" and "0 < t'"
  shows "let db1 = SetDataWithTTL t k v ttl db in
    look (removeOldData p q now db1) k =
      (if now \<le> t + sint ttl + 1000000000 * sint (dataTTL db) then Some v else None) \<and>
    look (removeOldData p q now (snd (GetData t' k db1))) k =
      (if now \<le> t' + 1000000000 * sint (dataTTL db) then Some v else None)"
  using assms look_after_sweep [of "SetDataWithTTL t k v ttl db" k v "t + sint ttl" p q now]
    look_after_sweep [of "snd (GetData t' k (SetDataWithTTL t k v ttl db))" k v t' p q now]
  by (auto simp: Add_def Let_def)

theorem ttl_lost_on_read_witness:
  "let db1 = SetDataWithTTL 1000000000 ''room'' True 3600000000000 (NewMemoryDb 10);
       now = 20000000000
   in look (removeOldData insertion_order insertion_order now db1) ''room'' = Some True \<and>
      look (removeOldData insertion_order insertion_order now (snd (GetData 2000000000 ''room'' db1))) ''room'' = None"
proof -
  let ?db = "NewMemoryDb 10 :: bool MemoryDb"
  have "db_ok ?db" "0 \<le> sint (dataTTL ?db)" "sint (dataTTL ?db) \<le> 9223372036"
    "0 < (1000000000 :: int) + sint (3600000000000 :: duration)" "(0 :: int) < 2000000000"
    by simp_all
  from ttl_lost_on_read [OF this, where p = insertion_order and q = insertion_order
      and now = 20000000000 and k = "''room''" and v = True]
  show ?thesis by (simp add: Let_def)
qed

section \<open>The connection counter\<close>

definition conn_rows_at :: "time \<Rightarrow> 'v MemoryDb \<Rightarrow> bool" where
  "conn_rows_at t db \<longleftrightarrow> (\<forall>(k, row) \<in> set (co_storage (connections db)). usedAt row = t)"

lemma fold_AddConnection:
  "db_ok db \<Longrightarrow> conn_rows_at t db \<Longrightarrow>
   (let db' = fold (AddConnection t) ids db in
      db_ok db' \<and> conn_rows_at t db' \<and> dataTTL db' = dataTTL db \<and>
      CountConnection db' = CountConnection db + of_nat (length ids) \<and>
      fst ` set (co_storage (connections db')) = fst ` set (co_storage (connections db)) \<union> set ids)"
proof (induction ids arbitrary: db)
  case Nil
  then show ?case by (simp add: Let_def)
next
  case (Cons i ids)
  have "conn_rows_at t (AddConnection t i db)"
    using Cons.prems(2) by (auto simp: conn_rows_at_def AddConnection_def dest!: in_set_update)
  moreover have "fst ` set (co_storage (connections (AddConnection t i db))) =
      insert i (fst ` set (co_storage (connections db)))"
    by (simp add: AddConnection_def dom_update flip: dom_map_of_conv_image_fst)
  ultimately show ?case
    using Cons.IH [of "AddConnection t i db"] Cons.prems(1) by (simp add: Let_def)
qed

lemma expired_conn_rows:
  assumes "conn_rows_at t db" and "0 < t" and "t < limit"
  shows "filter (\<lambda>(k, row). expired limit row) (co_storage (connections db)) = co_storage (connections db)"
  using assms by (auto simp: conn_rows_at_def expired_def go_defs intro!: filter_True)

lemma sweep_all_conn_rows:
  assumes "db_ok db" and "conn_rows_at t db" and "0 < t" and "t < cutoff now (dataTTL db)"
  shows "co_storage (connections (removeOldData p q now db)) = [] \<and>
    CountConnection (removeOldData p q now db) =
      CountConnection db - of_nat (length (co_storage (connections db)))"
proof -
  have "filter (\<lambda>(k, row). \<not> expired (cutoff now (dataTTL db)) row) (co_storage (connections db)) = []"
    using assms by (auto simp: filter_empty_conv conn_rows_at_def expired_def go_defs)
  then show ?thesis
    using expired_conn_rows [OF assms(2-4)] assms(1)
    by (simp add: removeOldData_tables Let_def CountConnection_def)
qed

text \<open>
  The connection counter drifts. \<^verbatim>\<open>AddConnection\<close> counts every call but the sweep counts rows:
  when \<open>ids\<close> were added and all of them have expired, no connection is left and the counter
  stands at the number of repeated additions instead of zero.
\<close>

theorem connection_count_drift:
  assumes "0 < t" and "0 \<le> sint ttl" and "sint ttl \<le> 9223372036"
    and "t + 1000000000 * sint ttl < now"
  shows "let db = removeOldData p q now (fold (AddConnection t) ids (NewMemoryDb ttl)) in
    GetAllConnection r db = [] \<and>
    CountConnection db = of_nat (length ids - card (set ids))"
proof -
  let ?new = "NewMemoryDb ttl :: 'a MemoryDb"
  let ?db = "fold (AddConnection t) ids ?new"
  have init: "conn_rows_at t ?new" "CountConnection ?new = 0" "co_storage (connections ?new) = []"
    by (simp_all add: conn_rows_at_def CountConnection_def NewMemoryDb_def)
  note F = fold_AddConnection [OF db_ok_NewMemoryDb init(1), of ids]
  then have keys: "fst ` set (co_storage (connections ?db)) = set ids"
    and cnt: "CountConnection ?db = of_nat (length ids)" and ttl: "dataTTL ?db = ttl"
    and ok: "db_ok ?db" and rows: "conn_rows_at t ?db"
    by (simp_all add: Let_def init)
  have "length (co_storage (connections ?db)) = card (set ids)"
    using ok keys by (metis db_ok_def distinct_card length_map list.set_map)
  moreover have "t < cutoff now (dataTTL ?db)"
    using assms by (simp add: ttl cutoff_eq)
  moreover have "card (set ids) \<le> length ids"
    by (rule card_length)
  ultimately show ?thesis
    using sweep_all_conn_rows [OF ok rows assms(1), where p = p and q = q and now = now]
    by (simp add: Let_def GetAllConnection_def cnt)
qed

theorem connection_count_drift_witness:
  "let db = removeOldData insertion_order reversed_order 12000000000
              (fold (AddConnection 1000000000) [''tok'', ''tok'', ''tok''] (NewMemoryDb 10 :: bool MemoryDb)) in
   GetAllConnection insertion_order db = [] \<and> CountConnection db = 2"
proof -
  have "(0 :: int) < 1000000000" "0 \<le> sint (10 :: duration)" "sint (10 :: duration) \<le> 9223372036"
    "(1000000000 :: int) + 1000000000 * sint (10 :: duration) < 12000000000"
    by simp_all
  from connection_count_drift [OF this, where ids = "[''tok'', ''tok'', ''tok'']"
      and p = "insertion_order :: (string \<times> bool rowType) range_order"
      and q = reversed_order and r = insertion_order]
  show ?thesis by (simp add: Let_def)
qed

end
