(* ===== verification/RateLimiter.thy ===== *)
theory RateLimiter
  imports Identity MemoryStore
begin

text \<open>
  The values the server stores (Go's \<^verbatim>\<open>any\<close>) and the rate limiter of
  \<^verbatim>\<open>internal/utils/rate_limit.go\<close>, a client of the \<^verbatim>\<open>IMemoryDB\<close> interface. Its lemmas are proved
  once inside the locale \<open>memory_db\<close> and hold for every implementation of the interface.
\<close>

section \<open>Stored values\<close>

record RateLimitRow =
  Count :: go_int
  LastRequest :: time

text \<open>
  The dynamic types of the values under \<^verbatim>\<open>any\<close>: client information, a pointer to a room (an
  index into the heap of rooms), and a row of the rate limiter. A type assertion
  \<^verbatim>\<open>v, ok := data.(T)\<close> is a case distinction on the constructor.
\<close>

datatype any = AnyInfo Info | AnyRoom nat | AnyRateLimitRow RateLimitRow

section \<open>The limiter\<close>

definition getCountAndTime ::
    "('db, any) IMemoryDB \<Rightarrow> time \<Rightarrow> string \<Rightarrow> 'db \<Rightarrow> (go_int \<times> time) \<times> 'db" where
  "getCountAndTime ops now i db =
     (case iGetData ops now i db of
        (None, db') \<Rightarrow> ((0, zero_time), db')
      | (Some (AnyRateLimitRow row), db') \<Rightarrow> ((Count row, LastRequest row), db')
      | (Some _, db') \<Rightarrow> ((0, zero_time), db'))"

definition setCountAndTime ::
    "('db, any) IMemoryDB \<Rightarrow> time \<Rightarrow> string \<Rightarrow> go_int \<Rightarrow> time \<Rightarrow> 'db \<Rightarrow> 'db" where
  "setCountAndTime ops now i cnt lastRequest db =
     iSetData ops now i (AnyRateLimitRow \<lparr>Count = cnt, LastRequest = lastRequest\<rparr>) db"

text \<open>
  \<^verbatim>\<open>IsLimited\<close>. The deferred call \<^verbatim>\<open>defer r.setCountAndTime(id, count, lastRequest)\<close> evaluates its
  arguments when the \<^verbatim>\<open>defer\<close> statement runs, so the row that is written back holds the values
  that were read: the assignments to \<^verbatim>\<open>count\<close> and \<^verbatim>\<open>lastRequest\<close> below it are local. They are kept
  as the second component, which the deferred call does not use.
\<close>

definition IsLimited ::
    "('db, any) IMemoryDB \<Rightarrow> go_int \<Rightarrow> time \<Rightarrow> string \<Rightarrow> 'db \<Rightarrow> bool \<times> 'db" where
  "IsLimited ops rateLimitSize now i db =
     (let ((cnt, lastRequest), db1) = getCountAndTime ops now i db;
          deferred = setCountAndTime ops now i cnt lastRequest;
          isBefore = Before lastRequest now;
          (limited, locals) =
            (if \<not> isBefore then (True, (cnt, lastRequest))
             else if rateLimitSize \<le>s cnt
               then (True, (if isBefore then 0 else cnt, Add now (Second * 1)))
             else (False, (cnt + 1, lastRequest)))
      in (limited, deferred db1))"

fun run_limiter ::
    "('db, any) IMemoryDB \<Rightarrow> go_int \<Rightarrow> (time \<times> string) list \<Rightarrow> 'db \<Rightarrow> bool list \<times> 'db" where
  "run_limiter ops lim [] db = ([], db)"
| "run_limiter ops lim ((now, i) # reqs) db =
     (let (b, db1) = IsLimited ops lim now i db; (bs, db2) = run_limiter ops lim reqs db1
      in (b # bs, db2))"

section \<open>What the limiter remembers\<close>

text \<open>
  The row of a client as the limiter reads it from the values \<open>m\<close> of the store.
\<close>

definition limiter_row :: "(string \<rightharpoonup> any) \<Rightarrow> string \<Rightarrow> go_int \<times> time" where
  "limiter_row m i =
     (case m i of Some (AnyRateLimitRow row) \<Rightarrow> (Count row, LastRequest row) | _ \<Rightarrow> (0, zero_time))"

definition fresh_rows :: "(string \<rightharpoonup> any) \<Rightarrow> bool" where
  "fresh_rows m \<longleftrightarrow> (\<forall>i. limiter_row m i = (0, zero_time))"

locale any_store = memory_db ops view invar
  for ops :: "('db, any) IMemoryDB" and view :: "'db \<Rightarrow> string \<rightharpoonup> any" and invar :: "'db \<Rightarrow> bool"
begin

lemma getCountAndTime_eq:
  "getCountAndTime ops now i db = (limiter_row (view db) i, snd (iGetData ops now i db))"
  using get_value [of now i db]
  by (cases "iGetData ops now i db")
    (auto simp: getCountAndTime_def limiter_row_def split: option.splits any.splits)

lemma IsLimited_eq:
  "IsLimited ops lim now i db =
     (let (c, t) = limiter_row (view db) i in
      (\<not> t < now \<or> lim \<le>s c,
       iSetData ops now i (AnyRateLimitRow \<lparr>Count = c, LastRequest = t\<rparr>) (snd (iGetData ops now i db))))"
  by (cases "limiter_row (view db) i")
    (simp add: IsLimited_def getCountAndTime_eq setCountAndTime_def Let_def Before_def)

lemma IsLimited_row:
  "limiter_row (view (snd (IsLimited ops lim now i db))) = limiter_row (view db)"
  by (cases "limiter_row (view db) i")
    (auto simp: IsLimited_eq laws limiter_row_def fun_eq_iff)

lemma IsLimited_other:
  "j \<noteq> i \<Longrightarrow> view (snd (IsLimited ops lim now i db)) j = view db j"
  by (cases "limiter_row (view db) i") (simp add: IsLimited_eq laws)

lemma IsLimited_invar: "invar db \<Longrightarrow> invar (snd (IsLimited ops lim now i db))"
  by (cases "limiter_row (view db) i") (simp add: IsLimited_eq laws)

lemma IsLimited_fresh:
  assumes "fresh_rows (view db)" and "0 < now" and "0 <s lim"
  shows "fst (IsLimited ops lim now i db) = False \<and> fresh_rows (view (snd (IsLimited ops lim now i db)))"
  using assms
  by (simp add: fresh_rows_def IsLimited_row) (simp add: IsLimited_eq zero_time_def word_sless_alt word_sle_eq)

lemma run_limiter_fresh:
  "fresh_rows (view db) \<Longrightarrow> 0 <s lim \<Longrightarrow> \<forall>(now, i) \<in> set reqs. 0 < now \<Longrightarrow>
   fst (run_limiter ops lim reqs db) = replicate (length reqs) False \<and>
   fresh_rows (view (snd (run_limiter ops lim reqs db)))"
proof (induction reqs arbitrary: db)
  case (Cons r reqs)
  obtain now i where r: "r = (now, i)" by force
  then have step: "fst (IsLimited ops lim now i db) = False"
      "fresh_rows (view (snd (IsLimited ops lim now i db)))"
    using IsLimited_fresh [of db now lim i] Cons.prems by auto
  then show ?case
    using Cons.IH [OF step(2)] Cons.prems by (simp add: r case_prod_unfold Let_def)
qed simp

end

interpretation rl: any_store MemoryDb_ops look db_ok
  by unfold_locales

text \<open>
  C16: the rate limiter never limits. From an empty store, with any positive limit, every call of
  \<^verbatim>\<open>IsLimited\<close> of any sequence of calls, by any clients and at any times, answers \<^verbatim>\<open>false\<close>: the
  request counter is never stored.
\<close>

theorem rate_limiter_admits_all:
  assumes "0 <s lim" and "\<forall>(now, i) \<in> set reqs. 0 < now"
  shows "fst (run_limiter MemoryDb_ops lim reqs (NewMemoryDb ttl)) = replicate (length reqs) False"
  using rl.run_limiter_fresh [of "NewMemoryDb ttl" lim reqs] assms
  by (simp add: fresh_rows_def limiter_row_def)

theorem rate_limiter_admits_all_witness:
  "fst (run_limiter MemoryDb_ops 1 [(5, ''a''), (5, ''a''), (5, ''a'')] (NewMemoryDb 1)) =
     [False, False, False]"
  using rate_limiter_admits_all [of 1 "[(5, ''a''), (5, ''a''), (5, ''a'')]" 1]
  by (simp add: word_sless_alt eval_nat_numeral)

end
