(* ===== verification/ServerConfig.thy ===== *)
theory ServerConfig
  imports GoPrelude
begin

text \<open>
  Configuration: the variables of \<^verbatim>\<open>env/env.go\<close> and the settings of
  \<^verbatim>\<open>pkg/api/types/settings.go\<close>. What the Go runtime reports about the machine
  (\<^verbatim>\<open>runtime.NumCPU()\<close> and \<^verbatim>\<open>MemStats.Sys\<close>) is a pair of arguments.
\<close>

definition ServerAddress :: string where "ServerAddress = ''127.0.0.1''"
definition TCPPort :: string where "TCPPort = ''8081''"
definition UDPPort :: string where "UDPPort = ''4500''"
definition TokenKey :: string where "TokenKey = ''_remember_token_must_be_32_bytes''"
definition MaxRequestPerSecond :: go_int where "MaxRequestPerSecond = 200"

lemmas env_defs = ServerAddress_def TCPPort_def UDPPort_def TokenKey_def MaxRequestPerSecond_def

record Settings =
  set_ServerType :: string
  set_ServerPort :: string
  set_ConnectionPort :: string
  set_ServerAddress :: string
  set_MaxConnections :: go_int
  set_MaxRequestPerSecond :: go_int

definition calculateConnections :: "go_int \<Rightarrow> uint64 \<Rightarrow> go_int" where
  "calculateConnections cpuCount totalRAM =
     (let connectionsPerCPU = 1000; connectionsByCPU = cpuCount * connectionsPerCPU
      in connectionsByCPU)"

definition CountConnectionsMAX :: "go_int \<Rightarrow> uint64 \<Rightarrow> go_int" where
  "CountConnectionsMAX numCPUs memSys = calculateConnections numCPUs memSys"

definition NewSettings :: "go_int \<Rightarrow> uint64 \<Rightarrow> Settings" where
  "NewSettings numCPUs memSys =
     \<lparr>set_ServerType = ''upd'', set_ServerPort = TCPPort, set_ConnectionPort = UDPPort,
      set_ServerAddress = ServerAddress, set_MaxConnections = CountConnectionsMAX numCPUs memSys,
      set_MaxRequestPerSecond = MaxRequestPerSecond\<rparr>"

definition settings_min :: "go_int \<Rightarrow> go_int \<Rightarrow> go_int" where
  "settings_min a b = (if a <s b then a else b)"

lemma CountConnectionsMAX_value:
  assumes "0 \<le> sint cpus" and "sint cpus \<le> 9223372036854775"
  shows "sint (CountConnectionsMAX cpus mem) = 1000 * sint cpus"
proof -
  have "CountConnectionsMAX cpus mem = word_of_int (1000 * sint cpus)"
    by (simp add: CountConnectionsMAX_def calculateConnections_def Let_def mult.commute)
  then show ?thesis
    using sint_of_int64 [of "1000 * sint cpus"] assms by simp
qed

end
