(* ===== verification/Service.thy ===== *)
theory Service
  imports Rooms RateLimiter ServerConfig
begin

text \<open>
  The game service of \<^verbatim>\<open>internal/service/service.go\<close>. It keeps sessions (client address to client
  information) and rooms in one \<^verbatim>\<open>IMemoryDB\<close>. Rooms are stored by pointer and mutated through it,
  so the state of the model is the store together with a heap of rooms: a pointer is an index
  into the heap, allocation appends to it.

  Parameters: \<open>token s\<close> is \<^verbatim>\<open>ParseToken\<close> of the token generator (its result depends on the time,
  since tokens expire; theory \<open>Token\<close> models it and \<open>TokenServer\<close> puts it here); \<open>p\<close> and \<open>q\<close> are the orders in which Go
  visits the maps built inside an operation; \<open>now\<close> is the clock during the operation.
\<close>

section \<open>State\<close>

record 'db service =
  maxConnections :: uint64
  storage :: "('db, any) IMemoryDB"
  token :: "time \<Rightarrow> string \<Rightarrow> error + Info"

record 'db world =
  store :: 'db
  heap :: "Room list"

definition NewService ::
    "(time \<Rightarrow> string \<Rightarrow> error + Info) \<Rightarrow> ('db, any) IMemoryDB \<Rightarrow> go_int \<Rightarrow> uint64 \<Rightarrow> 'db service" where
  "NewService parse ops numCPUs memSys =
     \<lparr>maxConnections = CountConnectionsMAX numCPUs memSys, storage = ops, token = parse\<rparr>"

record GetDeletedRooms_id =
  del_GameID :: uuid
  del_RoomID :: uuid

section \<open>Operations\<close>

text \<open>\<^verbatim>\<open>uint64(count) >= s.maxConnections\<close> compares the bits of the counter as an unsigned number.\<close>

definition GetConnectionsNum :: "'db service \<Rightarrow> 'db world \<Rightarrow> go_int \<times> bool" where
  "GetConnectionsNum s w =
     (let cnt = iCountConnection (storage s) (store w)
      in if maxConnections s \<le> cnt then (cnt, False) else (cnt, True))"

definition load :: "'db service \<Rightarrow> time \<Rightarrow> string \<Rightarrow> 'db world \<Rightarrow> any option \<times> 'db world" where
  "load s now key w =
     (let (v, db) = iGetData (storage s) now key (store w) in (v, w\<lparr>store := db\<rparr>))"

definition setRoom ::
    "'db service \<Rightarrow> time \<Rightarrow> Info \<Rightarrow> nat \<Rightarrow> duration \<Rightarrow> 'db world \<Rightarrow> 'db world" where
  "setRoom s now clientInfo room ttl w =
     (let roomKey = GenerateRoomKey clientInfo
      in if ttl \<noteq> 0
         then w\<lparr>store := iSetDataWithTTL (storage s) now roomKey (AnyRoom room) ttl (store w)\<rparr>
         else w\<lparr>store := iSetData (storage s) now roomKey (AnyRoom room) (store w)\<rparr>)"

definition alloc_room :: "Room \<Rightarrow> 'db world \<Rightarrow> nat \<times> 'db world" where
  "alloc_room r w = (length (heap w), w\<lparr>heap := heap w @ [r]\<rparr>)"

definition CreateRoom ::
    "'db service \<Rightarrow> time \<Rightarrow> string \<Rightarrow> duration \<Rightarrow> 'db world \<Rightarrow> error option \<times> 'db world" where
  "CreateRoom s now tok roomTTl w =
     (case token s now tok of
        Inl err \<Rightarrow> (Some err, w)
      | Inr clientInfo \<Rightarrow>
          (let (found, w1) = load s now (GenerateRoomKey clientInfo) w
           in case found of
                Some _ \<Rightarrow> (Some ErrRoomIsExists, w1)
              | None \<Rightarrow>
                  (let (room, w2) = alloc_room (new_Room (GameID clientInfo) (RoomID clientInfo)) w1
                   in (None, setRoom s now clientInfo room roomTTl w2))))"

definition getRoom ::
    "'db service \<Rightarrow> time \<Rightarrow> UDPConnection \<Rightarrow> 'db world \<Rightarrow> (error + Info \<times> nat) \<times> 'db world" where
  "getRoom s now ds w =
     (case load s now (GetID ds) w of
        (None, w1) \<Rightarrow> (Inl ErrUserNotFound, w1)
      | (Some (AnyInfo info), w1) \<Rightarrow>
          (case load s now (GenerateRoomKey info) w1 of
             (None, w2) \<Rightarrow> (Inl ErrRoomNotFound, w2)
           | (Some (AnyRoom room), w2) \<Rightarrow> (Inr (info, room), w2)
           | (Some _, w2) \<Rightarrow> (Inl ErrRoomBadValue, w2))
      | (Some _, w1) \<Rightarrow> (Inl ErrUserBadValue, w1))"

definition getRoomByClientInfo ::
    "'db service \<Rightarrow> time \<Rightarrow> Info \<Rightarrow> 'db world \<Rightarrow> (error + nat) \<times> 'db world" where
  "getRoomByClientInfo s now clientInfo w =
     (case load s now (GenerateRoomKey clientInfo) w of
        (None, w1) \<Rightarrow> (Inl ErrRoomNotFound, w1)
      | (Some (AnyRoom room), w1) \<Rightarrow> (Inr room, w1)
      | (Some _, w1) \<Rightarrow> (Inl ErrRoomBadValue, w1))"

definition update_room :: "nat \<Rightarrow> (Room \<Rightarrow> Room) \<Rightarrow> 'db world \<Rightarrow> 'db world" where
  "update_room room f w = w\<lparr>heap := (heap w)[room := f (heap w ! room)]\<rparr>"

definition join_room ::
    "'db service \<Rightarrow> (uuid \<times> User) range_order \<Rightarrow> time \<Rightarrow> UDPConnection \<Rightarrow> string \<Rightarrow> Info \<Rightarrow> nat \<Rightarrow>
     'db world \<Rightarrow> 'db world" where
  "join_room s p now ds tok info room w =
     (let w1 = update_room room (SetUser p \<lparr>u_ID = UserID info, u_Connection = ds\<rparr>) w
      in w1\<lparr>store := iAddConnection (storage s) now tok (store w1)\<rparr>)"

definition setNewUser ::
    "'db service \<Rightarrow> (uuid \<times> User) range_order \<Rightarrow> time \<Rightarrow> UDPConnection \<Rightarrow> bytes \<Rightarrow> 'db world \<Rightarrow>
     (error + Info) \<times> 'db world" where
  "setNewUser s p now ds req w =
     (let tok = req
      in case token s now tok of
           Inl _ \<Rightarrow> (Inl ErrNewConnectionMastGetToken, w)
         | Inr info \<Rightarrow>
             (let w1 = w\<lparr>store := iSetData (storage s) now (GetID ds) (AnyInfo info) (store w)\<rparr>
              in case load s now (GenerateRoomKey info) w1 of
                   (None, w2) \<Rightarrow>
                     (let (room, w3) = alloc_room (new_Room (GameID info) (RoomID info)) w2;
                          w4 = setRoom s now info room 0 w3
                      in (Inr info, join_room s p now ds tok info room w4))
                 | (Some (AnyRoom room), w2) \<Rightarrow> (Inr info, join_room s p now ds tok info room w2)
                 | (Some _, w2) \<Rightarrow> (Inl ErrRoomBadValue, w2)))"

text \<open>
  The loop of \<^verbatim>\<open>GetUsersAndMessage\<close> over the users of the room: the sender itself is skipped, a
  user with the sender's id on another connection is not.
\<close>

definition is_sender :: "Info \<Rightarrow> UDPConnection \<Rightarrow> User \<Rightarrow> bool" where
  "is_sender clientInfo ds v \<longleftrightarrow> u_ID v = UserID clientInfo \<and> GetID ds = GetID (u_Connection v)"

fun other_users :: "Info \<Rightarrow> UDPConnection \<Rightarrow> User list \<Rightarrow> User list" where
  "other_users clientInfo ds [] = []"
| "other_users clientInfo ds (v # vs) =
     (if is_sender clientInfo ds v then other_users clientInfo ds vs
      else v # other_users clientInfo ds vs)"

definition reply_to_self :: "UDPConnection \<Rightarrow> Info \<Rightarrow> User list \<times> bytes" where
  "reply_to_self ds clientInfo = ([\<lparr>u_ID = 0, u_Connection = ds\<rparr>], uuid_String (UserID clientInfo))"

definition GetUsersAndMessage ::
    "'db service \<Rightarrow> (uuid \<times> User) range_order \<Rightarrow> time \<Rightarrow> UDPConnection \<Rightarrow> bytes \<Rightarrow> 'db world \<Rightarrow>
     (error + User list \<times> bytes) \<times> 'db world" where
  "GetUsersAndMessage s p now ds req w =
     (case getRoom s now ds w of
        (Inl _, w1) \<Rightarrow>
          (case setNewUser s p now ds req w1 of
             (Inl err, w2) \<Rightarrow> (Inl err, w2)
           | (Inr clientInfo, w2) \<Rightarrow> (Inr (reply_to_self ds clientInfo), w2))
      | (Inr (clientInfo, room), w1) \<Rightarrow>
          (if length req = 454 \<or> length req = 343
           then (Inr (reply_to_self ds clientInfo), w1)
           else (Inr (other_users clientInfo ds (GetUser (heap w1 ! room)), req), w1)))"

text \<open>\<open>None\<close> is a panic of \<^verbatim>\<open>room.RemoveUser\<close>; the optional error is the result.\<close>

definition RemoveUser ::
    "'db service \<Rightarrow> time \<Rightarrow> UDPConnection \<Rightarrow> uuid \<Rightarrow> 'db world \<Rightarrow> (error option \<times> 'db world) option" where
  "RemoveUser s now ds userID w =
     (case getRoom s now ds w of
        (Inl err, w1) \<Rightarrow> Some (Some err, w1)
      | (Inr (_, room), w1) \<Rightarrow>
          (case RemoveUser_room userID (heap w1 ! room) of
             None \<Rightarrow> None
           | Some r \<Rightarrow> Some (None, update_room room (\<lambda>_. r) w1)))"

fun rooms_with_key ::
    "Info \<Rightarrow> GetDeletedRooms_id list \<Rightarrow> (string \<times> GetDeletedRooms_id) list \<Rightarrow>
     (string \<times> GetDeletedRooms_id) list" where
  "rooms_with_key info [] m = m"
| "rooms_with_key info (i # ids) m =
     (let info' = info\<lparr>GameID := del_GameID i, RoomID := del_RoomID i\<rparr>
      in rooms_with_key info' ids (AList.update (GenerateRoomKey info') i m))"

fun drop_missing ::
    "'db service \<Rightarrow> time \<Rightarrow> (string \<times> GetDeletedRooms_id) list \<Rightarrow>
     (string \<times> GetDeletedRooms_id) list \<Rightarrow> 'db world \<Rightarrow>
     (string \<times> GetDeletedRooms_id) list \<times> 'db world" where
  "drop_missing s now [] m w = (m, w)"
| "drop_missing s now ((k, _) # ks) m w =
     (case load s now k w of
        (None, w1) \<Rightarrow> drop_missing s now ks (AList.delete k m) w1
      | (Some _, w1) \<Rightarrow> drop_missing s now ks m w1)"

definition GetDeletedRooms ::
    "'db service \<Rightarrow> (string \<times> GetDeletedRooms_id) range_order \<Rightarrow>
     (string \<times> GetDeletedRooms_id) range_order \<Rightarrow> time \<Rightarrow> string \<Rightarrow> GetDeletedRooms_id list \<Rightarrow>
     'db world \<Rightarrow> (error + GetDeletedRooms_id list) \<times> 'db world" where
  "GetDeletedRooms s p q now tok ids w =
     (case token s now tok of
        Inl err \<Rightarrow> (Inl err, w)
      | Inr info \<Rightarrow>
          (let m = rooms_with_key info ids [];
               (m', w1) = drop_missing s now (range_in p m) m w
           in (Inr (map snd (range_in q m')), w1)))"

end
