(* ===== verification/ServiceSpec.thy ===== *)
theory ServiceSpec
  imports Service
begin

text \<open>
  What the game service promises, as an abstract state with two finite maps (sessions by
  connection, members of each room by user id), and the proof that the operations of
  \<open>Service\<close> implement it on every store that satisfies the \<open>memory_db\<close> laws. The invariant
  \<open>world_ok\<close> says that every stored value has the type its key asks for, that room pointers are
  valid and stored under the key of their room, and that the users of every room have distinct
  ids; every operation keeps it.
\<close>

section \<open>The abstract state\<close>

record spec_state =
  sessions :: "UDPConnection \<rightharpoonup> Info"
  rooms :: "uuid \<times> uuid \<rightharpoonup> (uuid \<rightharpoonup> User)"

definition room_key :: "uuid \<Rightarrow> uuid \<Rightarrow> string" where
  "room_key g r = GenerateRoomKey \<lparr>GameID = g, RoomID = r, UserID = 0, TTL = 0\<rparr>"

definition room_of :: "Info \<Rightarrow> uuid \<times> uuid" where
  "room_of i = (GameID i, RoomID i)"

definition abs_of :: "(string \<rightharpoonup> any) \<Rightarrow> Room list \<Rightarrow> spec_state" where
  "abs_of m h =
     \<lparr>sessions = (\<lambda>ds. case m (GetID ds) of Some (AnyInfo i) \<Rightarrow> Some i | _ \<Rightarrow> None),
      rooms = (\<lambda>(g, r). case m (room_key g r) of
                 Some (AnyRoom n) \<Rightarrow> Some (room_members (h ! n)) | _ \<Rightarrow> None)\<rparr>"

definition value_ok :: "Room list \<Rightarrow> string \<Rightarrow> any \<Rightarrow> bool" where
  "value_ok h k v \<longleftrightarrow>
     (case v of AnyInfo i \<Rightarrow> \<exists>ds. k = GetID ds
      | AnyRoom n \<Rightarrow> n < length h \<and> k = room_key (r_GameID (h ! n)) (r_RoomID (h ! n))
      | AnyRateLimitRow _ \<Rightarrow> False)"

definition vals_ok :: "(string \<rightharpoonup> any) \<Rightarrow> Room list \<Rightarrow> bool" where
  "vals_ok m h \<longleftrightarrow> (\<forall>k v. m k = Some v \<longrightarrow> value_ok h k v) \<and> (\<forall>r \<in> set h. room_ok r)"

fun spec_session :: "spec_state \<Rightarrow> UDPConnection \<Rightarrow> error + Info \<times> (uuid \<rightharpoonup> User)" where
  "spec_session a ds =
     (case sessions a ds of None \<Rightarrow> Inl ErrUserNotFound
      | Some i \<Rightarrow> (case rooms a (room_of i) of None \<Rightarrow> Inl ErrRoomNotFound | Some m \<Rightarrow> Inr (i, m)))"

definition spec_create :: "Info \<Rightarrow> spec_state \<Rightarrow> spec_state" where
  "spec_create i a = a\<lparr>rooms := (rooms a)(room_of i \<mapsto> Map.empty)\<rparr>"

definition members_or_empty :: "spec_state \<Rightarrow> Info \<Rightarrow> (uuid \<rightharpoonup> User)" where
  "members_or_empty a i = (case rooms a (room_of i) of None \<Rightarrow> Map.empty | Some m \<Rightarrow> m)"

definition spec_join :: "UDPConnection \<Rightarrow> Info \<Rightarrow> spec_state \<Rightarrow> spec_state" where
  "spec_join ds i a =
     \<lparr>sessions = (sessions a)(ds \<mapsto> i),
      rooms = (rooms a)(room_of i \<mapsto>
        (members_or_empty a i)(UserID i \<mapsto> \<lparr>u_ID = UserID i, u_Connection = ds\<rparr>))\<rparr>"

definition spec_leave :: "Info \<Rightarrow> uuid \<Rightarrow> spec_state \<Rightarrow> spec_state" where
  "spec_leave i uid a = a\<lparr>rooms := (rooms a)(room_of i \<mapsto> (members_or_empty a i)(uid := None))\<rparr>"

section \<open>Keys and values\<close>

lemma GenerateRoomKey_eq: "GenerateRoomKey i = room_key (GameID i) (RoomID i)"
  by (simp add: room_key_def GenerateRoomKey_def)

lemma room_key_inject [simp]: "room_key g r = room_key g' r' \<longleftrightarrow> g = g' \<and> r = r'"
  by (auto simp: room_key_def GenerateRoomKey_def)

lemma GetID_neq_room_key [simp]: "GetID ds \<noteq> room_key g r" "room_key g r \<noteq> GetID ds"
  using uuid_String_dash [of r] after_last_colon_key [of "\<lparr>GameID = g, RoomID = r, UserID = 0, TTL = 0\<rparr>"]
    after_last_colon_addr [of "ClientAddr ds"] Itoa_no_dash [of "Port (ClientAddr ds)"]
  unfolding room_key_def GetID_def by (metis Info.select_convs(2))+

lemma GetID_inject [simp]: "GetID d = GetID e \<longleftrightarrow> d = e"
  by (cases d, cases e) (simp add: GetID_def)

lemma vals_ok_session:
  assumes "vals_ok m h" and "m (GetID ds) = Some v"
  obtains i where "v = AnyInfo i"
proof -
  have "value_ok h (GetID ds) v"
    using assms by (simp add: vals_ok_def)
  with that show ?thesis
    by (cases v) (auto simp: value_ok_def)
qed

lemma vals_ok_room:
  assumes "vals_ok m h" and "m (room_key g r) = Some v"
  obtains n where "v = AnyRoom n" "n < length h" "r_GameID (h ! n) = g" "r_RoomID (h ! n) = r" "room_ok (h ! n)"
proof -
  have "value_ok h (room_key g r) v" and "\<forall>r \<in> set h. room_ok r"
    using assms by (simp_all add: vals_ok_def)
  with that show ?thesis
    by (cases v) (auto simp: value_ok_def)
qed

lemma vals_ok_empty [simp]: "vals_ok Map.empty []"
  by (simp add: vals_ok_def)

lemma vals_ok_set_session:
  "vals_ok m h \<Longrightarrow> vals_ok (m(GetID ds \<mapsto> AnyInfo i)) h"
  by (auto simp: vals_ok_def value_ok_def)

lemma abs_set_session:
  "abs_of (m(GetID ds \<mapsto> AnyInfo i)) h = (abs_of m h)\<lparr>sessions := (sessions (abs_of m h))(ds \<mapsto> i)\<rparr>"
  by (auto simp: abs_of_def fun_eq_iff)

lemma vals_ok_alloc:
  assumes "vals_ok m h"
  shows "vals_ok (m(room_key g r \<mapsto> AnyRoom (length h))) (h @ [new_Room g r])"
proof -
  have "value_ok (h @ [new_Room g r]) k v" if "value_ok h k v" for k v
    using that by (auto simp: value_ok_def nth_append split: any.splits)
  moreover have "value_ok (h @ [new_Room g r]) (room_key g r) (AnyRoom (length h))"
    by (simp add: value_ok_def new_Room_def)
  moreover have "room_ok (new_Room g r)"
    by (simp add: room_ok_def new_Room_def)
  ultimately show ?thesis
    using assms by (simp add: vals_ok_def)
qed

lemma abs_alloc:
  assumes "vals_ok m h"
  shows "abs_of (m(room_key g r \<mapsto> AnyRoom (length h))) (h @ [new_Room g r]) =
    (abs_of m h)\<lparr>rooms := (rooms (abs_of m h))((g, r) \<mapsto> Map.empty)\<rparr>"
proof -
  have "(h @ [new_Room g r]) ! n = h ! n" if "m (room_key g' r') = Some (AnyRoom n)" for g' r' n
    using vals_ok_room [OF assms that] by (auto simp: nth_append)
  then show ?thesis
    by (auto simp: abs_of_def fun_eq_iff room_members_def new_Room_def split: option.splits any.splits)
qed

lemma vals_ok_update_room:
  assumes "vals_ok m h" and "n < length h" and "room_ok r'"
    and "r_GameID r' = r_GameID (h ! n)" "r_RoomID r' = r_RoomID (h ! n)"
  shows "vals_ok m (h[n := r'])"
proof -
  have "value_ok (h[n := r']) k v" if "value_ok h k v" for k v
    using that assms(2,4,5) by (auto simp: value_ok_def nth_list_update split: any.splits)
  then show ?thesis
    using assms set_update_subset_insert [of h n r'] by (auto simp: vals_ok_def)
qed

lemma abs_update_room:
  assumes "vals_ok m h" and "m (room_key g r) = Some (AnyRoom n)"
  shows "abs_of m (h[n := r']) = (abs_of m h)\<lparr>rooms := (rooms (abs_of m h))((g, r) \<mapsto> room_members r')\<rparr>"
proof -
  have n: "n < length h" "r_GameID (h ! n) = g" "r_RoomID (h ! n) = r"
    using vals_ok_room [OF assms] by auto
  have "n' \<noteq> n" if "m (room_key g' r') = Some (AnyRoom n')" "(g', r') \<noteq> (g, r)" for g' r' n'
    using vals_ok_room [OF assms(1) that(1)] that(2) n by auto
  then show ?thesis
    using n assms(2)
    by (auto simp: abs_of_def fun_eq_iff nth_list_update split: option.splits any.splits)
qed

section \<open>The operations on any store\<close>

definition abs_via :: "('db \<Rightarrow> string \<rightharpoonup> any) \<Rightarrow> 'db world \<Rightarrow> spec_state" where
  "abs_via view w = abs_of (view (store w)) (heap w)"

definition ok_via :: "('db \<Rightarrow> string \<rightharpoonup> any) \<Rightarrow> ('db \<Rightarrow> bool) \<Rightarrow> 'db world \<Rightarrow> bool" where
  "ok_via view invar w \<longleftrightarrow> invar (store w) \<and> vals_ok (view (store w)) (heap w)"

text \<open>Two states that differ in the times of last use only.\<close>

definition same_values ::
    "'db service \<Rightarrow> ('db \<Rightarrow> string \<rightharpoonup> any) \<Rightarrow> ('db \<Rightarrow> bool) \<Rightarrow> 'db world \<Rightarrow> 'db world \<Rightarrow> bool" where
  "same_values s view invar w w' \<longleftrightarrow>
     view (store w') = view (store w) \<and> heap w' = heap w \<and>
     (invar (store w) \<longrightarrow> invar (store w')) \<and>
     iCountConnection (storage s) (store w') = iCountConnection (storage s) (store w)"

text \<open>The result of \<^verbatim>\<open>getRoom\<close> as a function of the stored values.\<close>

definition session :: "(string \<rightharpoonup> any) \<Rightarrow> UDPConnection \<Rightarrow> error + Info \<times> nat" where
  "session m ds =
     (case m (GetID ds) of
        None \<Rightarrow> Inl ErrUserNotFound
      | Some (AnyInfo i) \<Rightarrow>
          (case m (GenerateRoomKey i) of
             None \<Rightarrow> Inl ErrRoomNotFound
           | Some (AnyRoom n) \<Rightarrow> Inr (i, n)
           | Some _ \<Rightarrow> Inl ErrRoomBadValue)
      | Some _ \<Rightarrow> Inl ErrUserBadValue)"

lemma session_abs:
  assumes "vals_ok m h"
  shows "spec_session (abs_of m h) ds =
    (case session m ds of Inl e \<Rightarrow> Inl e | Inr (i, n) \<Rightarrow> Inr (i, room_members (h ! n)))"
proof (cases "m (GetID ds)")
  case None
  then show ?thesis by (simp add: abs_of_def session_def)
next
  case (Some v)
  then obtain i where v: "v = AnyInfo i"
    using assms vals_ok_session by blast
  show ?thesis
  proof (cases "m (GenerateRoomKey i)")
    case None
    with Some v show ?thesis
      by (simp add: abs_of_def session_def room_of_def GenerateRoomKey_eq)
  next
    case (Some u)
    then obtain n where "u = AnyRoom n"
      using assms vals_ok_room unfolding GenerateRoomKey_eq by metis
    with Some v \<open>m (GetID ds) = Some v\<close> show ?thesis
      by (simp add: abs_of_def session_def room_of_def GenerateRoomKey_eq)
  qed
qed

lemma session_Inr:
  assumes "vals_ok m h" and "session m ds = Inr (i, n)"
  shows "m (GetID ds) = Some (AnyInfo i)" and "m (room_key (GameID i) (RoomID i)) = Some (AnyRoom n)"
    and "n < length h" and "room_ok (h ! n)"
    and "r_GameID (h ! n) = GameID i" and "r_RoomID (h ! n) = RoomID i"
proof -
  show "m (GetID ds) = Some (AnyInfo i)" and *: "m (room_key (GameID i) (RoomID i)) = Some (AnyRoom n)"
    using assms(2) by (auto simp: session_def GenerateRoomKey_eq split: option.splits any.splits)
  from vals_ok_room [OF assms(1) *] show "n < length h" and "room_ok (h ! n)"
    and "r_GameID (h ! n) = GameID i" and "r_RoomID (h ! n) = RoomID i"
    by auto
qed

lemma abs_room_None:
  assumes "vals_ok m h"
  shows "rooms (abs_of m h) (g, r) = None \<longleftrightarrow> m (room_key g r) = None"
proof (cases "m (room_key g r)")
  case (Some v)
  then obtain n where "v = AnyRoom n"
    using assms vals_ok_room by metis
  with Some show ?thesis
    by (simp add: abs_of_def)
qed (simp add: abs_of_def)

lemma abs_room_Some:
  "m (room_key g r) = Some (AnyRoom n) \<Longrightarrow> rooms (abs_of m h) (g, r) = Some (room_members (h ! n))"
  by (simp add: abs_of_def)

lemma other_users_filter: "other_users i ds us = filter (\<lambda>u. \<not> is_sender i ds u) us"
  by (induction us) auto

lemma set_users_members: "room_ok r \<Longrightarrow> set (r_Users r) = ran (room_members r)"
  by (simp add: room_members_def room_ok_def ran_distinct comp_def image_image)

definition id_key :: "GetDeletedRooms_id \<Rightarrow> string" where
  "id_key x = room_key (del_GameID x) (del_RoomID x)"

lemma inj_id_key: "inj id_key"
  by (rule injI) (simp add: id_key_def)

lemma rooms_with_key_set:
  "\<forall>(k, v) \<in> set m. k = id_key v \<Longrightarrow> distinct (map fst m) \<Longrightarrow>
   set (rooms_with_key info ids m) = (\<lambda>x. (id_key x, x)) ` set ids \<union> set m \<and>
   distinct (map fst (rooms_with_key info ids m))"
proof (induction info ids m rule: rooms_with_key.induct)
  case (2 info i ids m)
  have key: "GenerateRoomKey (info\<lparr>GameID := del_GameID i, RoomID := del_RoomID i\<rparr>) = id_key i"
    by (simp add: GenerateRoomKey_eq id_key_def)
  have upd: "set (AList.update (id_key i) i m) = insert (id_key i, i) (set m)"
    by (rule set_update_keyed [OF inj_id_key "2.prems"(1)])
  show ?case
    using "2.IH" [OF refl] "2.prems" by (auto simp: key upd distinct_update Let_def)
qed auto

locale service_env = any_store "storage s" view invar
  for s :: "'db service" and view :: "'db \<Rightarrow> string \<rightharpoonup> any" and invar :: "'db \<Rightarrow> bool"
begin

abbreviation same :: "'db world \<Rightarrow> 'db world \<Rightarrow> bool" where
  "same \<equiv> same_values s view invar"

lemma load_cases:
  obtains w1 where "load s now k w = (view (store w) k, w1)" "same w w1"
proof
  show "load s now k w = (view (store w) k, snd (load s now k w))"
    using get_value [of now k "store w"] by (simp add: load_def case_prod_unfold Let_def)
  show "same w (snd (load s now k w))"
    by (simp add: same_values_def load_def case_prod_unfold Let_def laws)
qed

lemma same_refl: "same w w"
  by (simp add: same_values_def)

lemma same_trans: "same w w1 \<Longrightarrow> same w1 w2 \<Longrightarrow> same w w2"
  by (simp add: same_values_def)

lemma same_ok: "same w w1 \<Longrightarrow> ok_via view invar w \<Longrightarrow> ok_via view invar w1"
  by (simp add: same_values_def ok_via_def)

lemma same_abs: "same w w1 \<Longrightarrow> abs_via view w1 = abs_via view w"
  by (simp add: same_values_def abs_via_def)

lemma getRoom_cases:
  obtains w1 where "getRoom s now ds w = (session (view (store w)) ds, w1)" "same w w1"
proof -
  obtain w1 where l1: "load s now (GetID ds) w = (view (store w) (GetID ds), w1)" and s1: "same w w1"
    by (rule load_cases)
  have v1: "view (store w1) = view (store w)"
    using s1 by (simp add: same_values_def)
  show ?thesis
  proof (cases "\<exists>i. view (store w) (GetID ds) = Some (AnyInfo i)")
    case True
    then obtain i where i: "view (store w) (GetID ds) = Some (AnyInfo i)" by blast
    obtain w2 where l2: "load s now (GenerateRoomKey i) w1 = (view (store w1) (GenerateRoomKey i), w2)"
      and s2: "same w1 w2"
      by (rule load_cases)
    have "getRoom s now ds w = (session (view (store w)) ds, w2)"
      using i by (simp add: getRoom_def session_def l1 l2 v1 split: option.splits any.splits)
    then show ?thesis
      using that same_trans [OF s1 s2] by blast
  next
    case False
    then have "getRoom s now ds w = (session (view (store w)) ds, w1)"
      by (auto simp: getRoom_def session_def l1 split: option.splits any.splits)
    then show ?thesis
      using that s1 by blast
  qed
qed

lemma setRoom_frame [simp]:
  "view (store (setRoom s now i n ttl w)) = (view (store w))(GenerateRoomKey i \<mapsto> AnyRoom n)"
  "heap (setRoom s now i n ttl w) = heap w"
  "invar (store w) \<Longrightarrow> invar (store (setRoom s now i n ttl w))"
  "iCountConnection (storage s) (store (setRoom s now i n ttl w)) = iCountConnection (storage s) (store w)"
  by (simp_all add: setRoom_def Let_def laws)

text \<open>Storing a newly allocated room under its key is the creation of an empty room.\<close>

lemma create_step:
  fixes w i now ttl
  assumes "ok_via view invar w"
  defines "w' \<equiv> setRoom s now i (length (heap w)) ttl
    (w\<lparr>heap := heap w @ [new_Room (GameID i) (RoomID i)]\<rparr>)"
  shows "ok_via view invar w' \<and> abs_via view w' = spec_create i (abs_via view w)"
  using assms
  by (simp add: ok_via_def abs_via_def GenerateRoomKey_eq vals_ok_alloc abs_alloc
      spec_create_def room_of_def)

lemma CreateRoom_spec:
  assumes "ok_via view invar w" and "token s now tok = Inr i"
  shows "let (err, w') = CreateRoom s now tok ttl w in
    if rooms (abs_via view w) (room_of i) = None
    then err = None \<and> ok_via view invar w' \<and> abs_via view w' = spec_create i (abs_via view w)
    else err = Some ErrRoomIsExists \<and> same w w'"
proof -
  obtain w1 where l: "load s now (GenerateRoomKey i) w = (view (store w) (GenerateRoomKey i), w1)"
    and s1: "same w w1"
    by (rule load_cases)
  have ok1: "ok_via view invar w1" and abs1: "abs_via view w1 = abs_via view w"
    using s1 assms(1) by (auto intro: same_ok same_abs)
  have "rooms (abs_via view w) (room_of i) = None \<longleftrightarrow> view (store w) (GenerateRoomKey i) = None"
    using assms(1) by (simp add: abs_via_def ok_via_def room_of_def GenerateRoomKey_eq abs_room_None)
  then show ?thesis
    using create_step [OF ok1, of now i ttl] s1
    by (cases "view (store w) (GenerateRoomKey i)")
      (auto simp: CreateRoom_def assms(2) l abs1 alloc_room_def Let_def)
qed

lemma join_step:
  fixes w i n p now ds tok
  assumes ok: "ok_via view invar w"
    and n: "view (store w) (GenerateRoomKey i) = Some (AnyRoom n)"
  defines "w' \<equiv> join_room s p now ds tok i n w"
  shows "ok_via view invar w' \<and>
    abs_via view w' = (abs_via view w)\<lparr>rooms := (rooms (abs_via view w))(room_of i \<mapsto>
      (members_or_empty (abs_via view w) i)(UserID i \<mapsto> \<lparr>u_ID = UserID i, u_Connection = ds\<rparr>))\<rparr> \<and>
    iCountConnection (storage s) (store w') = iCountConnection (storage s) (store w) + 1"
proof -
  let ?u = "\<lparr>u_ID = UserID i, u_Connection = ds\<rparr>"
  let ?m = "view (store w)" and ?h = "heap w"
  have vals: "vals_ok ?m ?h" and inv: "invar (store w)"
    using ok by (simp_all add: ok_via_def)
  have m: "?m (room_key (GameID i) (RoomID i)) = Some (AnyRoom n)"
    using n by (simp add: GenerateRoomKey_eq)
  obtain room: "n < length ?h" "room_ok (?h ! n)"
    using vals_ok_room [OF vals m] by auto
  have heap: "heap w' = ?h[n := SetUser p ?u (?h ! n)]" and vw: "view (store w') = ?m"
    by (simp_all add: w'_def join_room_def update_room_def Let_def laws)
  have ok': "vals_ok ?m (?h[n := SetUser p ?u (?h ! n)])"
    by (rule vals_ok_update_room [OF vals room(1) SetUser_ok [OF room(2)]]) (simp_all add: SetUser_def)
  have mem: "members_or_empty (abs_of ?m ?h) i = room_members (?h ! n)"
    using abs_room_Some [of ?m _ _ n ?h, OF m] by (simp add: members_or_empty_def room_of_def)
  show ?thesis
    using ok' inv abs_update_room [OF vals m, of "SetUser p ?u (?h ! n)"]
    by (simp add: ok_via_def abs_via_def heap vw mem SetUser_members room room_of_def)
      (simp add: w'_def join_room_def update_room_def Let_def laws)
qed

lemma session_step:
  fixes w now ds i
  assumes "ok_via view invar w"
  defines "w' \<equiv> w\<lparr>store := iSetData (storage s) now (GetID ds) (AnyInfo i) (store w)\<rparr>"
  shows "ok_via view invar w' \<and>
    abs_via view w' = (abs_via view w)\<lparr>sessions := (sessions (abs_via view w))(ds \<mapsto> i)\<rparr> \<and>
    iCountConnection (storage s) (store w') = iCountConnection (storage s) (store w)"
  using assms by (simp add: ok_via_def abs_via_def laws vals_ok_set_session abs_set_session)

lemma setNewUser_spec:
  assumes ok: "ok_via view invar w" and tok: "token s now req = Inr i"
  shows "let (r, w') = setNewUser s p now ds req w in
    r = Inr i \<and> ok_via view invar w' \<and> abs_via view w' = spec_join ds i (abs_via view w) \<and>
    iCountConnection (storage s) (store w') = iCountConnection (storage s) (store w) + 1"
proof -
  let ?w1 = "w\<lparr>store := iSetData (storage s) now (GetID ds) (AnyInfo i) (store w)\<rparr>"
  note S = session_step [OF ok, of now ds i]
  obtain w2 where l: "load s now (GenerateRoomKey i) ?w1 = (view (store ?w1) (GenerateRoomKey i), w2)"
    and s2: "same ?w1 w2"
    by (rule load_cases)
  have ok2: "ok_via view invar w2"
    using same_ok [OF s2] S by blast
  note abs2 = same_abs [OF s2]
  have v2: "view (store w2) = view (store ?w1)"
    and cnt2: "iCountConnection (storage s) (store w2) = iCountConnection (storage s) (store ?w1)"
    using s2 by (simp_all add: same_values_def)
  show ?thesis
  proof (cases "view (store ?w1) (GenerateRoomKey i)")
    case None
    let ?w4 = "setRoom s now i (length (heap w2)) 0 (w2\<lparr>heap := heap w2 @ [new_Room (GameID i) (RoomID i)]\<rparr>)"
    have "rooms (abs_via view w) (room_of i) = None"
      using None ok by (simp add: laws abs_via_def ok_via_def room_of_def GenerateRoomKey_eq abs_room_None)
    then show ?thesis
      using None S create_step [OF ok2, of now i 0] join_step [of ?w4 i "length (heap w2)" p now ds req]
      by (simp add: setNewUser_def tok l alloc_room_def Let_def abs2 cnt2 spec_create_def spec_join_def
          members_or_empty_def)
  next
    case (Some v)
    then obtain n where v: "v = AnyRoom n"
      using S vals_ok_room unfolding GenerateRoomKey_eq ok_via_def by metis
    then show ?thesis
      using Some S join_step [OF ok2, of i n p now ds req] v2
      by (simp add: setNewUser_def tok l Let_def abs2 cnt2 spec_join_def members_or_empty_def)
  qed
qed

lemma RemoveUser_spec:
  assumes ok: "ok_via view invar w"
  shows "\<exists>err w'. RemoveUser s now ds uid w = Some (err, w') \<and> ok_via view invar w' \<and>
    (case spec_session (abs_via view w) ds of
       Inl e \<Rightarrow> err = Some e \<and> abs_via view w' = abs_via view w
     | Inr (i, m) \<Rightarrow> err = None \<and> abs_via view w' = spec_leave i uid (abs_via view w))"
proof -
  obtain w1 where g: "getRoom s now ds w = (session (view (store w)) ds, w1)" and s1: "same w w1"
    by (rule getRoom_cases)
  have eq: "view (store w1) = view (store w)" "heap w1 = heap w"
    using s1 by (simp_all add: same_values_def)
  have ok1: "ok_via view invar w1" and abs1: "abs_via view w1 = abs_via view w"
    using s1 ok by (auto intro: same_ok same_abs)
  then have vals: "vals_ok (view (store w)) (heap w)"
    using ok by (simp add: ok_via_def)
  show ?thesis
  proof (cases "session (view (store w)) ds")
    case (Inl e)
    then show ?thesis
      using g ok1 abs1 session_abs [OF vals, of ds] by (simp add: RemoveUser_def abs_via_def)
  next
    case (Inr x)
    then obtain i n where ses: "session (view (store w)) ds = Inr (i, n)"
      by (cases x) auto
    note R = session_Inr [OF vals ses]
    let ?r = "(heap w ! n)\<lparr>r_Users := filter (\<lambda>u. u_ID u \<noteq> uid) (r_Users (heap w ! n))\<rparr>"
    have "room_members ?r = (room_members (heap w ! n))(uid := None)"
      by (simp add: room_members_def map_of_filter_id)
    moreover have "vals_ok (view (store w)) ((heap w)[n := ?r])"
      by (rule vals_ok_update_room [OF vals R(3)]) (simp_all add: R(4))
    moreover have "members_or_empty (abs_of (view (store w)) (heap w)) i = room_members (heap w ! n)"
      using abs_room_Some [of "view (store w)" _ _ n "heap w", OF R(2)]
      by (simp add: members_or_empty_def room_of_def)
    ultimately show ?thesis
      using ok1 session_abs [OF vals, of ds] abs_update_room [OF vals R(2), of ?r]
      by (simp add: RemoveUser_def g ses eq RemoveUser_room_eq R(4) update_room_def ok_via_def
          abs_via_def spec_leave_def room_of_def)
  qed
qed

lemma GetUsersAndMessage_spec:
  assumes ok: "ok_via view invar w"
  shows "let (r, w') = GetUsersAndMessage s p now ds req w; a = abs_via view w; a' = abs_via view w' in
    ok_via view invar w' \<and>
    (case spec_session a ds of
       Inl _ \<Rightarrow>
         (case token s now req of
            Inl _ \<Rightarrow> r = Inl ErrNewConnectionMastGetToken \<and> a' = a
          | Inr i \<Rightarrow> r = Inr (reply_to_self ds i) \<and> a' = spec_join ds i a)
     | Inr (i, m) \<Rightarrow>
         a' = a \<and>
         (if length req = 454 \<or> length req = 343 then r = Inr (reply_to_self ds i)
          else \<exists>users. r = Inr (users, req) \<and> distinct (map u_ID users) \<and>
                 set users = {u \<in> ran m. \<not> is_sender i ds u}))"
proof -
  obtain w1 where g: "getRoom s now ds w = (session (view (store w)) ds, w1)" and s1: "same w w1"
    by (rule getRoom_cases)
  have eq: "view (store w1) = view (store w)" "heap w1 = heap w"
    using s1 by (simp_all add: same_values_def)
  have ok1: "ok_via view invar w1" and abs1: "abs_via view w1 = abs_via view w"
    using s1 ok by (auto intro: same_ok same_abs)
  have vals: "vals_ok (view (store w)) (heap w)"
    using ok by (simp add: ok_via_def)
  note S = session_abs [OF vals, of ds, folded abs_via_def]
  show ?thesis
  proof (cases "session (view (store w)) ds")
    case (Inl e)
    then show ?thesis
      using setNewUser_spec [OF ok1, of now req _ p ds] ok1 abs1 S
      by (cases "token s now req")
        (auto simp: GetUsersAndMessage_def g setNewUser_def Let_def split: prod.splits)
  next
    case (Inr x)
    then obtain i n where ses: "session (view (store w)) ds = Inr (i, n)"
      by (cases x) auto
    note R = session_Inr [OF vals ses]
    have "set (other_users i ds (r_Users (heap w ! n))) = {u \<in> ran (room_members (heap w ! n)). \<not> is_sender i ds u}"
      using set_users_members [OF R(4)] by (auto simp: other_users_filter)
    moreover have "distinct (map u_ID (other_users i ds (r_Users (heap w ! n))))"
      using R(4) by (simp add: other_users_filter room_ok_def distinct_map_filter)
    ultimately show ?thesis
      using ok1 abs1 S by (simp add: GetUsersAndMessage_def g ses eq GetUser_def Let_def)
  qed
qed

lemma drop_missing_spec:
  "\<exists>w'. drop_missing s now ks m w =
     (filter (\<lambda>(k, _). k \<in> fst ` set ks \<longrightarrow> view (store w) k \<noteq> None) m, w') \<and> same w w'"
proof (induction ks arbitrary: m w)
  case Nil
  then show ?case by (auto simp: same_refl)
next
  case (Cons kv ks)
  obtain k v where kv: "kv = (k, v)" by force
  obtain w1 where l: "load s now k w = (view (store w) k, w1)" and s1: "same w w1"
    by (rule load_cases)
  have v1: "view (store w1) = view (store w)"
    using s1 by (simp add: same_values_def)
  let ?m = "if view (store w) k = None then AList.delete k m else m"
  obtain w2 where w2: "drop_missing s now ks ?m w1 =
      (filter (\<lambda>(k, _). k \<in> fst ` set ks \<longrightarrow> view (store w) k \<noteq> None) ?m, w2)" "same w1 w2"
    using Cons.IH [of ?m w1] v1 by auto
  have "drop_missing s now (kv # ks) m w = drop_missing s now ks ?m w1"
    by (auto simp: kv l split: option.splits)
  moreover have "filter (\<lambda>(k, _). k \<in> fst ` set ks \<longrightarrow> view (store w) k \<noteq> None) ?m =
      filter (\<lambda>(k, _). k \<in> fst ` set (kv # ks) \<longrightarrow> view (store w) k \<noteq> None) m"
    by (auto simp: kv AList.delete_eq case_prod_unfold intro!: filter_cong)
  ultimately show ?case
    using w2 same_trans [OF s1] by auto
qed

lemma GetDeletedRooms_spec:
  assumes ok: "ok_via view invar w" and tok: "token s now tok = Inr info"
  shows "\<exists>found w'. GetDeletedRooms s p q now tok ids w = (Inr found, w') \<and> same w w' \<and>
    distinct found \<and>
    set found = {x \<in> set ids. rooms (abs_via view w) (del_GameID x, del_RoomID x) \<noteq> None}"
proof -
  let ?m = "rooms_with_key info ids []"
  have m: "set ?m = (\<lambda>x. (id_key x, x)) ` set ids" and d: "distinct (map fst ?m)"
    using rooms_with_key_set [of "[]" info ids] by simp_all
  obtain w' where w': "drop_missing s now (range_in p ?m) ?m w =
      (filter (\<lambda>(k, _). k \<in> fst ` set (range_in p ?m) \<longrightarrow> view (store w) k \<noteq> None) ?m, w')" "same w w'"
    using drop_missing_spec by blast
  let ?found = "map snd (range_in q (filter (\<lambda>(k, _). k \<in> fst ` set (range_in p ?m) \<longrightarrow> view (store w) k \<noteq> None) ?m))"
  have "rooms (abs_via view w) (del_GameID x, del_RoomID x) \<noteq> None \<longleftrightarrow> view (store w) (id_key x) \<noteq> None" for x
    using ok by (simp add: abs_via_def ok_via_def abs_room_None id_key_def)
  then have "set ?found = {x \<in> set ids. rooms (abs_via view w) (del_GameID x, del_RoomID x) \<noteq> None}"
    by (auto simp: m image_iff) 
  moreover have "inj_on snd (set ?m)"
    by (auto simp: m inj_on_def)
  then have "distinct (map snd ?m)"
    using d by (simp add: distinct_map)
  then have "distinct ?found"
    by (simp add: distinct_map_filter)
  moreover have "GetDeletedRooms s p q now tok ids w = (Inr ?found, w')"
    by (simp only: GetDeletedRooms_def tok Let_def w'(1) sum.case prod.case)
  ultimately show ?thesis
    using w'(2) by blast
qed

end

end
