(* ===== verification/ServiceProps.thy ===== *)
theory ServiceProps
  imports ServiceSpec
begin

text \<open>
  The game service on the in-memory database: the interpretation of \<open>service_env\<close> on
  \<open>NewService\<close> with \<open>MemoryDb_ops\<close>, and the properties of the service that follow from it. The
  token parser, the number of processors and the map orders are arbitrary.
\<close>

interpretation sv: service_env "NewService parse MemoryDb_ops cpus mem" look db_ok
  for parse cpus mem
  by (simp add: service_env_def NewService_def rl.any_store_axioms)

definition abs_world :: "any MemoryDb world \<Rightarrow> spec_state" where
  "abs_world = abs_via look"

definition world_ok :: "any MemoryDb world \<Rightarrow> bool" where
  "world_ok = ok_via look db_ok"

definition new_world :: "duration \<Rightarrow> any MemoryDb world" where
  "new_world ttl = \<lparr>store = NewMemoryDb ttl, heap = []\<rparr>"

abbreviation mem_service :: "(time \<Rightarrow> string \<Rightarrow> error + Info) \<Rightarrow> go_int \<Rightarrow> uint64 \<Rightarrow> any MemoryDb service" where
  "mem_service parse cpus mem \<equiv> NewService parse MemoryDb_ops cpus mem"

lemma token_mem_service [simp]: "token (mem_service parse cpus mem) = parse"
  by (simp add: NewService_def)

lemma storage_mem_service [simp]: "storage (mem_service parse cpus mem) = MemoryDb_ops"
  by (simp add: NewService_def)

lemmas world_defs = abs_world_def world_ok_def

lemma new_world_ok [simp]: "world_ok (new_world ttl)"
  by (simp add: world_ok_def ok_via_def new_world_def)

lemma abs_new_world: "abs_world (new_world ttl) = \<lparr>sessions = Map.empty, rooms = Map.empty\<rparr>"
  by (simp add: abs_world_def abs_via_def new_world_def abs_of_def fun_eq_iff)

lemma sweep_world_ok:
  assumes "world_ok w"
  shows "world_ok (w\<lparr>store := removeOldData p q now (store w)\<rparr>)"
proof -
  have "look (removeOldData p q now (store w)) \<subseteq>\<^sub>m look (store w)"
    using assms by (intro removeOldData_look) (simp add: world_ok_def ok_via_def)
  then have "look (removeOldData p q now (store w)) k = Some v \<Longrightarrow> look (store w) k = Some v" for k v
    by (metis domI map_le_def)
  with assms show ?thesis
    by (auto simp: world_ok_def ok_via_def vals_ok_def)
qed

section \<open>Concrete data for the witnesses\<close>

definition ex_addr :: "nat \<Rightarrow> UDPConnection" where
  "ex_addr port = \<lparr>ClientAddr = \<lparr>IPText = ''10.0.0.1'', Port = port\<rparr>\<rparr>"

definition ex_info :: "uuid \<Rightarrow> Info" where
  "ex_info u = \<lparr>GameID = 1, RoomID = 2, UserID = u, TTL = 0\<rparr>"

text \<open>A token parser that knows two tokens, for two users of the same room.\<close>

definition ex_parse :: "time \<Rightarrow> string \<Rightarrow> error + Info" where
  "ex_parse now t =
     (if t = ''alice'' then Inr (ex_info 7) else if t = ''bob'' then Inr (ex_info 8)
      else Inl (ErrExternal ''invalid token type''))"

lemma ex_addr_inject [simp]: "ex_addr m = ex_addr n \<longleftrightarrow> m = n"
  by (simp add: ex_addr_def)

text \<open>Two clients in one room.\<close>

definition ex_pair_world :: "any MemoryDb world" where
  "ex_pair_world = snd (setNewUser (mem_service ex_parse 4 0) insertion_order 5 (ex_addr 2) ''bob''
     (snd (setNewUser (mem_service ex_parse 4 0) insertion_order 5 (ex_addr 1) ''alice'' (new_world 10))))"

lemma ex_join:
  assumes "world_ok w" and "ex_parse 5 tok = Inr i"
  shows "world_ok (snd (setNewUser (mem_service ex_parse 4 0) insertion_order 5 ds tok w))"
    and "abs_world (snd (setNewUser (mem_service ex_parse 4 0) insertion_order 5 ds tok w)) = spec_join ds i (abs_world w)"
  using sv.setNewUser_spec [where parse = ex_parse and cpus = 4 and mem = 0 and now = 5 and req = tok and p = insertion_order and ds = ds] assms
  by (simp_all add: world_defs case_prod_unfold Let_def)

lemma ex_tokens: "ex_parse now ''alice'' = Inr (ex_info 7)" "ex_parse now ''bob'' = Inr (ex_info 8)"
  by (simp_all add: ex_parse_def)

lemma ex_pair_world_ok: "world_ok ex_pair_world"
  unfolding ex_pair_world_def by (intro ex_join(1) [OF _ ex_tokens(2)] ex_join(1) [OF _ ex_tokens(1)] new_world_ok)

lemma abs_ex_pair_world:
  "abs_world ex_pair_world = \<lparr>sessions = [ex_addr 1 \<mapsto> ex_info 7, ex_addr 2 \<mapsto> ex_info 8],
     rooms = [(1, 2) \<mapsto> [7 \<mapsto> \<lparr>u_ID = 7, u_Connection = ex_addr 1\<rparr>, 8 \<mapsto> \<lparr>u_ID = 8, u_Connection = ex_addr 2\<rparr>]]\<rparr>"
  unfolding ex_pair_world_def
    ex_join(2) [OF ex_join(1) [OF new_world_ok ex_tokens(1)] ex_tokens(2)] ex_join(2) [OF new_world_ok ex_tokens(1)]
  by (simp add: abs_new_world spec_join_def members_or_empty_def room_of_def ex_info_def fun_eq_iff)

lemma ex_pair_sessions:
  "spec_session (abs_world ex_pair_world) (ex_addr 1) =
     Inr (ex_info 7, [7 \<mapsto> \<lparr>u_ID = 7, u_Connection = ex_addr 1\<rparr>, 8 \<mapsto> \<lparr>u_ID = 8, u_Connection = ex_addr 2\<rparr>])"
  "spec_session (abs_world ex_pair_world) (ex_addr 2) =
     Inr (ex_info 8, [7 \<mapsto> \<lparr>u_ID = 7, u_Connection = ex_addr 1\<rparr>, 8 \<mapsto> \<lparr>u_ID = 8, u_Connection = ex_addr 2\<rparr>])"
  unfolding abs_ex_pair_world by (simp_all add: room_of_def ex_info_def)

section \<open>Properties\<close>

text \<open>
  C12: the message handler implements the specification. A datagram from a connection without a
  live session is a handshake: a token that does not parse is refused and changes nothing, a
  token that parses joins the client to the room of its token and is answered with the user
  id. A datagram from a connection with a session is relayed unchanged to exactly the members
  of the sender's room other than the sender (datagrams as long as a token are answered with
  the user id instead), each once, and changes nothing. The invariant is kept, so the errors
  for values of a wrong type are never returned.
\<close>

theorem GetUsersAndMessage_refines:
  assumes "world_ok w"
  shows "let (r, w') = GetUsersAndMessage (mem_service parse cpus mem) p now ds req w in
    world_ok w' \<and>
    (case spec_session (abs_world w) ds of
       Inl _ \<Rightarrow>
         (case parse now req of
            Inl _ \<Rightarrow> r = Inl ErrNewConnectionMastGetToken \<and> abs_world w' = abs_world w
          | Inr i \<Rightarrow> r = Inr (reply_to_self ds i) \<and> abs_world w' = spec_join ds i (abs_world w))
     | Inr (i, m) \<Rightarrow>
         abs_world w' = abs_world w \<and>
         (if length req = 454 \<or> length req = 343 then r = Inr (reply_to_self ds i)
          else \<exists>users. r = Inr (users, req) \<and> distinct (map u_ID users) \<and>
                 set users = {u \<in> ran m. \<not> is_sender i ds u}))"
  using sv.GetUsersAndMessage_spec [where parse = parse and cpus = cpus and mem = mem, of w p now ds req] assms
  unfolding world_defs token_mem_service Let_def .

theorem GetUsersAndMessage_refines_witness:
  "world_ok (new_world 10) \<and>
   fst (GetUsersAndMessage (mem_service ex_parse 4 0) reversed_order 5 (ex_addr 1) ''alice'' (new_world 10)) =
     Inr (reply_to_self (ex_addr 1) (ex_info 7)) \<and>
   fst (GetUsersAndMessage (mem_service ex_parse 4 0) reversed_order 5 (ex_addr 1) ''eve'' (new_world 10)) =
     Inl ErrNewConnectionMastGetToken"
  using GetUsersAndMessage_refines [OF new_world_ok [of 10], where parse = ex_parse and cpus = 4 and mem = 0
      and p = reversed_order and now = 5 and ds = "ex_addr 1" and req = "''alice''"]
    GetUsersAndMessage_refines [OF new_world_ok [of 10], where parse = ex_parse and cpus = 4 and mem = 0
      and p = reversed_order and now = 5 and ds = "ex_addr 1" and req = "''eve''"]
  by (simp add: abs_new_world ex_parse_def case_prod_unfold Let_def)

text \<open>
  C20: creating a room. A token that does not parse is an error and changes nothing; a room that
  exists is reported and left as it is; otherwise the room of the token exists afterwards and is
  empty, and nothing else changed.
\<close>

theorem CreateRoom_refines:
  assumes "world_ok w"
  shows "let (err, w') = CreateRoom (mem_service parse cpus mem) now tok ttl w in
    world_ok w' \<and>
    (case parse now tok of
       Inl e \<Rightarrow> err = Some e \<and> w' = w
     | Inr i \<Rightarrow>
         if rooms (abs_world w) (room_of i) = None
         then err = None \<and> abs_world w' = spec_create i (abs_world w)
         else err = Some ErrRoomIsExists \<and> abs_world w' = abs_world w)"
proof (cases "parse now tok")
  case (Inl e)
  then show ?thesis
    using assms by (simp add: CreateRoom_def)
next
  case (Inr i)
  obtain err w' where eq: "CreateRoom (mem_service parse cpus mem) now tok ttl w = (err, w')"
    by force
  show ?thesis
    using sv.CreateRoom_spec [where parse = parse and cpus = cpus and mem = mem, of w now tok i ttl]
      sv.same_ok [where parse = parse and cpus = cpus and mem = mem, of w w']
      sv.same_abs [where parse = parse and cpus = cpus and mem = mem, of w w'] assms
    unfolding world_defs by (auto simp: Inr eq split: if_splits)
qed

theorem CreateRoom_refines_witness:
  "let (err, w1) = CreateRoom (mem_service ex_parse 4 0) 5 ''alice'' 0 (new_world 10);
       (err', w2) = CreateRoom (mem_service ex_parse 4 0) 6 ''bob'' 0 w1
   in err = None \<and> err' = Some ErrRoomIsExists \<and> world_ok w2 \<and>
      abs_world w2 = spec_create (ex_info 7) (abs_world (new_world 10))"
proof -
  obtain err w1 where 1: "CreateRoom (mem_service ex_parse 4 0) 5 ''alice'' 0 (new_world 10) = (err, w1)"
    by force
  have a: "err = None \<and> world_ok w1 \<and> abs_world w1 = spec_create (ex_info 7) (abs_world (new_world 10))"
    using CreateRoom_refines [OF new_world_ok [of 10], where parse = ex_parse and cpus = 4 and mem = 0
        and now = 5 and tok = "''alice''" and ttl = 0]
    by (simp add: 1 ex_parse_def abs_new_world)
  then have "world_ok w1" by simp
  from CreateRoom_refines [OF this, where parse = ex_parse and cpus = 4 and mem = 0
      and now = 6 and tok = "''bob''" and ttl = 0] a
  show ?thesis
    by (simp add: 1 ex_parse_def abs_new_world spec_create_def room_of_def ex_info_def case_prod_unfold Let_def)
qed

text \<open>
  C21: removing a user, in a call of \<^verbatim>\<open>RemoveUser\<close> that no other call interrupts, does not panic. When the
  connection has a session the user leaves the sender's room and no other room changes; otherwise the error of the
  session lookup is returned and nothing changes. (\<open>RemoveRace\<close> has calls that interrupt each other.)
\<close>

theorem RemoveUser_refines:
  assumes "world_ok w"
  shows "\<exists>err w'. RemoveUser (mem_service parse cpus mem) now ds uid w = Some (err, w') \<and> world_ok w' \<and>
    (case spec_session (abs_world w) ds of
       Inl e \<Rightarrow> err = Some e \<and> abs_world w' = abs_world w
     | Inr (i, m) \<Rightarrow> err = None \<and> abs_world w' = spec_leave i uid (abs_world w))"
  using sv.RemoveUser_spec [where parse = parse and cpus = cpus and mem = mem, of w now ds uid] assms
  unfolding world_defs .

theorem RemoveUser_refines_witness:
  "(\<exists>w'. RemoveUser (mem_service ex_parse 4 0) 6 (ex_addr 1) 7 (new_world 10) =
     Some (Some ErrUserNotFound, w') \<and> abs_world w' = abs_world (new_world 10)) \<and>
   (\<exists>w' m. RemoveUser (mem_service ex_parse 4 0) 6 (ex_addr 1) 8 ex_pair_world = Some (None, w') \<and>
     rooms (abs_world w') (1, 2) = Some m \<and> dom m = {7})"
proof
  show "\<exists>w'. RemoveUser (mem_service ex_parse 4 0) 6 (ex_addr 1) 7 (new_world 10) =
      Some (Some ErrUserNotFound, w') \<and> abs_world w' = abs_world (new_world 10)"
    using RemoveUser_refines [OF new_world_ok [of 10], where parse = ex_parse and cpus = 4 and mem = 0
        and now = 6 and ds = "ex_addr 1" and uid = 7]
    by (auto simp: abs_new_world)
  show "\<exists>w' m. RemoveUser (mem_service ex_parse 4 0) 6 (ex_addr 1) 8 ex_pair_world = Some (None, w') \<and>
      rooms (abs_world w') (1, 2) = Some m \<and> dom m = {7}"
    using RemoveUser_refines [OF ex_pair_world_ok, where parse = ex_parse and cpus = 4 and mem = 0
        and now = 6 and ds = "ex_addr 1" and uid = 8] ex_pair_sessions(1)
    by (auto simp: spec_leave_def members_or_empty_def room_of_def ex_info_def abs_ex_pair_world split: option.splits)
qed

text \<open>
  C22: \<^verbatim>\<open>GetDeletedRooms\<close> returns, for a token that parses, exactly the rooms among \<open>ids\<close> that are
  still stored, each once, in any order, and changes no value.
\<close>

theorem GetDeletedRooms_returns_existing:
  assumes "world_ok w" and "parse now tok = Inr info"
  shows "\<exists>found w'. GetDeletedRooms (mem_service parse cpus mem) p q now tok ids w = (Inr found, w') \<and>
    world_ok w' \<and> abs_world w' = abs_world w \<and> distinct found \<and>
    set found = {x \<in> set ids. rooms (abs_world w) (del_GameID x, del_RoomID x) \<noteq> None}"
proof -
  obtain found w' where "GetDeletedRooms (mem_service parse cpus mem) p q now tok ids w = (Inr found, w')"
    and "same_values (mem_service parse cpus mem) look db_ok w w'" and "distinct found"
    and "set found = {x \<in> set ids. rooms (abs_world w) (del_GameID x, del_RoomID x) \<noteq> None}"
    using sv.GetDeletedRooms_spec [where parse = parse and cpus = cpus and mem = mem,
        of w now tok info p q ids] assms
    unfolding world_defs by auto
  moreover from this(2) assms(1) have "world_ok w'" and "abs_world w' = abs_world w"
    unfolding world_defs by (auto intro: sv.same_ok sv.same_abs)
  ultimately show ?thesis by blast
qed

theorem GetDeletedRooms_returns_existing_witness:
  "\<exists>found w'. GetDeletedRooms (mem_service ex_parse 4 0) reversed_order insertion_order 6 ''bob''
       [\<lparr>del_GameID = 1, del_RoomID = 2\<rparr>, \<lparr>del_GameID = 1, del_RoomID = 3\<rparr>]
       (snd (CreateRoom (mem_service ex_parse 4 0) 5 ''alice'' 0 (new_world 10))) = (Inr found, w') \<and>
     found = [\<lparr>del_GameID = 1, del_RoomID = 2\<rparr>]"
proof -
  let ?w = "snd (CreateRoom (mem_service ex_parse 4 0) 5 ''alice'' 0 (new_world 10))"
  have "ok_via look db_ok (new_world 10)" "token (mem_service ex_parse 4 0) 5 ''alice'' = Inr (ex_info 7)"
    using new_world_ok [of 10] by (simp_all add: world_ok_def ex_parse_def)
  note C = sv.CreateRoom_spec [OF this, of 0, folded world_defs, unfolded abs_new_world]
  have ok: "world_ok ?w" and w: "abs_world ?w = spec_create (ex_info 7) (abs_world (new_world 10))"
    using C by (simp_all add: abs_new_world case_prod_unfold Let_def)
  have abs: "rooms (abs_world ?w) (g, r) \<noteq> None \<longleftrightarrow> g = 1 \<and> r = 2" for g r
    by (simp add: w abs_new_world spec_create_def room_of_def ex_info_def)
  have ids: "{x \<in> set [\<lparr>del_GameID = 1, del_RoomID = 2\<rparr>, \<lparr>del_GameID = 1, del_RoomID = 3\<rparr>].
      del_GameID x = 1 \<and> del_RoomID x = 2} = {\<lparr>del_GameID = (1::uuid), del_RoomID = (2::uuid)\<rparr>}"
    by auto
  have parse: "ex_parse 6 ''bob'' = Inr (ex_info 8)"
    by (simp add: ex_parse_def)
  obtain found w' where f: "GetDeletedRooms (mem_service ex_parse 4 0) reversed_order insertion_order 6 ''bob''
      [\<lparr>del_GameID = 1, del_RoomID = 2\<rparr>, \<lparr>del_GameID = 1, del_RoomID = 3\<rparr>] ?w = (Inr found, w')"
    and "distinct found" "set found = {\<lparr>del_GameID = 1, del_RoomID = 2\<rparr>}"
    using GetDeletedRooms_returns_existing [where parse = ex_parse and cpus = 4 and mem = 0
        and p = reversed_order and q = insertion_order, OF ok parse,
        of "[\<lparr>del_GameID = 1, del_RoomID = 2\<rparr>, \<lparr>del_GameID = 1, del_RoomID = 3\<rparr>]"]
    unfolding abs ids by blast
  then have "found = [\<lparr>del_GameID = 1, del_RoomID = 2\<rparr>]"
    by (cases found; cases "tl found") auto
  with f show ?thesis by blast
qed

lemmas handshake_spec = sv.GetUsersAndMessage_spec [folded world_defs, unfolded token_mem_service Let_def]

lemma handshake:
  assumes "world_ok w" and "sessions (abs_world w) ds = None" and "parse now tok = Inr i"
  obtains w' where "GetUsersAndMessage (mem_service parse cpus mem) p now ds tok w = (Inr (reply_to_self ds i), w')"
    and "world_ok w'" and "abs_world w' = spec_join ds i (abs_world w)"
  using handshake_spec [OF assms(1), where parse = parse and cpus = cpus and mem = mem and p = p
      and now = now and ds = ds and req = tok] assms(2,3) that
  by (auto split: prod.splits)

text \<open>
  Two clients of one room reach each other. After both have sent their tokens from
  connections without a session, every datagram of the first (not as long as a token) is
  relayed unchanged, the second client is among the recipients, the sender is not, and every
  recipient is a member of that room.
\<close>

theorem two_clients_exchange:
  assumes "world_ok w" and "sessions (abs_world w) A = None" and "sessions (abs_world w) B = None"
    and "A \<noteq> B" and "parse now ta = Inr iA" and "parse now tb = Inr iB"
    and "room_of iA = room_of iB" and "UserID iA \<noteq> UserID iB"
    and "length req \<noteq> 454" and "length req \<noteq> 343"
  shows "let srv = mem_service parse cpus mem;
    w1 = snd (GetUsersAndMessage srv p now A ta w);
    w2 = snd (GetUsersAndMessage srv q now B tb w1);
    r = fst (GetUsersAndMessage srv o' now A req w2) in
    \<exists>users m. r = Inr (users, req) \<and> rooms (abs_world w2) (room_of iA) = Some m \<and>
      \<lparr>u_ID = UserID iB, u_Connection = B\<rparr> \<in> set users \<and>
      \<lparr>u_ID = UserID iA, u_Connection = A\<rparr> \<notin> set users \<and> set users \<subseteq> ran m"
proof -
  let ?srv = "mem_service parse cpus mem"
  obtain w1 where w1: "snd (GetUsersAndMessage ?srv p now A ta w) = w1" "world_ok w1"
      "abs_world w1 = spec_join A iA (abs_world w)"
    by (rule handshake [of w A parse now ta iA cpus mem p, OF assms(1,2,5)]) auto
  then have "sessions (abs_world w1) B = None"
    using assms(3,4) by (simp add: spec_join_def)
  then obtain w2 where w2: "snd (GetUsersAndMessage ?srv q now B tb w1) = w2" "world_ok w2"
      "abs_world w2 = spec_join B iB (abs_world w1)"
    by (rule handshake [of w1 B parse now tb iB cpus mem q, OF w1(2) _ assms(6)]) auto
  let ?B = "\<lparr>u_ID = UserID iB, u_Connection = B\<rparr>" and ?A = "\<lparr>u_ID = UserID iA, u_Connection = A\<rparr>"
  obtain m where m: "rooms (abs_world w2) (room_of iA) = Some m" "m (UserID iB) = Some ?B"
    using assms(7) by (simp add: w2(3) spec_join_def)
  have ses: "spec_session (abs_world w2) A = Inr (iA, m)"
    using m assms(4) by (simp add: w2(3) w1(3) spec_join_def)
  obtain users where "fst (GetUsersAndMessage ?srv o' now A req w2) = Inr (users, req)"
    "set users = {u \<in> ran m. \<not> is_sender iA A u}"
    using handshake_spec [OF w2(2), where parse = parse and cpus = cpus and mem = mem and p = o'
        and now = now and ds = A and req = req] assms(9,10)
    unfolding ses by (auto split: prod.splits)
  then show ?thesis
    using m assms(8) ranI [of m "UserID iB" ?B, OF m(2)] by (auto simp: Let_def w1(1) w2(1) is_sender_def)
qed

theorem two_clients_exchange_witness:
  "let srv = mem_service ex_parse 4 0;
    w1 = snd (GetUsersAndMessage srv insertion_order 5 (ex_addr 1) ''alice'' (new_world 10));
    w2 = snd (GetUsersAndMessage srv reversed_order 5 (ex_addr 2) ''bob'' w1);
    r = fst (GetUsersAndMessage srv insertion_order 5 (ex_addr 1) ''hello'' w2) in
    \<exists>users m. r = Inr (users, ''hello'') \<and> rooms (abs_world w2) (room_of (ex_info 7)) = Some m \<and>
      \<lparr>u_ID = 8, u_Connection = ex_addr 2\<rparr> \<in> set users \<and>
      \<lparr>u_ID = 7, u_Connection = ex_addr 1\<rparr> \<notin> set users \<and> set users \<subseteq> ran m"
proof -
  have "sessions (abs_world (new_world 10)) d = None" for d
    by (simp add: abs_new_world)
  moreover have "ex_addr 1 \<noteq> ex_addr 2" "ex_parse 5 ''alice'' = Inr (ex_info 7)"
    "ex_parse 5 ''bob'' = Inr (ex_info 8)" "room_of (ex_info 7) = room_of (ex_info 8)"
    "UserID (ex_info 7) \<noteq> UserID (ex_info 8)" "length ''hello'' \<noteq> 454" "length ''hello'' \<noteq> 343"
    by (simp_all add: ex_parse_def room_of_def ex_info_def)
  moreover have "UserID (ex_info 8) = 8" "UserID (ex_info 7) = 7"
    by (simp_all add: ex_info_def)
  ultimately show ?thesis
    using two_clients_exchange [OF new_world_ok [of 10], where parse = ex_parse and cpus = 4 and mem = 0
        and A = "ex_addr 1" and B = "ex_addr 2" and now = 5 and ta = "''alice''" and tb = "''bob''"
        and iA = "ex_info 7" and iB = "ex_info 8" and req = "''hello''" and p = insertion_order
        and q = reversed_order and o' = insertion_order]
    by metis
qed

text \<open>
  The capacity report. With between 0 and 9223372036854775 processors, the service reports
  room for more connections exactly when its counter, read as a signed number, is neither
  negative nor as large as a thousand times the number of processors.
\<close>

theorem GetConnectionsNum_capacity:
  assumes "0 \<le> sint cpus" and "sint cpus \<le> 9223372036854775"
  shows "GetConnectionsNum (mem_service parse cpus mem) w =
    (CountConnection (store w),
     0 \<le> sint (CountConnection (store w)) \<and> sint (CountConnection (store w)) < 1000 * sint cpus)"
proof -
  let ?c = "CountConnection (store w)" and ?m = "CountConnectionsMAX cpus mem"
  have m: "sint ?m = 1000 * sint cpus"
    by (rule CountConnectionsMAX_value [OF assms])
  have "?m \<le> ?c \<longleftrightarrow> \<not> (0 \<le> sint ?c \<and> sint ?c < 1000 * sint cpus)"
    using m assms(1) uint_sint_cases [of ?c] uint_sint_cases [of ?m] sint64_bounds [of ?c]
      sint64_bounds [of ?m]
    by (auto simp: word_le_def)
  then show ?thesis
    by (auto simp: GetConnectionsNum_def NewService_def MemoryDb_ops_def Let_def)
qed

theorem GetConnectionsNum_capacity_witness:
  "GetConnectionsNum (mem_service ex_parse 4 0) (new_world 10) = (0, True) \<and>
   GetConnectionsNum (mem_service ex_parse 4 0)
     ((new_world 10)\<lparr>store := RemoveConnection ''x'' (NewMemoryDb 10)\<rparr>) = (- 1, False)"
  using GetConnectionsNum_capacity [of 4 ex_parse 0 "new_world 10"]
    GetConnectionsNum_capacity [of 4 ex_parse 0 "(new_world 10)\<lparr>store := RemoveConnection ''x'' (NewMemoryDb 10)\<rparr>"]
  by (simp add: new_world_def NewMemoryDb_def CountConnection_def RemoveConnection_def)

end
