(* ===== verification/TcpHandler.thy ===== *)
theory TcpHandler
  imports ServiceProps
begin

text \<open>
  The service settings handlers of \<^verbatim>\<open>internal/handler/tcp/server_settings.go\<close>: each asks the rate
  limiter first (except \<^verbatim>\<open>GetDeletedRooms\<close>) and calls the game service. The handlers share the
  database of the service, and the database of the limiter, with the UDP side.
\<close>

section \<open>State and handlers\<close>

record 'db app =
  world :: "'db world"
  limits :: 'db

text \<open>
  The interface value \<^verbatim>\<open>utils.RateLimit\<close> is its only method: \<^verbatim>\<open>IsLimited\<close> at the current time, on
  the limiter's database.
\<close>

type_synonym 'db RateLimit = "time \<Rightarrow> string \<Rightarrow> 'db \<Rightarrow> bool \<times> 'db"

definition NewRateLimit :: "go_int \<Rightarrow> ('db, any) IMemoryDB \<Rightarrow> 'db RateLimit" where
  "NewRateLimit limit ops = IsLimited ops limit"

record 'db ServerSettings =
  ss_rateLimit :: "'db RateLimit"
  ss_server :: "'db service"

definition NewServerSettings :: "'db RateLimit \<Rightarrow> 'db service \<Rightarrow> 'db ServerSettings" where
  "NewServerSettings rateLimit server = \<lparr>ss_rateLimit = rateLimit, ss_server = server\<rparr>"

text \<open>The first lines of a handler: \<^verbatim>\<open>limited := r.rateLimit.IsLimited(token)\<close>.\<close>

definition check_limit :: "'db RateLimit \<Rightarrow> time \<Rightarrow> string \<Rightarrow> 'db app \<Rightarrow> bool \<times> 'db app" where
  "check_limit lim now key st =
     (let (limited, l) = lim now key (limits st) in (limited, st\<lparr>limits := l\<rparr>))"

definition tcp_GetConnectionsNum ::
    "'db ServerSettings \<Rightarrow> time \<Rightarrow> string \<Rightarrow> 'db app \<Rightarrow> (error + go_int \<times> bool) \<times> 'db app" where
  "tcp_GetConnectionsNum r now tok st =
     (let (limited, st1) = check_limit (ss_rateLimit r) now tok st
      in if limited then (Inl ErrTooManyRequests, st1)
         else (Inr (GetConnectionsNum (ss_server r) (world st1)), st1))"

definition tcp_HealthCheck ::
    "'db ServerSettings \<Rightarrow> time \<Rightarrow> string \<Rightarrow> 'db app \<Rightarrow> (error + bool) \<times> 'db app" where
  "tcp_HealthCheck r now tok st =
     (let (limited, st1) = check_limit (ss_rateLimit r) now tok st
      in if limited then (Inl ErrTooManyRequests, st1) else (Inr True, st1))"

definition tcp_GetServerSettings ::
    "'db ServerSettings \<Rightarrow> go_int \<Rightarrow> uint64 \<Rightarrow> time \<Rightarrow> string \<Rightarrow> 'db app \<Rightarrow> (error + Settings) \<times> 'db app" where
  "tcp_GetServerSettings r numCPUs memSys now tok st =
     (let (limited, st1) = check_limit (ss_rateLimit r) now tok st
      in if limited then (Inl ErrTooManyRequests, st1) else (Inr (NewSettings numCPUs memSys), st1))"

definition tcp_CreateRoom ::
    "'db ServerSettings \<Rightarrow> time \<Rightarrow> string \<Rightarrow> duration \<Rightarrow> 'db app \<Rightarrow> error option \<times> 'db app" where
  "tcp_CreateRoom r now tok roomTTl st =
     (let (limited, st1) = check_limit (ss_rateLimit r) now tok st
      in if limited then (Some ErrTooManyRequests, st1)
         else (let (err, w) = CreateRoom (ss_server r) now tok roomTTl (world st1)
               in (err, st1\<lparr>world := w\<rparr>)))"

definition tcp_GetDeletedRooms ::
    "'db ServerSettings \<Rightarrow> (string \<times> GetDeletedRooms_id) range_order \<Rightarrow>
     (string \<times> GetDeletedRooms_id) range_order \<Rightarrow> time \<Rightarrow> string \<Rightarrow> GetDeletedRooms_id list \<Rightarrow>
     'db app \<Rightarrow> (error + GetDeletedRooms_id list) \<times> 'db app" where
  "tcp_GetDeletedRooms r p q now tok ids st =
     (let (res, w) = GetDeletedRooms (ss_server r) p q now tok ids (world st)
      in (res, st\<lparr>world := w\<rparr>))"

lemmas tcp_defs = tcp_GetConnectionsNum_def tcp_HealthCheck_def tcp_GetServerSettings_def
  tcp_CreateRoom_def tcp_GetDeletedRooms_def

section \<open>The state the handlers share\<close>

text \<open>
  The invariant of the shared state: the game state is well formed, and no stored row of the
  limiter counts a request.
\<close>

definition app_ok :: "any MemoryDb app \<Rightarrow> bool" where
  "app_ok st \<longleftrightarrow> world_ok (world st) \<and> db_ok (limits st) \<and> fresh_rows (look (limits st))"

definition new_app :: "duration \<Rightarrow> any MemoryDb app" where
  "new_app ttl = \<lparr>world = new_world ttl, limits = NewMemoryDb 1\<rparr>"

lemma new_app_ok [simp]: "app_ok (new_app ttl)"
  by (simp add: app_ok_def new_app_def fresh_rows_def limiter_row_def)

lemma app_ok_world: "app_ok st \<Longrightarrow> world_ok w \<Longrightarrow> app_ok (st\<lparr>world := w\<rparr>)"
  by (simp add: app_ok_def)

lemma fresh_rows_submap: "m \<subseteq>\<^sub>m m' \<Longrightarrow> fresh_rows m' \<Longrightarrow> fresh_rows m"
  by (auto simp: fresh_rows_def limiter_row_def map_le_def dom_def split: option.splits any.splits)

lemma sweep_limits_ok:
  "app_ok st \<Longrightarrow> app_ok (st\<lparr>limits := removeOldData p q now (limits st)\<rparr>)"
  using fresh_rows_submap [OF removeOldData_look] by (simp add: app_ok_def)

lemma sweep_data_ok:
  "app_ok st \<Longrightarrow> app_ok (st\<lparr>world := (world st)\<lparr>store := removeOldData p q now (store (world st))\<rparr>\<rparr>)"
  by (simp add: app_ok_def sweep_world_ok)

lemma check_limit_ok:
  assumes "app_ok st" and "0 < now" and "0 <s lim"
  obtains l where "check_limit (NewRateLimit lim MemoryDb_ops) now key st = (False, st\<lparr>limits := l\<rparr>)"
    and "app_ok (st\<lparr>limits := l\<rparr>)"
proof -
  obtain b l where eq: "IsLimited MemoryDb_ops lim now key (limits st) = (b, l)"
    by force
  then have "b = False" "fresh_rows (look l)" "db_ok l"
    using assms rl.IsLimited_fresh [of "limits st" now lim key] rl.IsLimited_invar [of "limits st" lim now key]
    by (auto simp: app_ok_def)
  with eq assms(1) show thesis
    by (intro that [of l]) (auto simp: check_limit_def NewRateLimit_def app_ok_def)
qed

abbreviation mem_settings ::
    "(time \<Rightarrow> string \<Rightarrow> error + Info) \<Rightarrow> go_int \<Rightarrow> uint64 \<Rightarrow> go_int \<Rightarrow> any MemoryDb ServerSettings" where
  "mem_settings parse cpus mem lim \<equiv>
     NewServerSettings (NewRateLimit lim MemoryDb_ops) (mem_service parse cpus mem)"

lemma mem_settings_sel [simp]:
  "ss_rateLimit (NewServerSettings l s) = l" "ss_server (NewServerSettings l s) = s"
  by (simp_all add: NewServerSettings_def)

lemma CreateRoom_world_ok:
  assumes "world_ok w"
  shows "world_ok (snd (CreateRoom (mem_service parse cpus mem) now tok ttl w))"
proof (cases "parse now tok")
  case (Inr i)
  then show ?thesis
    using sv.CreateRoom_spec [where parse = parse and cpus = cpus and mem = mem, of w now tok i ttl] assms
    by (auto simp: world_ok_def intro: sv.same_ok split: prod.splits if_splits)
qed (simp add: CreateRoom_def assms)

lemma GetDeletedRooms_world_ok:
  assumes "world_ok w"
  shows "world_ok (snd (GetDeletedRooms (mem_service parse cpus mem) p q now tok ids w))"
proof (cases "parse now tok")
  case (Inr i)
  then show ?thesis
    using sv.GetDeletedRooms_spec [where parse = parse and cpus = cpus and mem = mem, of w now tok i p q ids] assms
    unfolding world_ok_def by (auto intro: sv.same_ok)
qed (simp add: GetDeletedRooms_def assms)

lemma tcp_ok:
  assumes "app_ok st" and "0 < now" and "0 <s lim"
  shows "app_ok (snd (tcp_GetConnectionsNum (mem_settings parse cpus mem lim) now tok st))"
    "app_ok (snd (tcp_HealthCheck (mem_settings parse cpus mem lim) now tok st))"
    "app_ok (snd (tcp_GetServerSettings (mem_settings parse cpus mem lim) c m now tok st))"
    "app_ok (snd (tcp_CreateRoom (mem_settings parse cpus mem lim) now tok ttl st))"
    "app_ok (snd (tcp_GetDeletedRooms (mem_settings parse cpus mem lim) p q now tok ids st))"
proof -
  obtain l where l: "check_limit (NewRateLimit lim MemoryDb_ops) now tok st = (False, st\<lparr>limits := l\<rparr>)"
    "app_ok (st\<lparr>limits := l\<rparr>)"
    by (rule check_limit_ok [OF assms])
  have w: "world_ok (world st)"
    using assms(1) by (simp add: app_ok_def)
  show "app_ok (snd (tcp_GetConnectionsNum (mem_settings parse cpus mem lim) now tok st))"
    "app_ok (snd (tcp_HealthCheck (mem_settings parse cpus mem lim) now tok st))"
    "app_ok (snd (tcp_GetServerSettings (mem_settings parse cpus mem lim) c m now tok st))"
    using l by (simp_all add: tcp_defs)
  show "app_ok (snd (tcp_CreateRoom (mem_settings parse cpus mem lim) now tok ttl st))"
    using l CreateRoom_world_ok [OF w] by (simp add: tcp_defs case_prod_unfold Let_def app_ok_world app_ok_def)
  show "app_ok (snd (tcp_GetDeletedRooms (mem_settings parse cpus mem lim) p q now tok ids st))"
    using assms(1) GetDeletedRooms_world_ok [OF w] by (simp add: tcp_defs case_prod_unfold Let_def app_ok_world)
qed

section \<open>Properties\<close>

text \<open>
  The TCP handlers never answer "too many requests". In every state the server can be in,
  at any time after the zero time and with any positive limit, each handler answers exactly
  what the service answers, and changes the game state exactly as the service does.
\<close>

theorem tcp_handlers_never_limit:
  assumes "app_ok st" and "0 < now" and "0 <s lim"
  shows "let r = mem_settings parse cpus mem lim; s = mem_service parse cpus mem in
    fst (tcp_GetConnectionsNum r now tok st) = Inr (GetConnectionsNum s (world st)) \<and>
    fst (tcp_HealthCheck r now tok st) = Inr True \<and>
    fst (tcp_GetServerSettings r c m now tok st) = Inr (NewSettings c m) \<and>
    fst (tcp_CreateRoom r now tok ttl st) = fst (CreateRoom s now tok ttl (world st)) \<and>
    world (snd (tcp_CreateRoom r now tok ttl st)) = snd (CreateRoom s now tok ttl (world st)) \<and>
    world (snd (tcp_GetConnectionsNum r now tok st)) = world st \<and>
    world (snd (tcp_HealthCheck r now tok st)) = world st \<and>
    world (snd (tcp_GetServerSettings r c m now tok st)) = world st"
proof -
  obtain l where "check_limit (NewRateLimit lim MemoryDb_ops) now tok st = (False, st\<lparr>limits := l\<rparr>)"
    by (rule check_limit_ok [OF assms])
  then show ?thesis
    by (simp add: tcp_defs case_prod_unfold Let_def)
qed

theorem tcp_handlers_never_limit_witness:
  "fst (tcp_HealthCheck (mem_settings ex_parse 4 0 10) 5 ''alice'' (new_app 10)) = Inr True \<and>
   fst (tcp_CreateRoom (mem_settings ex_parse 4 0 10) 5 ''eve'' 0 (new_app 10)) =
     Some (ErrExternal ''invalid token type'')"
  using tcp_handlers_never_limit [OF new_app_ok [of 10], where now = 5 and lim = 10 and parse = ex_parse
      and cpus = 4 and mem = 0 and tok = "''alice''"]
    tcp_handlers_never_limit [OF new_app_ok [of 10], where now = 5 and lim = 10 and parse = ex_parse
      and cpus = 4 and mem = 0 and tok = "''eve''" and ttl = 0]
  by (simp add: Let_def word_sless_alt CreateRoom_def ex_parse_def)

end
