(* ===== verification/JsonRpc.thy ===== *)
theory JsonRpc
  imports TcpHandler
begin

text \<open>
  The JSON-RPC transport of \<^verbatim>\<open>pkg/transport\<close>: \<^verbatim>\<open>jsonrpc.go\<close> (the server-wide endpoint) and
  \<^verbatim>\<open>serversettings-jsonrpc.go\<close> (the endpoints of the settings service), with the exchange types and
  the wrappers of the service.

  A request body is the JSON value it encodes (or \<open>None\<close> for text that is not JSON); decoding
  follows \<^verbatim>\<open>encoding/json\<close>: keys match without regard to case, unknown keys are skipped, null
  leaves a field as it is, a later key wins, and a value of a wrong type makes the call fail.
  (Go keeps parts of an earlier array when the key \<^verbatim>\<open>ids\<close> is repeated; the model replaces it.)
  Letters are ASCII: the case folding of other letters is not modelled. Tracing and logging are
  in theory Middleware. The texts of decoding errors and the decoding of UUIDs
  are arguments.
\<close>

section \<open>JSON values and decoding\<close>

datatype json =
    JNull
  | JBool bool
  | JInt int
  | JNumber string
  | JStr string
  | JArr "json list"
  | JObj "(string \<times> json) list"

definition to_lower :: "char \<Rightarrow> char" where
  "to_lower c =
     (if 65 \<le> (of_char c :: nat) \<and> (of_char c :: nat) \<le> 90 then char_of (of_char c + 32 :: nat) else c)"

definition ToLower :: "string \<Rightarrow> string" where
  "ToLower s = map to_lower s"

definition EqualFold :: "string \<Rightarrow> string \<Rightarrow> bool" where
  "EqualFold s t \<longleftrightarrow> ToLower s = ToLower t"

text \<open>
  Decoding into a struct: the keys of the object in order, each handled by the struct's table
  of fields; \<open>None\<close> is a decoding error.
\<close>

type_synonym 's field = "string \<times> (json \<Rightarrow> 's \<Rightarrow> 's option)"

fun find_field :: "'s field list \<Rightarrow> string \<Rightarrow> (json \<Rightarrow> 's \<Rightarrow> 's option) option" where
  "find_field [] k = None"
| "find_field ((name, f) # fs) k = (if EqualFold name k then Some f else find_field fs k)"

fun decode_fields :: "'s field list \<Rightarrow> (string \<times> json) list \<Rightarrow> 's \<Rightarrow> 's option" where
  "decode_fields fs [] s = Some s"
| "decode_fields fs ((k, v) # kvs) s =
     (case find_field fs k of
        None \<Rightarrow> decode_fields fs kvs s
      | Some f \<Rightarrow> (case f v s of None \<Rightarrow> None | Some s' \<Rightarrow> decode_fields fs kvs s'))"

fun decode_struct :: "'s field list \<Rightarrow> json \<Rightarrow> 's \<Rightarrow> 's option" where
  "decode_struct fs (JObj kvs) s = decode_fields fs kvs s"
| "decode_struct fs JNull s = Some s"
| "decode_struct fs _ s = None"

fun decode_string :: "(string \<Rightarrow> 's \<Rightarrow> 's) \<Rightarrow> json \<Rightarrow> 's \<Rightarrow> 's option" where
  "decode_string upd (JStr t) s = Some (upd t s)"
| "decode_string upd JNull s = Some s"
| "decode_string upd _ s = None"

fun decode_int64 :: "(64 word \<Rightarrow> 's \<Rightarrow> 's) \<Rightarrow> json \<Rightarrow> 's \<Rightarrow> 's option" where
  "decode_int64 upd (JInt i) s =
     (if - (2 ^ 63) \<le> i \<and> i < 2 ^ 63 then Some (upd (word_of_int i) s) else None)"
| "decode_int64 upd JNull s = Some s"
| "decode_int64 upd _ s = None"

definition decode_raw :: "(json \<Rightarrow> 's \<Rightarrow> 's) \<Rightarrow> json \<Rightarrow> 's \<Rightarrow> 's option" where
  "decode_raw upd v s = Some (upd v s)"

section \<open>Messages\<close>

definition Version :: string where "Version = ''2.0''"
definition parseError :: int where "parseError = - 32700"
definition invalidRequestError :: int where "invalidRequestError = - 32600"
definition methodNotFoundError :: int where "methodNotFoundError = - 32601"
definition invalidParamsError :: int where "invalidParamsError = - 32602"
definition internalError :: int where "internalError = - 32603"
definition defaultMaxBatchSize :: go_int where "defaultMaxBatchSize = 100"
definition defaultMaxParallelBatch :: go_int where "defaultMaxParallelBatch = 10"

text \<open>
  The data of an error response is the Go error itself; that of a decoded error object is JSON.
\<close>

datatype error_data = DataJson json | DataError error

record errorJsonRPC =
  err_Code :: int
  err_Message :: string
  err_Data :: "error_data option"

text \<open>
  \<^verbatim>\<open>baseJsonRPC\<close>. The raw messages \<^verbatim>\<open>ID\<close>, \<^verbatim>\<open>Params\<close> and \<^verbatim>\<open>Result\<close> are nil (\<open>None\<close>) or a JSON value; an
  explicit null in a request is a value, not nil.
\<close>

record baseJsonRPC =
  rpc_ID :: "json option"
  rpc_Version :: string
  rpc_Method :: string
  rpc_Error :: "errorJsonRPC option"
  rpc_Params :: "json option"
  rpc_Result :: "json option"

definition zero_base :: baseJsonRPC where
  "zero_base = \<lparr>rpc_ID = None, rpc_Version = [], rpc_Method = [], rpc_Error = None, rpc_Params = None, rpc_Result = None\<rparr>"

definition error_fields :: "errorJsonRPC field list" where
  "error_fields =
     [(''code'', decode_int64 (\<lambda>i e. e\<lparr>err_Code := sint i\<rparr>)),
      (''message'', decode_string (\<lambda>t e. e\<lparr>err_Message := t\<rparr>)),
      (''data'', decode_raw (\<lambda>v e. e\<lparr>err_Data := (if v = JNull then None else Some (DataJson v))\<rparr>))]"

definition decode_error :: "json \<Rightarrow> baseJsonRPC \<Rightarrow> baseJsonRPC option" where
  "decode_error v r =
     (if v = JNull then Some (r\<lparr>rpc_Error := None\<rparr>)
      else map_option (\<lambda>e. r\<lparr>rpc_Error := Some e\<rparr>)
        (decode_struct error_fields v
          (case rpc_Error r of None \<Rightarrow> \<lparr>err_Code = 0, err_Message = [], err_Data = None\<rparr> | Some e \<Rightarrow> e)))"

definition base_fields :: "baseJsonRPC field list" where
  "base_fields =
     [(''id'', decode_raw (\<lambda>v r. r\<lparr>rpc_ID := Some v\<rparr>)),
      (''jsonrpc'', decode_string (\<lambda>t r. r\<lparr>rpc_Version := t\<rparr>)),
      (''method'', decode_string (\<lambda>t r. r\<lparr>rpc_Method := t\<rparr>)),
      (''error'', decode_error),
      (''params'', decode_raw (\<lambda>v r. r\<lparr>rpc_Params := Some v\<rparr>)),
      (''result'', decode_raw (\<lambda>v r. r\<lparr>rpc_Result := Some v\<rparr>))]"

definition decode_base :: "json \<Rightarrow> baseJsonRPC option" where
  "decode_base v = decode_struct base_fields v zero_base"

fun decode_all :: "(json \<Rightarrow> 'a option) \<Rightarrow> json list \<Rightarrow> 'a list option" where
  "decode_all f [] = Some []"
| "decode_all f (v # vs) =
     (case f v of None \<Rightarrow> None | Some x \<Rightarrow> map_option (Cons x) (decode_all f vs))"

fun decode_requests :: "json \<Rightarrow> baseJsonRPC list option" where
  "decode_requests (JArr vs) = decode_all decode_base vs"
| "decode_requests JNull = Some []"
| "decode_requests _ = None"

definition makeErrorResponseJsonRPC ::
    "json option \<Rightarrow> int \<Rightarrow> string \<Rightarrow> error_data option \<Rightarrow> baseJsonRPC option" where
  "makeErrorResponseJsonRPC i code msg data =
     (if i = None then None
      else Some (zero_base
        \<lparr>rpc_Error := Some \<lparr>err_Code = code, err_Message = msg, err_Data = data\<rparr>,
         rpc_ID := i, rpc_Version := Version\<rparr>))"

definition responses_append :: "baseJsonRPC list \<Rightarrow> baseJsonRPC option \<Rightarrow> baseJsonRPC list" where
  "responses_append responses response =
     (case response of
        None \<Rightarrow> responses
      | Some r \<Rightarrow> if rpc_ID r \<noteq> None then responses @ [r] else responses)"

section \<open>Exchange types\<close>

record requestToken =
  req_Token :: string

record requestServerSettingsCreateRoom =
  cr_Token :: string
  cr_RoomTTl :: duration

record requestServerSettingsGetDeletedRooms =
  gd_Token :: string
  gd_Ids :: "GetDeletedRooms_id list"

definition token_fields :: "requestToken field list" where
  "token_fields = [(''token'', decode_string (\<lambda>t r. r\<lparr>req_Token := t\<rparr>))]"

definition createRoom_fields :: "requestServerSettingsCreateRoom field list" where
  "createRoom_fields =
     [(''token'', decode_string (\<lambda>t r. r\<lparr>cr_Token := t\<rparr>)),
      (''createRoom'', decode_struct [(''roomTTl'', decode_int64 (\<lambda>i r. r\<lparr>cr_RoomTTl := i\<rparr>))])]"

text \<open>A UUID is decoded from its text by the \<^verbatim>\<open>uuid\<close> package (\<open>puuid\<close>); null leaves it as it is.\<close>

fun decode_uuid :: "(string \<Rightarrow> uuid option) \<Rightarrow> (uuid \<Rightarrow> 's \<Rightarrow> 's) \<Rightarrow> json \<Rightarrow> 's \<Rightarrow> 's option" where
  "decode_uuid puuid upd (JStr t) s = map_option (\<lambda>u. upd u s) (puuid t)"
| "decode_uuid puuid upd JNull s = Some s"
| "decode_uuid puuid upd _ s = None"

definition room_id_fields :: "(string \<Rightarrow> uuid option) \<Rightarrow> GetDeletedRooms_id field list" where
  "room_id_fields puuid =
     [(''gameID'', decode_uuid puuid (\<lambda>u r. r\<lparr>del_GameID := u\<rparr>)),
      (''roomID'', decode_uuid puuid (\<lambda>u r. r\<lparr>del_RoomID := u\<rparr>))]"

fun decode_ids ::
    "(string \<Rightarrow> uuid option) \<Rightarrow> json \<Rightarrow> requestServerSettingsGetDeletedRooms \<Rightarrow>
     requestServerSettingsGetDeletedRooms option" where
  "decode_ids puuid (JArr vs) r =
     map_option (\<lambda>ids. r\<lparr>gd_Ids := ids\<rparr>)
       (decode_all (\<lambda>v. decode_struct (room_id_fields puuid) v \<lparr>del_GameID = 0, del_RoomID = 0\<rparr>) vs)"
| "decode_ids puuid JNull r = Some (r\<lparr>gd_Ids := []\<rparr>)"
| "decode_ids puuid _ r = None"

definition getDeletedRooms_fields ::
    "(string \<Rightarrow> uuid option) \<Rightarrow> requestServerSettingsGetDeletedRooms field list" where
  "getDeletedRooms_fields puuid =
     [(''token'', decode_string (\<lambda>t r. r\<lparr>gd_Token := t\<rparr>)), (''ids'', decode_ids puuid)]"

text \<open>The responses as \<^verbatim>\<open>json.Marshal\<close> writes them; a nil slice is null.\<close>

definition enc_Settings :: "Settings \<Rightarrow> json" where
  "enc_Settings s = JObj
     [(''serverType'', JStr (set_ServerType s)), (''serverPort'', JStr (set_ServerPort s)),
      (''connectionPort'', JStr (set_ConnectionPort s)), (''serverAddress'', JStr (set_ServerAddress s)),
      (''maxConnections'', JInt (sint (set_MaxConnections s))),
      (''maxRequestPerSecond'', JInt (sint (set_MaxRequestPerSecond s)))]"

definition enc_room_id :: "GetDeletedRooms_id \<Rightarrow> json" where
  "enc_room_id d = JObj [(''gameID'', JStr (uuid_String (del_GameID d))), (''roomID'', JStr (uuid_String (del_RoomID d)))]"

definition enc_ids :: "GetDeletedRooms_id list \<Rightarrow> json" where
  "enc_ids ids = (if ids = [] then JNull else JArr (map enc_room_id ids))"

section \<open>The service behind the transport\<close>

text \<open>
  The interface \<^verbatim>\<open>api.ServerSettings\<close> as the value the transport holds, over a state \<open>'st\<close>, and the
  struct \<^verbatim>\<open>serverServerSettings\<close> that keeps one function per method so that a middleware can replace
  it. The clock and the map orders of a call are fixed in the functions.
\<close>

record 'st api_ServerSettings =
  api_GetConnectionsNum :: "string \<Rightarrow> 'st \<Rightarrow> (error + go_int \<times> bool) \<times> 'st"
  api_HealthCheck :: "string \<Rightarrow> 'st \<Rightarrow> (error + bool) \<times> 'st"
  api_GetServerSettings :: "string \<Rightarrow> 'st \<Rightarrow> (error + Settings) \<times> 'st"
  api_CreateRoom :: "string \<Rightarrow> duration \<Rightarrow> 'st \<Rightarrow> error option \<times> 'st"
  api_GetDeletedRooms :: "string \<Rightarrow> GetDeletedRooms_id list \<Rightarrow> 'st \<Rightarrow> (error + GetDeletedRooms_id list) \<times> 'st"

record 'st serverServerSettings =
  svc :: "'st api_ServerSettings"
  fn_getConnectionsNum :: "string \<Rightarrow> 'st \<Rightarrow> (error + go_int \<times> bool) \<times> 'st"
  fn_healthCheck :: "string \<Rightarrow> 'st \<Rightarrow> (error + bool) \<times> 'st"
  fn_getServerSettings :: "string \<Rightarrow> 'st \<Rightarrow> (error + Settings) \<times> 'st"
  fn_createRoom :: "string \<Rightarrow> duration \<Rightarrow> 'st \<Rightarrow> error option \<times> 'st"
  fn_getDeletedRooms :: "string \<Rightarrow> GetDeletedRooms_id list \<Rightarrow> 'st \<Rightarrow> (error + GetDeletedRooms_id list) \<times> 'st"

definition newServerServerSettings :: "'st api_ServerSettings \<Rightarrow> 'st serverServerSettings" where
  "newServerServerSettings s =
     \<lparr>svc = s, fn_getConnectionsNum = api_GetConnectionsNum s, fn_healthCheck = api_HealthCheck s,
      fn_getServerSettings = api_GetServerSettings s, fn_createRoom = api_CreateRoom s,
      fn_getDeletedRooms = api_GetDeletedRooms s\<rparr>"

definition Wrap ::
    "('st api_ServerSettings \<Rightarrow> 'st api_ServerSettings) \<Rightarrow> 'st serverServerSettings \<Rightarrow> 'st serverServerSettings" where
  "Wrap m srv =
     (let s = m (svc srv)
      in srv\<lparr>svc := s, fn_getConnectionsNum := api_GetConnectionsNum s, fn_healthCheck := api_HealthCheck s,
             fn_getServerSettings := api_GetServerSettings s, fn_createRoom := api_CreateRoom s,
             fn_getDeletedRooms := api_GetDeletedRooms s\<rparr>)"

text \<open>The methods of \<^verbatim>\<open>serverServerSettings\<close>, which call the functions it holds.\<close>

definition svc_GetConnectionsNum ::
    "'st serverServerSettings \<Rightarrow> string \<Rightarrow> 'st \<Rightarrow> (error + go_int \<times> bool) \<times> 'st" where
  "svc_GetConnectionsNum srv tok = fn_getConnectionsNum srv tok"

definition svc_HealthCheck ::
    "'st serverServerSettings \<Rightarrow> string \<Rightarrow> 'st \<Rightarrow> (error + bool) \<times> 'st" where
  "svc_HealthCheck srv tok = fn_healthCheck srv tok"

definition svc_GetServerSettings ::
    "'st serverServerSettings \<Rightarrow> string \<Rightarrow> 'st \<Rightarrow> (error + Settings) \<times> 'st" where
  "svc_GetServerSettings srv tok = fn_getServerSettings srv tok"

definition svc_CreateRoom ::
    "'st serverServerSettings \<Rightarrow> string \<Rightarrow> duration \<Rightarrow> 'st \<Rightarrow> error option \<times> 'st" where
  "svc_CreateRoom srv tok ttl = fn_createRoom srv tok ttl"

definition svc_GetDeletedRooms ::
    "'st serverServerSettings \<Rightarrow> string \<Rightarrow> GetDeletedRooms_id list \<Rightarrow> 'st \<Rightarrow> (error + GetDeletedRooms_id list) \<times> 'st" where
  "svc_GetDeletedRooms srv tok ids = fn_getDeletedRooms srv tok ids"

lemmas svc_methods [simp] = svc_GetConnectionsNum_def svc_HealthCheck_def svc_GetServerSettings_def
  svc_CreateRoom_def svc_GetDeletedRooms_def

text \<open>
  \<^verbatim>\<open>httpServerSettings\<close>. An error handler returns an error that may implement \<^verbatim>\<open>Code() int\<close>: the
  second component. No error of the repository does.
\<close>

record 'st httpServerSettings =
  errorHandler :: "(error \<Rightarrow> error \<times> int option) option"
  maxBatchSize :: go_int
  maxParallelBatch :: go_int
  http_svc :: "'st serverServerSettings"

definition NewServerSettings_http :: "'st api_ServerSettings \<Rightarrow> 'st httpServerSettings" where
  "NewServerSettings_http s =
     \<lparr>errorHandler = None, maxBatchSize = 0, maxParallelBatch = 0, http_svc = newServerServerSettings s\<rparr>"

text \<open>
  The part of \<^verbatim>\<open>fiber.Ctx\<close> the handlers read, and what they write: a status and the chunks of the
  body in order (a nil response is written as null, and so is an empty list of responses unless
  the parallel branch of \<^verbatim>\<open>doBatch\<close> made it).
\<close>

record fiber_ctx =
  ctx_Method :: string
  ctx_Body :: "json option"
  ctx_Token :: string
  ctx_SyncOn :: string

datatype chunk = Text string | One "baseJsonRPC option" | Many "baseJsonRPC list"

record http_response =
  status :: nat
  written :: "chunk list"

definition new_response :: http_response where
  "new_response = \<lparr>status = 200, written = []\<rparr>"

definition sendResponse :: "chunk \<Rightarrow> http_response \<Rightarrow> http_response" where
  "sendResponse c r = r\<lparr>written := written r @ [c]\<rparr>"

text \<open>Texts and decoders that come from outside the repository.\<close>

record decoders =
  json_err :: "json option \<Rightarrow> string"
  parse_uuid :: "string \<Rightarrow> uuid option"

section \<open>Method handlers\<close>

text \<open>
  The five handlers have one shape: decode the parameters into a zero request, check the
  protocol version, let the header \<^verbatim>\<open>Token\<close> replace the token, call the service, and build the
  response. \<open>call\<close> is the method of the service on the decoded request, giving the encoded
  result.
\<close>

definition handle ::
    "'st httpServerSettings \<Rightarrow> decoders \<Rightarrow> fiber_ctx \<Rightarrow> 'r field list \<Rightarrow> 'r \<Rightarrow> (string \<Rightarrow> 'r \<Rightarrow> 'r) \<Rightarrow>
     ('r \<Rightarrow> 'st \<Rightarrow> (error + json) \<times> 'st) \<Rightarrow> baseJsonRPC \<Rightarrow> 'st \<Rightarrow> baseJsonRPC option \<times> 'st" where
  "handle http dec ctx flds zero setToken call requestBase st =
     (case (case rpc_Params requestBase of None \<Rightarrow> Some zero | Some v \<Rightarrow> decode_struct flds v zero) of
        None \<Rightarrow>
          (makeErrorResponseJsonRPC (rpc_ID requestBase) parseError
             (''request body could not be decoded: '' @ json_err dec (rpc_Params requestBase)) None, st)
      | Some request \<Rightarrow>
          if rpc_Version requestBase \<noteq> Version
          then (makeErrorResponseJsonRPC (rpc_ID requestBase) parseError
                  (''incorrect protocol version: '' @ rpc_Version requestBase) None, st)
          else
            (let request' = (if ctx_Token ctx \<noteq> [] then setToken (ctx_Token ctx) request else request)
             in case call request' st of
                  (Inl err, st') \<Rightarrow>
                    (let (err', cd) = (case errorHandler http of None \<Rightarrow> (err, None) | Some h \<Rightarrow> h err);
                         code = (case cd of None \<Rightarrow> internalError | Some c \<Rightarrow> c)
                     in (makeErrorResponseJsonRPC (rpc_ID requestBase) code (Error err') (Some (DataError err')), st'))
                | (Inr result, st') \<Rightarrow>
                    (Some (zero_base\<lparr>rpc_ID := rpc_ID requestBase, rpc_Version := Version, rpc_Result := Some result\<rparr>),
                     st')))"

definition encode_result :: "('a \<Rightarrow> json) \<Rightarrow> (error + 'a) \<times> 'st \<Rightarrow> (error + json) \<times> 'st" where
  "encode_result enc r = (case r of (Inl e, st) \<Rightarrow> (Inl e, st) | (Inr x, st) \<Rightarrow> (Inr (enc x), st))"

type_synonym 'st methodJsonRPC = "fiber_ctx \<Rightarrow> baseJsonRPC \<Rightarrow> 'st \<Rightarrow> baseJsonRPC option \<times> 'st"

definition getConnectionsNum :: "'st httpServerSettings \<Rightarrow> decoders \<Rightarrow> 'st methodJsonRPC" where
  "getConnectionsNum http dec ctx =
     handle http dec ctx token_fields \<lparr>req_Token = []\<rparr> (\<lambda>t r. r\<lparr>req_Token := t\<rparr>)
       (\<lambda>r st. encode_result (\<lambda>(n, b). JObj [(''countConn'', JInt (sint n)), (''exists'', JBool b)])
          (svc_GetConnectionsNum (http_svc http) (req_Token r) st))"

definition healthCheck :: "'st httpServerSettings \<Rightarrow> decoders \<Rightarrow> 'st methodJsonRPC" where
  "healthCheck http dec ctx =
     handle http dec ctx token_fields \<lparr>req_Token = []\<rparr> (\<lambda>t r. r\<lparr>req_Token := t\<rparr>)
       (\<lambda>r st. encode_result (\<lambda>b. JObj [(''exists'', JBool b)]) (svc_HealthCheck (http_svc http) (req_Token r) st))"

definition getServerSettings :: "'st httpServerSettings \<Rightarrow> decoders \<Rightarrow> 'st methodJsonRPC" where
  "getServerSettings http dec ctx =
     handle http dec ctx token_fields \<lparr>req_Token = []\<rparr> (\<lambda>t r. r\<lparr>req_Token := t\<rparr>)
       (\<lambda>r st. encode_result (\<lambda>s. JObj [(''settings'', enc_Settings s)])
          (svc_GetServerSettings (http_svc http) (req_Token r) st))"

definition createRoom :: "'st httpServerSettings \<Rightarrow> decoders \<Rightarrow> 'st methodJsonRPC" where
  "createRoom http dec ctx =
     handle http dec ctx createRoom_fields \<lparr>cr_Token = [], cr_RoomTTl = 0\<rparr> (\<lambda>t r. r\<lparr>cr_Token := t\<rparr>)
       (\<lambda>r st. case svc_CreateRoom (http_svc http) (cr_Token r) (cr_RoomTTl r) st of
                 (Some err, st') \<Rightarrow> (Inl err, st')
               | (None, st') \<Rightarrow> (Inr (JObj []), st'))"

definition getDeletedRooms :: "'st httpServerSettings \<Rightarrow> decoders \<Rightarrow> 'st methodJsonRPC" where
  "getDeletedRooms http dec ctx =
     handle http dec ctx (getDeletedRooms_fields (parse_uuid dec)) \<lparr>gd_Token = [], gd_Ids = []\<rparr>
       (\<lambda>t r. r\<lparr>gd_Token := t\<rparr>)
       (\<lambda>r st. encode_result (\<lambda>ids. JObj [(''deletedIds'', enc_ids ids)])
          (svc_GetDeletedRooms (http_svc http) (gd_Token r) (gd_Ids r) st))"

section \<open>Single requests\<close>

text \<open>
  \<^verbatim>\<open>serveMethod\<close>: for a method other than POST it writes a text and status 405 and goes on.
\<close>

definition serveMethod ::
    "decoders \<Rightarrow> string \<Rightarrow> 'st methodJsonRPC \<Rightarrow> fiber_ctx \<Rightarrow> 'st \<Rightarrow> http_response \<times> 'st" where
  "serveMethod dec methodName methodHandler ctx st =
     (let r0 = (if ctx_Method ctx \<noteq> ''POST''
                then sendResponse (Text ''only POST method supported'') (new_response\<lparr>status := 405\<rparr>)
                else new_response)
      in case Option.bind (ctx_Body ctx) decode_base of
           None \<Rightarrow>
             (sendResponse (One (makeErrorResponseJsonRPC (Some (JStr ''0'')) parseError
                (''request body could not be decoded: '' @ json_err dec (ctx_Body ctx)) None)) r0, st)
         | Some request \<Rightarrow>
             (let method = ToLower (rpc_Method request)
              in if method \<noteq> [] \<and> method \<noteq> methodName
                 then (sendResponse (One (makeErrorResponseJsonRPC (rpc_ID request) methodNotFoundError
                         (''invalid method '' @ rpc_Method request) None)) r0, st)
                 else (case methodHandler ctx request st of
                         (Some response, st') \<Rightarrow> (sendResponse (One (Some response)) r0, st')
                       | (None, st') \<Rightarrow> (r0, st'))))"

definition serveGetConnectionsNum :: "'st httpServerSettings \<Rightarrow> decoders \<Rightarrow> fiber_ctx \<Rightarrow> 'st \<Rightarrow> http_response \<times> 'st" where
  "serveGetConnectionsNum http dec = serveMethod dec ''getconnectionsnum'' (getConnectionsNum http dec)"

definition serveHealthCheck :: "'st httpServerSettings \<Rightarrow> decoders \<Rightarrow> fiber_ctx \<Rightarrow> 'st \<Rightarrow> http_response \<times> 'st" where
  "serveHealthCheck http dec = serveMethod dec ''healthcheck'' (healthCheck http dec)"

definition serveGetServerSettings :: "'st httpServerSettings \<Rightarrow> decoders \<Rightarrow> fiber_ctx \<Rightarrow> 'st \<Rightarrow> http_response \<times> 'st" where
  "serveGetServerSettings http dec = serveMethod dec ''getserversettings'' (getServerSettings http dec)"

definition serveCreateRoom :: "'st httpServerSettings \<Rightarrow> decoders \<Rightarrow> fiber_ctx \<Rightarrow> 'st \<Rightarrow> http_response \<times> 'st" where
  "serveCreateRoom http dec = serveMethod dec ''createroom'' (createRoom http dec)"

definition serveGetDeletedRooms :: "'st httpServerSettings \<Rightarrow> decoders \<Rightarrow> fiber_ctx \<Rightarrow> 'st \<Rightarrow> http_response \<times> 'st" where
  "serveGetDeletedRooms http dec = serveMethod dec ''getdeletedrooms'' (getDeletedRooms http dec)"

definition invalid_method :: "baseJsonRPC \<Rightarrow> baseJsonRPC option" where
  "invalid_method request =
     makeErrorResponseJsonRPC (rpc_ID request) methodNotFoundError
       (''invalid method '' @ [CHR 0x27] @ rpc_Method request @ [CHR 0x27]) None"

text \<open>\<^verbatim>\<open>doSingleBatch\<close> of the settings endpoint, and that of the server, whose names carry the service's.\<close>

definition doSingleBatch :: "'st httpServerSettings \<Rightarrow> decoders \<Rightarrow> 'st methodJsonRPC" where
  "doSingleBatch http dec ctx request st =
     (let method = ToLower (rpc_Method request)
      in if method = ''getconnectionsnum'' then getConnectionsNum http dec ctx request st
         else if method = ''healthcheck'' then healthCheck http dec ctx request st
         else if method = ''getserversettings'' then getServerSettings http dec ctx request st
         else if method = ''createroom'' then createRoom http dec ctx request st
         else if method = ''getdeletedrooms'' then getDeletedRooms http dec ctx request st
         else (invalid_method request, st))"

definition Server_doSingleBatch :: "'st httpServerSettings \<Rightarrow> decoders \<Rightarrow> 'st methodJsonRPC" where
  "Server_doSingleBatch http dec ctx request st =
     (let method = ToLower (rpc_Method request)
      in if method = ''serversettings.getconnectionsnum'' then getConnectionsNum http dec ctx request st
         else if method = ''serversettings.healthcheck'' then healthCheck http dec ctx request st
         else if method = ''serversettings.getserversettings'' then getServerSettings http dec ctx request st
         else if method = ''serversettings.createroom'' then createRoom http dec ctx request st
         else if method = ''serversettings.getdeletedrooms'' then getDeletedRooms http dec ctx request st
         else (invalid_method request, st))"

section \<open>Batches\<close>

text \<open>
  How a call of \<^verbatim>\<open>doBatch\<close> ends: it returns, it waits for ever (requests are sent to a channel
  that no worker reads), or it panics (a channel of negative size).
\<close>

datatype 'a ends = Returns 'a | Blocks | Panics

text \<open>The loop over requests in one order: those with an id keep their response.\<close>

fun answer_all ::
    "'st methodJsonRPC \<Rightarrow> fiber_ctx \<Rightarrow> baseJsonRPC list \<Rightarrow> baseJsonRPC list \<Rightarrow> 'st \<Rightarrow> baseJsonRPC list \<times> 'st" where
  "answer_all single ctx [] responses st = (responses, st)"
| "answer_all single ctx (request # requests) responses st =
     (let (response, st') = single ctx request st
      in answer_all single ctx requests
           (if rpc_ID request \<noteq> None then responses_append responses response else responses) st')"

text \<open>
  \<^verbatim>\<open>doBatch\<close>, the same code in both endpoints up to the limits and the dispatcher \<open>single\<close>. Without
  the header \<^verbatim>\<open>X-Sync-On\<close> the requests are handled by up to \<open>parallel\<close> goroutines: \<open>schedule\<close> is the
  order in which they complete. Each request is one step of the model; the unsynchronised
  \<^verbatim>\<open>append\<close> of the goroutines to the shared slice is taken as one step too, so that the responses which goroutines lose to
  each other are not lost here. \<open>BatchRace\<close> has the goroutines with the steps of \<^verbatim>\<open>append\<close>.
\<close>

definition do_batch ::
    "go_int \<Rightarrow> go_int \<Rightarrow> 'st methodJsonRPC \<Rightarrow> baseJsonRPC range_order \<Rightarrow> fiber_ctx \<Rightarrow>
     baseJsonRPC list \<Rightarrow> 'st \<Rightarrow> (baseJsonRPC list \<times> 'st) ends" where
  "do_batch limit parallel single schedule ctx requests st =
     (if sint limit < int (length requests)
      then Returns (responses_append []
             (makeErrorResponseJsonRPC None invalidRequestError ''batch size exceeded'' None), st)
      else if EqualFold (ctx_SyncOn ctx) ''true''
      then Returns (answer_all single ctx requests [] st)
      else
        (let batchSize = (if int (length requests) < sint parallel
                          then int (length requests) else sint parallel)
         in if batchSize < 0 then Panics
            else if batchSize = 0 \<and> requests \<noteq> [] then Blocks
            else Returns (answer_all single ctx (range_in schedule requests) [] st)))"

definition serve_batch ::
    "go_int \<Rightarrow> go_int \<Rightarrow> 'st methodJsonRPC \<Rightarrow> decoders \<Rightarrow> baseJsonRPC range_order \<Rightarrow> fiber_ctx \<Rightarrow>
     'st \<Rightarrow> (http_response \<times> 'st) ends" where
  "serve_batch limit parallel single dec schedule ctx st =
     (if ctx_Method ctx \<noteq> ''POST''
      then Returns (sendResponse (Text ''only POST method supported'') (new_response\<lparr>status := 405\<rparr>), st)
      else
        (case Option.bind (ctx_Body ctx) decode_requests of
           None \<Rightarrow>
             (case Option.bind (ctx_Body ctx) decode_base of
                None \<Rightarrow>
                  Returns (sendResponse (One (makeErrorResponseJsonRPC (Some (JStr ''0'')) parseError
                     (''request body could not be decoded: '' @ json_err dec (ctx_Body ctx)) None)) new_response, st)
              | Some request \<Rightarrow>
                  (let (response, st') = single ctx request st
                   in Returns (sendResponse (One response) new_response, st')))
         | Some requests \<Rightarrow>
             (case do_batch limit parallel single schedule ctx requests st of
                Returns (responses, st') \<Rightarrow> Returns (sendResponse (Many responses) new_response, st')
              | Blocks \<Rightarrow> Blocks
              | Panics \<Rightarrow> Panics)))"

text \<open>The endpoint of the settings service.\<close>

definition doBatch ::
    "'st httpServerSettings \<Rightarrow> decoders \<Rightarrow> baseJsonRPC range_order \<Rightarrow> fiber_ctx \<Rightarrow>
     baseJsonRPC list \<Rightarrow> 'st \<Rightarrow> (baseJsonRPC list \<times> 'st) ends" where
  "doBatch http dec = do_batch (maxBatchSize http) (maxParallelBatch http) (doSingleBatch http dec)"

definition serveBatch ::
    "'st httpServerSettings \<Rightarrow> decoders \<Rightarrow> baseJsonRPC range_order \<Rightarrow> fiber_ctx \<Rightarrow> 'st \<Rightarrow> (http_response \<times> 'st) ends" where
  "serveBatch http dec = serve_batch (maxBatchSize http) (maxParallelBatch http) (doSingleBatch http dec) dec"

section \<open>The server\<close>

text \<open>
  \<^verbatim>\<open>Server\<close> of \<^verbatim>\<open>server.go\<close>. \<^verbatim>\<open>srvHTTP\<close> is nil until \<^verbatim>\<open>New\<close> creates it; of the application only the
  registered POST routes are kept, in order. The fields of the fiber configuration are those
  that options set.
\<close>

datatype route = RootBatch | SettingsBatch | SettingsMethod string | OtherRoute string

text \<open>
  The values of a \<^verbatim>\<open>Header\<close> are interfaces, nil (\<open>None\<close>) or by dynamic type: a string, a type with a method
  \<^verbatim>\<open>Header\<close>, a \<^verbatim>\<open>fmt.Stringer\<close> (each with the text the method gives), or another type with its JSON text.
\<close>

datatype header_src = HString string | HHeader string | HStringer string | HOther string

record Header =
  SpanKey :: string
  SpanValue :: "header_src option"
  RequestKey :: string
  RequestValue :: "header_src option"
  ResponseKey :: string
  ResponseValue :: "header_src option"
  LogKey :: string
  LogValue :: "header_src option"

type_synonym HeaderHandler = "string \<Rightarrow> Header"

record 'st Server =
  srv_BodyLimit :: go_int
  srv_ReadBufferSize :: go_int
  srv_ReadTimeout :: duration
  srv_WriteTimeout :: duration
  srvHTTP :: "(string \<times> route) list option"
  srv_maxBatchSize :: go_int
  srv_maxParallelBatch :: go_int
  srv_httpServerSettings :: "'st httpServerSettings option"
  headerHandlers :: "(string \<times> HeaderHandler) list"

text \<open>\<^verbatim>\<open>SetRoutes\<close> of the settings service.\<close>

definition SetRoutes :: "(string \<times> route) list \<Rightarrow> (string \<times> route) list" where
  "SetRoutes app = app @
     [(''/api/v1/udp/serverSettings'', SettingsBatch),
      (''/api/v1/udp/serverSettings/getConnectionsNum'', SettingsMethod ''getconnectionsnum''),
      (''/api/v1/udp/serverSettings/healthCheck'', SettingsMethod ''healthcheck''),
      (''/api/v1/udp/serverSettings/getServerSettings'', SettingsMethod ''getserversettings''),
      (''/api/v1/udp/serverSettings/createRoom'', SettingsMethod ''createroom''),
      (''/api/v1/udp/serverSettings/getDeletedRooms'', SettingsMethod ''getdeletedrooms'')]"

type_synonym 'st Option = "'st Server \<Rightarrow> 'st Server"

definition ServerSettings_option :: "'st httpServerSettings \<Rightarrow> 'st Option" where
  "ServerSettings_option h srv =
     (case srvHTTP srv of
        None \<Rightarrow> srv
      | Some routes \<Rightarrow>
          srv\<lparr>srv_httpServerSettings :=
                Some (h\<lparr>maxBatchSize := srv_maxBatchSize srv, maxParallelBatch := srv_maxParallelBatch srv\<rparr>),
              srvHTTP := Some (SetRoutes routes)\<rparr>)"

text \<open>\<^verbatim>\<open>Service\<close>: another service with routes of its own, given by what it adds.\<close>

definition Service_option :: "((string \<times> route) list \<Rightarrow> (string \<times> route) list) \<Rightarrow> 'st Option" where
  "Service_option setRoutes srv =
     (case srvHTTP srv of None \<Rightarrow> srv | Some routes \<Rightarrow> srv\<lparr>srvHTTP := Some (setRoutes routes)\<rparr>)"

text \<open>\<^verbatim>\<open>SetFiberCfg\<close> replaces the whole configuration, here its four fields.\<close>

definition SetFiberCfg :: "go_int \<Rightarrow> go_int \<Rightarrow> duration \<Rightarrow> duration \<Rightarrow> 'st Option" where
  "SetFiberCfg bodyLimit readBufferSize readTimeout writeTimeout srv =
     srv\<lparr>srv_BodyLimit := bodyLimit, srv_ReadBufferSize := readBufferSize, srv_ReadTimeout := readTimeout,
         srv_WriteTimeout := writeTimeout\<rparr>"

definition SetReadBufferSize :: "go_int \<Rightarrow> 'st Option" where
  "SetReadBufferSize n srv = srv\<lparr>srv_ReadBufferSize := n\<rparr>"

definition MaxBodySize :: "go_int \<Rightarrow> 'st Option" where
  "MaxBodySize n srv = srv\<lparr>srv_BodyLimit := n\<rparr>"

definition MaxBatchSize :: "go_int \<Rightarrow> 'st Option" where
  "MaxBatchSize n srv = srv\<lparr>srv_maxBatchSize := n\<rparr>"

definition MaxBatchWorkers :: "go_int \<Rightarrow> 'st Option" where
  "MaxBatchWorkers n srv = srv\<lparr>srv_maxParallelBatch := n\<rparr>"

definition ReadTimeout :: "duration \<Rightarrow> 'st Option" where
  "ReadTimeout d srv = srv\<lparr>srv_ReadTimeout := d\<rparr>"

definition WriteTimeout :: "duration \<Rightarrow> 'st Option" where
  "WriteTimeout d srv = srv\<lparr>srv_WriteTimeout := d\<rparr>"

definition WithHeader :: "string \<Rightarrow> HeaderHandler \<Rightarrow> 'st Option" where
  "WithHeader headerName handler srv = srv\<lparr>headerHandlers := AList.update headerName handler (headerHandlers srv)\<rparr>"

text \<open>\<^verbatim>\<open>WithRequestID\<close>: the handler makes a new id (\<open>newID\<close>, from the \<^verbatim>\<open>uuid\<close> package) when the header is empty.\<close>

definition request_id_handler :: "uuid \<Rightarrow> string \<Rightarrow> HeaderHandler" where
  "request_id_handler newID headerName value =
     (let v = (if value = [] then uuid_String newID else value)
      in \<lparr>SpanKey = ''requestID'', SpanValue = Some (HString v), RequestKey = [], RequestValue = None,
          ResponseKey = headerName, ResponseValue = Some (HString v), LogKey = ''requestID'', LogValue = Some (HString v)\<rparr>)"

definition WithRequestID :: "uuid \<Rightarrow> string \<Rightarrow> 'st Option" where
  "WithRequestID newID headerName srv =
     srv\<lparr>headerHandlers := AList.update headerName (request_id_handler newID headerName) (headerHandlers srv)\<rparr>"

text \<open>\<^verbatim>\<open>New\<close> runs the options before and after it creates the application.\<close>

definition new_Server :: "'st Option list \<Rightarrow> 'st Server" where
  "new_Server options =
     (let srv0 = \<lparr>srv_BodyLimit = 0, srv_ReadBufferSize = 0, srv_ReadTimeout = 0, srv_WriteTimeout = 0,
                  srvHTTP = None, srv_maxBatchSize = defaultMaxBatchSize,
                  srv_maxParallelBatch = defaultMaxParallelBatch, srv_httpServerSettings = None, headerHandlers = []\<rparr>;
          srv1 = fold (\<lambda>option srv. option srv) options srv0;
          srv2 = srv1\<lparr>srvHTTP := Some []\<rparr>;
          srv3 = fold (\<lambda>option srv. option srv) options srv2
      in srv3\<lparr>srvHTTP := map_option (\<lambda>routes. routes @ [(''/'', RootBatch)]) (srvHTTP srv3)\<rparr>)"

text \<open>The server's own endpoint; without the settings service its methods panic on a nil pointer.\<close>

definition Server_doBatch ::
    "'st Server \<Rightarrow> 'st httpServerSettings \<Rightarrow> decoders \<Rightarrow> baseJsonRPC range_order \<Rightarrow> fiber_ctx \<Rightarrow>
     baseJsonRPC list \<Rightarrow> 'st \<Rightarrow> (baseJsonRPC list \<times> 'st) ends" where
  "Server_doBatch srv http dec =
     do_batch (srv_maxBatchSize srv) (srv_maxParallelBatch srv) (Server_doSingleBatch http dec)"

definition Server_serveBatch ::
    "'st Server \<Rightarrow> 'st httpServerSettings \<Rightarrow> decoders \<Rightarrow> baseJsonRPC range_order \<Rightarrow> fiber_ctx \<Rightarrow> 'st \<Rightarrow>
     (http_response \<times> 'st) ends" where
  "Server_serveBatch srv http dec =
     serve_batch (srv_maxBatchSize srv) (srv_maxParallelBatch srv) (Server_doSingleBatch http dec) dec"

end
