(* ===== verification/ClientRpc.thy ===== *)
theory ClientRpc
  imports JsonRpc CurlText
begin

text \<open>
  The JSON-RPC client of \<^verbatim>\<open>pkg/clients/udpGameServer/jsonrpc\<close>: requests and responses, one call,
  a batch of calls, and the callbacks of a batch (\<^verbatim>\<open>batch.go\<close> of the generated client).

  What lies outside is an argument: the HTTP exchange (\<open>http_do\<close>: the text of an error, or the
  status and the body, \<open>None\<close> for a body that is not JSON), the parsing of the endpoint's URL,
  the text of a JSON value, the text of decoding errors, and what is left of a response that
  could not be decoded.
\<close>

section \<open>Requests and responses\<close>

record RequestRPC =
  rq_ID :: uuid
  rq_Method :: string
  rq_Params :: "json option"
  rq_JSONRPC :: string

record RPCError =
  re_Code :: int
  re_Message :: string
  re_Data :: "json option"

record ResponseRPC =
  rs_ID :: uuid
  rs_JSONRPC :: string
  rs_Error :: "RPCError option"
  rs_Result :: "json option"

definition NilID :: uuid where
  "NilID = 0"

definition int_text :: "int \<Rightarrow> string" where
  "int_text i = (if i < 0 then ''-'' @ Itoa (nat (- i)) else Itoa (nat i))"

definition RPCError_Error :: "RPCError \<Rightarrow> string" where
  "RPCError_Error e = int_text (re_Code e) @ '': '' @ re_Message e"

definition RPCError_Raw :: "RPCError \<Rightarrow> json" where
  "RPCError_Raw e = JObj
     ([(''code'', JInt (re_Code e)), (''message'', JStr (re_Message e))] @
      (case re_Data e of None \<Rightarrow> [] | Some d \<Rightarrow> [(''data'', d)]))"

text \<open>
  \<^verbatim>\<open>Params\<close> looks through pointers at the kind of a single argument: structs, arrays, slices,
  interfaces and maps are parameters as they are, anything else is wrapped in a list. A value is
  its kind and what it encodes to; nil has no kind.
\<close>

datatype go_kind = Struct | Array | Slice | Interface | Map | OtherKind

datatype go_value = GoNil | GoValue go_kind json

fun value_json :: "go_value \<Rightarrow> json" where
  "value_json GoNil = JNull"
| "value_json (GoValue k v) = v"

fun Params :: "go_value list \<Rightarrow> json option" where
  "Params [] = None"
| "Params [GoValue k v] =
     (if k \<in> {Struct, Array, Slice, Interface, Map} then Some v else Some (JArr [v]))"
| "Params [GoNil] = Some (JArr [JNull])"
| "Params (v # w # vs) = Some (JArr (map value_json (v # w # vs)))"

definition NewRequestWithID :: "uuid \<Rightarrow> string \<Rightarrow> go_value list \<Rightarrow> RequestRPC" where
  "NewRequestWithID i method params =
     \<lparr>rq_ID = i, rq_Method = method, rq_Params = Params params, rq_JSONRPC = Version\<rparr>"

definition enc_request :: "RequestRPC \<Rightarrow> json" where
  "enc_request r = JObj
     ([(''id'', JStr (uuid_String (rq_ID r))), (''method'', JStr (rq_Method r))] @
      (case rq_Params r of None \<Rightarrow> [] | Some v \<Rightarrow> [(''params'', v)]) @
      [(''jsonrpc'', JStr (rq_JSONRPC r))])"

text \<open>
  Decoding a response: unknown keys are errors unless the client allows them; null is a nil
  pointer.
\<close>

fun known_keys :: "'s field list \<Rightarrow> json \<Rightarrow> bool" where
  "known_keys fs (JObj kvs) = list_all (\<lambda>(k, v). find_field fs k \<noteq> None) kvs"
| "known_keys fs _ = True"

definition decode_known :: "bool \<Rightarrow> 's field list \<Rightarrow> json \<Rightarrow> 's \<Rightarrow> 's option" where
  "decode_known allow fs v s = (if allow \<or> known_keys fs v then decode_struct fs v s else None)"

definition rpcerror_fields :: "RPCError field list" where
  "rpcerror_fields =
     [(''code'', decode_int64 (\<lambda>i e. e\<lparr>re_Code := sint i\<rparr>)),
      (''message'', decode_string (\<lambda>t e. e\<lparr>re_Message := t\<rparr>)),
      (''data'', decode_raw (\<lambda>v e. e\<lparr>re_Data := Some v\<rparr>))]"

definition decode_rpcerror :: "bool \<Rightarrow> json \<Rightarrow> ResponseRPC \<Rightarrow> ResponseRPC option" where
  "decode_rpcerror allow v r =
     (if v = JNull then Some (r\<lparr>rs_Error := None\<rparr>)
      else map_option (\<lambda>e. r\<lparr>rs_Error := Some e\<rparr>)
        (decode_known allow rpcerror_fields v
          (case rs_Error r of None \<Rightarrow> \<lparr>re_Code = 0, re_Message = [], re_Data = None\<rparr> | Some e \<Rightarrow> e)))"

definition response_fields :: "(string \<Rightarrow> uuid option) \<Rightarrow> bool \<Rightarrow> ResponseRPC field list" where
  "response_fields puuid allow =
     [(''id'', decode_uuid puuid (\<lambda>u r. r\<lparr>rs_ID := u\<rparr>)),
      (''jsonrpc'', decode_string (\<lambda>t r. r\<lparr>rs_JSONRPC := t\<rparr>)),
      (''error'', decode_rpcerror allow),
      (''result'', decode_raw (\<lambda>v r. r\<lparr>rs_Result := Some v\<rparr>))]"

definition decode_response :: "(string \<Rightarrow> uuid option) \<Rightarrow> bool \<Rightarrow> json \<Rightarrow> ResponseRPC option option" where
  "decode_response puuid allow v =
     (if v = JNull then Some None
      else map_option Some (decode_known allow (response_fields puuid allow) v
        \<lparr>rs_ID = 0, rs_JSONRPC = [], rs_Error = None, rs_Result = None\<rparr>))"

fun decode_responses :: "(string \<Rightarrow> uuid option) \<Rightarrow> bool \<Rightarrow> json \<Rightarrow> ResponseRPC option list option" where
  "decode_responses puuid allow (JArr vs) = decode_all (decode_response puuid allow) vs"
| "decode_responses puuid allow JNull = Some []"
| "decode_responses puuid allow _ = None"

text \<open>The list of responses holds pointers; a nil pointer among them makes these methods panic (\<open>None\<close>).\<close>

fun AsMap_from :: "ResponseRPC option list \<Rightarrow> (uuid \<times> ResponseRPC) list \<Rightarrow> (uuid \<times> ResponseRPC) list option" where
  "AsMap_from [] m = Some m"
| "AsMap_from (None # rs) m = None"
| "AsMap_from (Some r # rs) m = AsMap_from rs (AList.update (rs_ID r) r m)"

definition AsMap :: "ResponseRPC option list \<Rightarrow> (uuid \<times> ResponseRPC) list option" where
  "AsMap res = AsMap_from res []"

fun GetByID :: "uuid \<Rightarrow> ResponseRPC option list \<Rightarrow> ResponseRPC option option" where
  "GetByID i [] = Some None"
| "GetByID i (None # rs) = None"
| "GetByID i (Some r # rs) = (if rs_ID r = i then Some (Some r) else GetByID i rs)"

fun HasError :: "ResponseRPC option list \<Rightarrow> bool option" where
  "HasError [] = Some False"
| "HasError (None # rs) = None"
| "HasError (Some r # rs) = (if rs_Error r \<noteq> None then Some True else HasError rs)"

section \<open>The client\<close>

datatype ctx_value = CtxString string | CtxStringer string | CtxOther nat

fun toString :: "ctx_value \<Rightarrow> string" where
  "toString (CtxString s) = s"
| "toString (CtxStringer s) = s"
| "toString (CtxOther n) = []"

record rpc_options =
  op_insecure :: bool
  op_logOnError :: bool
  op_logRequests :: bool
  op_allowUnknownFields :: bool
  op_headersFromCtx :: "ctx_value list"
  op_customHeaders :: "(string \<times> string) list"

definition rpc_prepareOpts :: "(rpc_options \<Rightarrow> rpc_options) list \<Rightarrow> rpc_options" where
  "rpc_prepareOpts opts =
     fold (\<lambda>op ops. op ops) opts
       \<lparr>op_insecure = False, op_logOnError = False, op_logRequests = False, op_allowUnknownFields = False,
        op_headersFromCtx = [], op_customHeaders = []\<rparr>"

definition HeaderFromCtx :: "ctx_value list \<Rightarrow> rpc_options \<Rightarrow> rpc_options" where
  "HeaderFromCtx headers ops = ops\<lparr>op_headersFromCtx := headers\<rparr>"

definition AllowUnknownFields :: "bool \<Rightarrow> rpc_options \<Rightarrow> rpc_options" where
  "AllowUnknownFields b ops = ops\<lparr>op_allowUnknownFields := b\<rparr>"

definition Insecure :: "rpc_options \<Rightarrow> rpc_options" where
  "Insecure ops = ops\<lparr>op_insecure := True\<rparr>"

definition LogRequest :: "rpc_options \<Rightarrow> rpc_options" where
  "LogRequest ops = ops\<lparr>op_logRequests := True\<rparr>"

definition LogOnError :: "rpc_options \<Rightarrow> rpc_options" where
  "LogOnError ops = ops\<lparr>op_logOnError := True\<rparr>"

record ClientRPC =
  cl_options :: rpc_options
  cl_endpoint :: string

definition NewClient :: "string \<Rightarrow> (rpc_options \<Rightarrow> rpc_options) list \<Rightarrow> ClientRPC" where
  "NewClient endpoint opts = \<lparr>cl_options = rpc_prepareOpts opts, cl_endpoint = endpoint\<rparr>"

record network =
  http_do :: "http_Request \<Rightarrow> json \<Rightarrow> string + nat \<times> json option"
  parse_URL :: "string \<Rightarrow> string + string"
  json_text :: "json \<Rightarrow> string"
  decode_err :: "json option \<Rightarrow> string"
  half_decoded :: "json option \<Rightarrow> ResponseRPC option list"
  net_uuid :: "string \<Rightarrow> uuid option"
  canonical_key :: "string \<Rightarrow> string"

text \<open>\<^verbatim>\<open>http.Header.Set\<close> under the canonical form of the key.\<close>

definition Header_Set :: "network \<Rightarrow> string \<Rightarrow> string \<Rightarrow> (string \<times> string list) list \<Rightarrow> (string \<times> string list) list" where
  "Header_Set net k v h = AList.update (canonical_key net k) [v] h"

definition custom_header :: "network \<Rightarrow> string \<times> string \<Rightarrow> http_Request \<Rightarrow> http_Request" where
  "custom_header net kv req =
     (if fst kv = ''Host'' then req\<lparr>hr_Host := snd kv\<rparr>
      else req\<lparr>hr_Header := Header_Set net (fst kv) (snd kv) (hr_Header req)\<rparr>)"

definition ctx_header :: "network \<Rightarrow> (ctx_value \<Rightarrow> ctx_value option) \<Rightarrow> ctx_value \<Rightarrow> http_Request \<Rightarrow> http_Request" where
  "ctx_header net ctx header req =
     (case ctx header of
        None \<Rightarrow> req
      | Some value \<Rightarrow>
          (let k = toString header; v = toString value
           in if k \<noteq> [] \<and> v \<noteq> [] then req\<lparr>hr_Header := Header_Set net k v (hr_Header req)\<rparr> else req))"

text \<open>\<open>p\<close> is the order in which the map of custom headers is visited.\<close>

definition newRequest ::
    "ClientRPC \<Rightarrow> network \<Rightarrow> (string \<times> string) range_order \<Rightarrow> (ctx_value \<Rightarrow> ctx_value option) \<Rightarrow> json \<Rightarrow>
     string + http_Request" where
  "newRequest client net p ctx reqBody =
     (case parse_URL net (cl_endpoint client) of
        Inl err \<Rightarrow> Inl err
      | Inr url \<Rightarrow>
          (let req = \<lparr>hr_Method = ''POST'', hr_URL = url, hr_Host = [], hr_Body = Some (json_text net reqBody), hr_Header = []\<rparr>;
               req = req\<lparr>hr_Header := Header_Set net ''Accept'' ''application/json'' (hr_Header req)\<rparr>;
               req = req\<lparr>hr_Header := Header_Set net ''Content-Type'' ''application/json'' (hr_Header req)\<rparr>;
               req = fold (custom_header net) (range_in p (op_customHeaders (cl_options client))) req
           in Inr (fold (ctx_header net ctx) (op_headersFromCtx (cl_options client)) req)))"

datatype cli_error = HTTPError nat string | PlainError string

fun cli_Error :: "cli_error \<Rightarrow> string" where
  "cli_Error (HTTPError code msg) = msg"
| "cli_Error (PlainError msg) = msg"

text \<open>The errors for a response with a status of 400 or more carry the status.\<close>

definition status_error :: "nat \<Rightarrow> string \<Rightarrow> cli_error" where
  "status_error code msg = (if 400 \<le> code then HTTPError code msg else PlainError msg)"

definition call_text :: "string \<Rightarrow> string \<Rightarrow> string" where
  "call_text method url = ''rpc call '' @ method @ ''() on '' @ url"

definition doCall ::
    "ClientRPC \<Rightarrow> network \<Rightarrow> (string \<times> string) range_order \<Rightarrow> (ctx_value \<Rightarrow> ctx_value option) \<Rightarrow> RequestRPC \<Rightarrow>
     ResponseRPC option \<times> cli_error option" where
  "doCall client net p ctx request =
     (let body = enc_request request
      in case newRequest client net p ctx body of
           Inl err \<Rightarrow> (None, Some (PlainError (call_text (rq_Method request) (cl_endpoint client) @ '': '' @ err)))
         | Inr httpRequest \<Rightarrow>
             (let call = call_text (rq_Method request) (hr_URL httpRequest)
              in case http_do net httpRequest body of
                   Inl err \<Rightarrow> (None, Some (PlainError (call @ '': '' @ err)))
                 | Inr (code, resp) \<Rightarrow>
                     (let call_status = call @ '' status code: '' @ Itoa code
                      in case Option.bind resp (decode_response (net_uuid net) (op_allowUnknownFields (cl_options client))) of
                           None \<Rightarrow>
                             (None, Some (status_error code (call_status @
                                ''. could not decode body to rpc response: '' @ decode_err net resp)))
                         | Some None \<Rightarrow> (None, Some (status_error code (call_status @ ''. rpc response missing'')))
                         | Some (Some rpcResponse) \<Rightarrow>
                             (if 400 \<le> code
                              then (Some rpcResponse, Some (HTTPError code
                                     (case rs_Error rpcResponse of
                                        Some e \<Rightarrow> call_status @ ''. rpc response error: '' @ RPCError_Error e
                                      | None \<Rightarrow> call_status @ ''. no rpc error available'')))
                              else (Some rpcResponse, None)))))"

text \<open>
  \<^verbatim>\<open>doBatchCall\<close>: the deferred function adds, when there is an error, a response with its text for
  every request that has an id.
\<close>

definition error_responses :: "RequestRPC list \<Rightarrow> cli_error \<Rightarrow> ResponseRPC option list" where
  "error_responses rpcRequests err =
     map (\<lambda>r. Some \<lparr>rs_ID = rq_ID r, rs_JSONRPC = rq_JSONRPC r,
                    rs_Error = Some \<lparr>re_Code = 0, re_Message = cli_Error err, re_Data = None\<rparr>, rs_Result = None\<rparr>)
       (filter (\<lambda>r. rq_ID r \<noteq> NilID) rpcRequests)"

definition with_deferred ::
    "RequestRPC list \<Rightarrow> ResponseRPC option list \<times> cli_error option \<Rightarrow> ResponseRPC option list \<times> cli_error option" where
  "with_deferred rpcRequests res =
     (case res of
        (rpcResponses, None) \<Rightarrow> (rpcResponses, None)
      | (rpcResponses, Some err) \<Rightarrow> (rpcResponses @ error_responses rpcRequests err, Some err))"

definition batch_text :: "string \<Rightarrow> string" where
  "batch_text url = ''rpc batch call on '' @ url"

definition doBatchCall ::
    "ClientRPC \<Rightarrow> network \<Rightarrow> (string \<times> string) range_order \<Rightarrow> (ctx_value \<Rightarrow> ctx_value option) \<Rightarrow> RequestRPC list \<Rightarrow>
     ResponseRPC option list \<times> cli_error option" where
  "doBatchCall client net p ctx rpcRequests =
     with_deferred rpcRequests
       (let body = JArr (map enc_request rpcRequests)
        in case newRequest client net p ctx body of
             Inl err \<Rightarrow> ([], Some (PlainError (batch_text (cl_endpoint client) @ '': '' @ err)))
           | Inr httpRequest \<Rightarrow>
               (let call = batch_text (hr_URL httpRequest)
                in case http_do net httpRequest body of
                     Inl err \<Rightarrow> ([], Some (PlainError (call @ '': '' @ err)))
                   | Inr (code, resp) \<Rightarrow>
                       (let call_status = call @ '' status code: '' @ Itoa code
                        in case Option.bind resp (decode_responses (net_uuid net) (op_allowUnknownFields (cl_options client))) of
                             None \<Rightarrow>
                               ((if 400 \<le> code then [] else half_decoded net resp),
                                Some (status_error code (call_status @
                                  ''. could not decode body to rpc response: '' @ decode_err net resp)))
                           | Some [] \<Rightarrow> ([], Some (status_error code (call_status @ ''. rpc response missing'')))
                           | Some (r # rs) \<Rightarrow>
                               (if 400 \<le> code
                                then (r # rs, Some (HTTPError code (call_status @ ''. check rpc responses for potential rpc error'')))
                                else (r # rs, None)))))"

definition Call ::
    "ClientRPC \<Rightarrow> network \<Rightarrow> (string \<times> string) range_order \<Rightarrow> (ctx_value \<Rightarrow> ctx_value option) \<Rightarrow> uuid \<Rightarrow> string \<Rightarrow>
     go_value list \<Rightarrow> ResponseRPC option \<times> cli_error option" where
  "Call client net p ctx newID method params = doCall client net p ctx (NewRequestWithID newID method params)"

definition CallBatch ::
    "ClientRPC \<Rightarrow> network \<Rightarrow> (string \<times> string) range_order \<Rightarrow> (ctx_value \<Rightarrow> ctx_value option) \<Rightarrow> RequestRPC list \<Rightarrow>
     ResponseRPC option list \<times> cli_error option" where
  "CallBatch client net p ctx requests =
     (if requests = [] then ([], Some (PlainError ''empty request list'')) else doBatchCall client net p ctx requests)"

definition CallRaw ::
    "ClientRPC \<Rightarrow> network \<Rightarrow> (string \<times> string) range_order \<Rightarrow> (ctx_value \<Rightarrow> ctx_value option) \<Rightarrow> RequestRPC \<Rightarrow>
     ResponseRPC option \<times> cli_error option" where
  "CallRaw client net p ctx request = doCall client net p ctx request"

definition CallBatchRaw ::
    "ClientRPC \<Rightarrow> network \<Rightarrow> (string \<times> string) range_order \<Rightarrow> (ctx_value \<Rightarrow> ctx_value option) \<Rightarrow> RequestRPC list \<Rightarrow>
     ResponseRPC option list \<times> cli_error option" where
  "CallBatchRaw client net p ctx requests =
     (if requests = [] then ([], Some (PlainError ''empty request list'')) else doBatchCall client net p ctx requests)"

text \<open>
  \<^verbatim>\<open>CallFor\<close> with the decoder \<open>dec\<close> of the caller's object: the new object or one of three errors (of the
  call, in the response, of the decoding with the text \<open>bad\<close>). \<open>ForPanic\<close> is the nil dereference
  when there is neither an error nor a response.
\<close>

datatype 'o call_for = ForOut 'o | ForCallError cli_error | ForResponseError RPCError | ForDecodeError string | ForPanic

definition CallFor ::
    "ClientRPC \<Rightarrow> network \<Rightarrow> (string \<times> string) range_order \<Rightarrow> (ctx_value \<Rightarrow> ctx_value option) \<Rightarrow> uuid \<Rightarrow> string \<Rightarrow>
     (json \<Rightarrow> 'o \<Rightarrow> 'o option) \<Rightarrow> 'o \<Rightarrow> string \<Rightarrow> go_value list \<Rightarrow> 'o call_for" where
  "CallFor client net p ctx newID bad dec out method params =
     (case Call client net p ctx newID method params of
        (_, Some err) \<Rightarrow> ForCallError err
      | (None, None) \<Rightarrow> ForPanic
      | (Some rpcResponse, None) \<Rightarrow>
          (case rs_Error rpcResponse of
             Some e \<Rightarrow> ForResponseError e
           | None \<Rightarrow>
               (case dec (case rs_Result rpcResponse of None \<Rightarrow> JNull | Some v \<Rightarrow> v) out of
                  None \<Rightarrow> ForDecodeError bad
                | Some out' \<Rightarrow> ForOut out')))"

section \<open>Batches with callbacks\<close>

text \<open>
  \<^verbatim>\<open>Batch\<close> of the generated client. A request has an optional callback; the result is the list of
  callbacks that are called, with the id, the callback, the error and the response they get, in
  the order \<open>q\<close> of the map of responses. \<open>None\<close> is a panic on a nil response.
\<close>

fun callbacks_from ::
    "(RequestRPC \<times> 'cb option) list \<Rightarrow> (uuid \<times> 'cb option) list \<Rightarrow> (uuid \<times> 'cb option) list" where
  "callbacks_from [] m = m"
| "callbacks_from ((r, h) # rs) m = callbacks_from rs (AList.update (rq_ID r) h m)"

definition called ::
    "(uuid \<times> 'cb option) list \<Rightarrow> cli_error option \<Rightarrow> (uuid \<times> ResponseRPC) list \<Rightarrow>
     (uuid \<times> 'cb \<times> cli_error option \<times> ResponseRPC) list" where
  "called callbacks err rs =
     List.map_filter (\<lambda>(i, r). case map_of callbacks i of Some (Some h) \<Rightarrow> Some (i, h, err, r) | _ \<Rightarrow> None) rs"

definition Batch ::
    "ClientRPC \<Rightarrow> network \<Rightarrow> (string \<times> string) range_order \<Rightarrow> (uuid \<times> ResponseRPC) range_order \<Rightarrow>
     (ctx_value \<Rightarrow> ctx_value option) \<Rightarrow> (RequestRPC \<times> 'cb option) list \<Rightarrow>
     (uuid \<times> 'cb \<times> cli_error option \<times> ResponseRPC) list option" where
  "Batch client net p q ctx requests =
     (let callbacks = callbacks_from requests [];
          (rpcResponses, err) = CallBatch client net p ctx (map fst requests)
      in case AsMap rpcResponses of
           None \<Rightarrow> None
         | Some m \<Rightarrow> Some (called callbacks err (range_in q m)))"

end
