(* ===== verification/ClientApi.thy ===== *)
theory ClientApi
  imports ClientRpc Breaker
begin

text \<open>
  The generated client of the settings service, \<^verbatim>\<open>pkg/clients/udpGameServer\<close>: each method calls the
  server through the JSON-RPC client and then passes the outcome through the circuit breaker,
  with a cache to fall back on. Errors are represented by their texts (\<open>AppError\<close>), a response
  struct by a value of \<open>method_response\<close>. The cache is supplied by the user of the client and is
  an argument, as are the cache keys (computed by the \<^verbatim>\<open>hasher\<close> package) and the fallback checks.
\<close>

section \<open>The client\<close>

datatype method_response =
    RespConnectionsNum go_int bool
  | RespExists bool
  | RespSettings Settings
  | RespNothing
  | RespDeletedIds "GetDeletedRooms_id list"

text \<open>
  The interface \<^verbatim>\<open>cache\<close>: the error of \<^verbatim>\<open>SetTTL\<close> is ignored, that of \<^verbatim>\<open>GetTTL\<close> is a text. The value to
  store is a response or nil; \<^verbatim>\<open>GetTTL\<close> is given the response it writes to, and its result is what the
  response holds afterwards.
\<close>

record 'c cache_ops =
  SetTTL :: "string \<Rightarrow> method_response option \<Rightarrow> duration \<Rightarrow> 'c \<Rightarrow> 'c"
  GetTTL :: "string \<Rightarrow> 'c \<Rightarrow> method_response \<Rightarrow> string + method_response"

type_synonym fallback_check = "cb_error option \<Rightarrow> bool"

record fallbackServerSettings =
  fb_GetConnectionsNum :: fallback_check
  fb_HealthCheck :: fallback_check
  fb_GetServerSettings :: fallback_check
  fb_CreateRoom :: fallback_check
  fb_GetDeletedRooms :: fallback_check

record 'c ClientJsonRPC =
  cj_rpcOpts :: "(rpc_options \<Rightarrow> rpc_options) list"
  cj_cache :: "'c cache_ops option"
  cj_cbCfg :: cb_Settings
  cj_fallbackTTL :: duration
  cj_fallback :: "fallbackServerSettings option"
  cj_errorDecoder :: "(json \<Rightarrow> cb_error option) option"
  cj_rpc :: ClientRPC

text \<open>What a call changes: the breaker and the content of the cache; and the requests handed to the JSON-RPC client.\<close>

record 'c client_state =
  cs_breaker :: CircuitBreaker
  cs_cache :: 'c
  cs_sent :: "RequestRPC list"

definition error_json_fields :: "(int \<times> string) field list" where
  "error_json_fields =
     [(''code'', decode_int64 (\<lambda>i (c, msg). (sint i, msg))), (''message'', decode_string (\<lambda>t (c, msg). (c, t))),
      (''data'', decode_raw (\<lambda>v e. e))]"

text \<open>\<^verbatim>\<open>defaultErrorDecoder\<close>: the error whose text is the message; the text of a decoding error is \<open>bad\<close>.\<close>

definition defaultErrorDecoder :: "string \<Rightarrow> json \<Rightarrow> cb_error option" where
  "defaultErrorDecoder bad errData =
     (case decode_struct error_json_fields errData (0, []) of
        None \<Rightarrow> Some (AppError bad)
      | Some (c, msg) \<Rightarrow> Some (AppError msg))"

definition zero_cb_Settings :: cb_Settings where
  "zero_cb_Settings = \<lparr>st_MaxRequests = 0, st_Interval = 0, st_Timeout = 0, st_ReadyToTrip = None,
     st_OnStateChange = False, st_IsSuccessful = None\<rparr>"

definition new_Client ::
    "string \<Rightarrow> time \<Rightarrow> string \<Rightarrow> ('c ClientJsonRPC \<Rightarrow> 'c ClientJsonRPC) list \<Rightarrow> 'c \<Rightarrow> 'c ClientJsonRPC \<times> 'c client_state" where
  "new_Client bad now endpoint opts cache0 =
     (let cli = \<lparr>cj_rpcOpts = [], cj_cache = None, cj_cbCfg = zero_cb_Settings, cj_fallbackTTL = 3600 * 24 * Second,
                 cj_fallback = None, cj_errorDecoder = Some (defaultErrorDecoder bad), cj_rpc = NewClient endpoint []\<rparr>;
          cli1 = fold (\<lambda>op cli. op cli) opts cli;
          cli2 = cli1\<lparr>cj_rpc := NewClient endpoint (cj_rpcOpts cli1)\<rparr>
      in (cli2, \<lparr>cs_breaker = NewCircuitBreaker now ''github.com/ascenmmo/udp-server'' (cj_cbCfg cli2),
                 cs_cache = cache0, cs_sent = []\<rparr>))"

definition DecodeError :: "(json \<Rightarrow> cb_error option) \<Rightarrow> 'c ClientJsonRPC \<Rightarrow> 'c ClientJsonRPC" where
  "DecodeError decoder cli = cli\<lparr>cj_errorDecoder := Some decoder\<rparr>"

definition Cache :: "'c cache_ops \<Rightarrow> 'c ClientJsonRPC \<Rightarrow> 'c ClientJsonRPC" where
  "Cache c cli = cli\<lparr>cj_cache := Some c\<rparr>"

definition CircuitBreaker_option :: "cb_Settings \<Rightarrow> 'c ClientJsonRPC \<Rightarrow> 'c ClientJsonRPC" where
  "CircuitBreaker_option cfg cli = cli\<lparr>cj_cbCfg := cfg\<rparr>"

definition FallbackTTL :: "duration \<Rightarrow> 'c ClientJsonRPC \<Rightarrow> 'c ClientJsonRPC" where
  "FallbackTTL ttl cli = cli\<lparr>cj_fallbackTTL := ttl\<rparr>"

definition FallbackServerSettingsErr :: "fallbackServerSettings \<Rightarrow> 'c ClientJsonRPC \<Rightarrow> 'c ClientJsonRPC" where
  "FallbackServerSettingsErr f cli = cli\<lparr>cj_fallback := Some f\<rparr>"

definition Headers_option :: "ctx_value list \<Rightarrow> 'c ClientJsonRPC \<Rightarrow> 'c ClientJsonRPC" where
  "Headers_option headers cli = cli\<lparr>cj_rpcOpts := cj_rpcOpts cli @ [HeaderFromCtx headers]\<rparr>"

definition Insecure_option :: "'c ClientJsonRPC \<Rightarrow> 'c ClientJsonRPC" where
  "Insecure_option cli = cli\<lparr>cj_rpcOpts := cj_rpcOpts cli @ [Insecure]\<rparr>"

definition LogRequest_option :: "'c ClientJsonRPC \<Rightarrow> 'c ClientJsonRPC" where
  "LogRequest_option cli = cli\<lparr>cj_rpcOpts := cj_rpcOpts cli @ [LogRequest]\<rparr>"

definition LogOnError_option :: "'c ClientJsonRPC \<Rightarrow> 'c ClientJsonRPC" where
  "LogOnError_option cli = cli\<lparr>cj_rpcOpts := cj_rpcOpts cli @ [LogOnError]\<rparr>"

section \<open>The outcome of a call\<close>

text \<open>
  \<^verbatim>\<open>GetObject\<close> on \<^verbatim>\<open>&methodResponse\<close>, an interface that holds the pointer to the response: a missing
  result is null, and null makes the interface nil, which leaves the response as it is (the
  last component tells whether the interface still points to it). A decoding error has the text
  \<open>bad\<close> and leaves \<open>half v response\<close> behind.
\<close>

definition GetObject ::
    "string \<Rightarrow> (json \<Rightarrow> method_response \<Rightarrow> method_response) \<Rightarrow> (json \<Rightarrow> method_response \<Rightarrow> method_response option) \<Rightarrow>
     method_response \<Rightarrow> ResponseRPC \<Rightarrow> cb_error option \<times> method_response \<times> bool" where
  "GetObject bad half dec response rpcResponse =
     (let js = (case rs_Result rpcResponse of None \<Rightarrow> JNull | Some v \<Rightarrow> v)
      in if js = JNull then (None, response, False)
         else case dec js response of
                None \<Rightarrow> (Some (AppError bad), half js response, True)
              | Some r \<Rightarrow> (None, r, True))"

text \<open>
  The request that \<^verbatim>\<open>proceedResponse\<close> hands to the breaker: the error of the call that was already
  made, or the decoding of its response; without an error and a response it panics (\<open>None\<close>).
\<close>

definition decode_request ::
    "string \<Rightarrow> (json \<Rightarrow> method_response \<Rightarrow> method_response) \<Rightarrow> (json \<Rightarrow> method_response \<Rightarrow> method_response option) \<Rightarrow>
     cb_error option \<Rightarrow> ResponseRPC option \<Rightarrow> method_response \<Rightarrow> cb_error option option \<times> method_response \<times> bool" where
  "decode_request bad half dec httpErr rpcResponse response =
     (case httpErr of
        Some e \<Rightarrow> (Some (Some e), response, True)
      | None \<Rightarrow>
          (case rpcResponse of
             None \<Rightarrow> (None, response, True)
           | Some r \<Rightarrow> (let (e, v, linked) = GetObject bad half dec response r in (Some e, v, linked))))"

definition success_check :: "fallback_check option \<Rightarrow> fallback_check" where
  "success_check fallbackCheck = (case fallbackCheck of Some check \<Rightarrow> check | None \<Rightarrow> (\<lambda>err. err = None))"

definition usable_cache :: "'c ClientJsonRPC \<Rightarrow> uint64 \<Rightarrow> 'c cache_ops option" where
  "usable_cache cli cacheKey = (if cacheKey = 0 then None else cj_cache cli)"

definition cache_key :: "uint64 \<Rightarrow> string" where
  "cache_key cacheKey = Itoa (unat cacheKey)"

text \<open>The fallback: the error it returns, and what it leaves in the response.\<close>

definition cache_fallback ::
    "'c cache_ops option \<Rightarrow> uint64 \<Rightarrow> 'c \<Rightarrow> method_response \<Rightarrow> bool \<Rightarrow> cb_error option \<Rightarrow>
     cb_error option \<times> method_response" where
  "cache_fallback cached cacheKey content response linked err =
     (case cached of
        None \<Rightarrow> (err, response)
      | Some c \<Rightarrow>
          (case GetTTL c (cache_key cacheKey) content response of
             Inl e \<Rightarrow> (Some (AppError e), response)
           | Inr v \<Rightarrow> (None, if linked then v else response)))"

text \<open>
  \<^verbatim>\<open>proceedResponse\<close>. The check of success has the effect of storing the response in the cache, the
  fallback that of reading the response from there; both effects follow from what the breaker
  says of the request (\<open>verdict\<close>): an admitted request is run and checked, one that failed the
  check and one refused by an open breaker go to the fallback, one refused as too many do not.
\<close>

definition proceedResponse ::
    "'c ClientJsonRPC \<Rightarrow> string \<Rightarrow> (json \<Rightarrow> method_response \<Rightarrow> method_response) \<Rightarrow> time \<Rightarrow> time \<Rightarrow> cb_error option \<Rightarrow> uint64 \<Rightarrow>
     fallback_check option \<Rightarrow> ResponseRPC option \<Rightarrow> (json \<Rightarrow> method_response \<Rightarrow> method_response option) \<Rightarrow>
     method_response \<Rightarrow> 'c client_state \<Rightarrow> cb_error option option \<times> method_response \<times> 'c client_state" where
  "proceedResponse cli bad half now later httpErr cacheKey fallbackCheck rpcResponse dec response st =
     (let cached = usable_cache cli cacheKey;
          success = success_check fallbackCheck;
          verdict = snd (fst (beforeRequest now (cs_breaker st)));
          (req, decoded, linked) = decode_request bad half dec httpErr rpcResponse response;
          (current, points) = (if verdict = None then (decoded, linked) else (response, True));
          fallback = cache_fallback cached cacheKey (cs_cache st) current points;
          (res, cb) = Execute now req later [IsSuccessful success, Fallback (\<lambda>err. Some (fst (fallback err)))] (cs_breaker st);
          fell_back = (verdict = Some ErrOpenState \<or>
                       verdict = None \<and> (case req of None \<Rightarrow> False | Some e \<Rightarrow> \<not> success e));
          content = (case cached of
                     Some c \<Rightarrow>
                       (if verdict = None \<and> fallbackCheck = None \<and> req = Some None
                        then SetTTL c (cache_key cacheKey) (if linked then Some decoded else None) (cj_fallbackTTL cli) (cs_cache st)
                        else cs_cache st)
                   | None \<Rightarrow> cs_cache st)
      in (res, if fell_back then snd (fallback None) else current, st\<lparr>cs_breaker := cb, cs_cache := content\<rparr>))"

section \<open>Methods\<close>

text \<open>
  What the methods need from outside: the network, the text of a decoding error (\<open>env_bad\<close>) and
  what it leaves of the response (\<open>env_half\<close>), and the two times of a call.
\<close>

record call_env =
  env_net :: network
  env_custom :: "(string \<times> string) range_order"
  env_ctx :: "ctx_value \<Rightarrow> ctx_value option"
  env_newID :: uuid
  env_bad :: string
  env_half :: "json \<Rightarrow> method_response \<Rightarrow> method_response"
  env_errorf :: "string \<Rightarrow> string"
  env_now :: time
  env_later :: time

text \<open>
  The error a method passes on: an error in the response, decoded, replaces the error of the
  call. (\<^verbatim>\<open>fmt.Errorf\<close> takes the message as a format: \<open>env_errorf\<close>.)
\<close>

definition response_error ::
    "'c ClientJsonRPC \<Rightarrow> call_env \<Rightarrow> ResponseRPC option \<Rightarrow> cli_error option \<Rightarrow> cb_error option" where
  "response_error cli env rpcResponse err =
     (case Option.bind rpcResponse rs_Error of
        Some e \<Rightarrow>
          (case cj_errorDecoder cli of
             Some decoder \<Rightarrow> decoder (RPCError_Raw e)
           | None \<Rightarrow> Some (AppError (env_errorf env (re_Message e))))
      | None \<Rightarrow> map_option (\<lambda>e. AppError (cli_Error e)) err)"

text \<open>
  The five methods have one shape. The result is \<open>None\<close> for a panic, else the error or the
  response.
\<close>

definition call_method ::
    "'c ClientJsonRPC \<Rightarrow> call_env \<Rightarrow> string \<Rightarrow> json \<Rightarrow> uint64 \<Rightarrow> (fallbackServerSettings \<Rightarrow> fallback_check) \<Rightarrow>
     (json \<Rightarrow> method_response \<Rightarrow> method_response option) \<Rightarrow> method_response \<Rightarrow> 'c client_state \<Rightarrow>
     (cb_error + method_response) option \<times> 'c client_state" where
  "call_method cli env method params cacheKey check dec zero st =
     (let (rpcResponse, err) = Call (cj_rpc cli) (env_net env) (env_custom env) (env_ctx env) (env_newID env) method
                                 [GoValue Struct params];
          st1 = st\<lparr>cs_sent := cs_sent st @ [NewRequestWithID (env_newID env) method [GoValue Struct params]]\<rparr>;
          fallbackCheck = map_option check (cj_fallback cli);
          err' = response_error cli env rpcResponse err;
          (res, response, st2) =
            proceedResponse cli (env_bad env) (env_half env) (env_now env) (env_later env) err' cacheKey fallbackCheck rpcResponse dec zero st1
      in (case res of None \<Rightarrow> None | Some (Some e) \<Rightarrow> Some (Inl e) | Some None \<Rightarrow> Some (Inr response), st2))"

definition enc_token :: "string \<Rightarrow> json" where
  "enc_token t = JObj [(''token'', JStr t)]"

definition enc_createRoom :: "string \<Rightarrow> duration \<Rightarrow> json" where
  "enc_createRoom t ttl = JObj [(''token'', JStr t), (''createRoom'', JObj [(''roomTTl'', JInt (sint ttl))])]"

definition enc_getDeletedRooms :: "string \<Rightarrow> GetDeletedRooms_id list \<Rightarrow> json" where
  "enc_getDeletedRooms t ids = JObj [(''token'', JStr t), (''ids'', enc_ids ids)]"

text \<open>Decoding of the response structs.\<close>

fun upd_num :: "(go_int \<Rightarrow> bool \<Rightarrow> go_int \<times> bool) \<Rightarrow> method_response \<Rightarrow> method_response" where
  "upd_num f (RespConnectionsNum n b) = (case f n b of (n', b') \<Rightarrow> RespConnectionsNum n' b')"
| "upd_num f r = r"

fun decode_bool :: "(bool \<Rightarrow> 's \<Rightarrow> 's) \<Rightarrow> json \<Rightarrow> 's \<Rightarrow> 's option" where
  "decode_bool upd (JBool b) s = Some (upd b s)"
| "decode_bool upd JNull s = Some s"
| "decode_bool upd _ s = None"

definition dec_connectionsNum :: "json \<Rightarrow> method_response \<Rightarrow> method_response option" where
  "dec_connectionsNum = decode_struct
     [(''countConn'', decode_int64 (\<lambda>i. upd_num (\<lambda>_ b. (i, b)))), (''exists'', decode_bool (\<lambda>b. upd_num (\<lambda>n _. (n, b))))]"

definition dec_exists :: "json \<Rightarrow> method_response \<Rightarrow> method_response option" where
  "dec_exists = decode_struct [(''exists'', decode_bool (\<lambda>b _. RespExists b))]"

fun upd_settings :: "(Settings \<Rightarrow> Settings) \<Rightarrow> method_response \<Rightarrow> method_response" where
  "upd_settings f (RespSettings s) = RespSettings (f s)"
| "upd_settings f r = r"

definition settings_fields :: "method_response field list" where
  "settings_fields =
     [(''serverType'', decode_string (\<lambda>t. upd_settings (\<lambda>s. s\<lparr>set_ServerType := t\<rparr>))),
      (''serverPort'', decode_string (\<lambda>t. upd_settings (\<lambda>s. s\<lparr>set_ServerPort := t\<rparr>))),
      (''connectionPort'', decode_string (\<lambda>t. upd_settings (\<lambda>s. s\<lparr>set_ConnectionPort := t\<rparr>))),
      (''serverAddress'', decode_string (\<lambda>t. upd_settings (\<lambda>s. s\<lparr>set_ServerAddress := t\<rparr>))),
      (''maxConnections'', decode_int64 (\<lambda>i. upd_settings (\<lambda>s. s\<lparr>set_MaxConnections := i\<rparr>))),
      (''maxRequestPerSecond'', decode_int64 (\<lambda>i. upd_settings (\<lambda>s. s\<lparr>set_MaxRequestPerSecond := i\<rparr>)))]"

definition dec_settings :: "json \<Rightarrow> method_response \<Rightarrow> method_response option" where
  "dec_settings = decode_struct [(''settings'', decode_struct settings_fields)]"

definition dec_nothing :: "json \<Rightarrow> method_response \<Rightarrow> method_response option" where
  "dec_nothing = decode_struct []"

fun decode_deleted :: "(string \<Rightarrow> uuid option) \<Rightarrow> json \<Rightarrow> method_response \<Rightarrow> method_response option" where
  "decode_deleted puuid (JArr vs) r =
     map_option RespDeletedIds
       (decode_all (\<lambda>v. decode_struct (room_id_fields puuid) v \<lparr>del_GameID = 0, del_RoomID = 0\<rparr>) vs)"
| "decode_deleted puuid JNull r = Some (RespDeletedIds [])"
| "decode_deleted puuid _ r = None"

definition dec_deletedIds :: "(string \<Rightarrow> uuid option) \<Rightarrow> json \<Rightarrow> method_response \<Rightarrow> method_response option" where
  "dec_deletedIds puuid = decode_struct [(''deletedIds'', decode_deleted puuid)]"

definition zero_Settings :: Settings where
  "zero_Settings = \<lparr>set_ServerType = [], set_ServerPort = [], set_ConnectionPort = [], set_ServerAddress = [],
     set_MaxConnections = 0, set_MaxRequestPerSecond = 0\<rparr>"

definition client_GetConnectionsNum ::
    "'c ClientJsonRPC \<Rightarrow> call_env \<Rightarrow> uint64 \<Rightarrow> string \<Rightarrow> 'c client_state \<Rightarrow> (cb_error + method_response) option \<times> 'c client_state" where
  "client_GetConnectionsNum cli env key tok =
     call_method cli env ''serversettings.getconnectionsnum'' (enc_token tok) key fb_GetConnectionsNum dec_connectionsNum
       (RespConnectionsNum 0 False)"

definition client_HealthCheck ::
    "'c ClientJsonRPC \<Rightarrow> call_env \<Rightarrow> uint64 \<Rightarrow> string \<Rightarrow> 'c client_state \<Rightarrow> (cb_error + method_response) option \<times> 'c client_state" where
  "client_HealthCheck cli env key tok =
     call_method cli env ''serversettings.healthcheck'' (enc_token tok) key fb_HealthCheck dec_exists (RespExists False)"

definition client_GetServerSettings ::
    "'c ClientJsonRPC \<Rightarrow> call_env \<Rightarrow> uint64 \<Rightarrow> string \<Rightarrow> 'c client_state \<Rightarrow> (cb_error + method_response) option \<times> 'c client_state" where
  "client_GetServerSettings cli env key tok =
     call_method cli env ''serversettings.getserversettings'' (enc_token tok) key fb_GetServerSettings dec_settings
       (RespSettings zero_Settings)"

definition client_CreateRoom ::
    "'c ClientJsonRPC \<Rightarrow> call_env \<Rightarrow> uint64 \<Rightarrow> string \<Rightarrow> duration \<Rightarrow> 'c client_state \<Rightarrow>
     (cb_error + method_response) option \<times> 'c client_state" where
  "client_CreateRoom cli env key tok ttl =
     call_method cli env ''serversettings.createroom'' (enc_createRoom tok ttl) key fb_CreateRoom dec_nothing RespNothing"

definition client_GetDeletedRooms ::
    "'c ClientJsonRPC \<Rightarrow> call_env \<Rightarrow> uint64 \<Rightarrow> string \<Rightarrow> GetDeletedRooms_id list \<Rightarrow> 'c client_state \<Rightarrow>
     (cb_error + method_response) option \<times> 'c client_state" where
  "client_GetDeletedRooms cli env key tok ids =
     call_method cli env ''serversettings.getdeletedrooms'' (enc_getDeletedRooms tok ids) key fb_GetDeletedRooms
       (dec_deletedIds (net_uuid (env_net env))) (RespDeletedIds [])"

section \<open>Requests for a batch\<close>

text \<open>
  The \<^verbatim>\<open>Req\<close> methods build a request and, for a caller with a callback, the handler of its
  response. The arguments of \<^verbatim>\<open>callback(response.Exists, cli.proceedResponse(..., &response))\<close> are the
  fields of the response and the error of the call that fills the response: Go leaves open
  whether a field is read before the call or after it. \<open>seen\<close> is that choice, a function of the
  response before and after. A handler gives what the callback is called with, or \<open>None\<close> for a
  panic.
\<close>

type_synonym 'c rpcCallback =
  "cli_error option \<Rightarrow> ResponseRPC \<Rightarrow> 'c client_state \<Rightarrow> (method_response \<times> cb_error option) option \<times> 'c client_state"

definition retHandler ::
    "'c ClientJsonRPC \<Rightarrow> call_env \<Rightarrow> uint64 \<Rightarrow> (fallbackServerSettings \<Rightarrow> fallback_check) \<Rightarrow>
     (json \<Rightarrow> method_response \<Rightarrow> method_response option) \<Rightarrow> (method_response \<Rightarrow> method_response \<Rightarrow> method_response) \<Rightarrow>
     method_response \<Rightarrow> 'c rpcCallback" where
  "retHandler cli env cacheKey check dec seen zero err rpcResponse st =
     (let fallbackCheck = map_option check (cj_fallback cli);
          err' = response_error cli env (Some rpcResponse) err;
          (res, response, st') =
            proceedResponse cli (env_bad env) (env_half env) (env_now env) (env_later env) err' cacheKey fallbackCheck
              (Some rpcResponse) dec zero st
      in (map_option (\<lambda>e. (seen zero response, e)) res, st'))"

definition req_request :: "call_env \<Rightarrow> string \<Rightarrow> json \<Rightarrow> RequestRPC" where
  "req_request env method params =
     \<lparr>rq_ID = env_newID env, rq_Method = method, rq_Params = Some params, rq_JSONRPC = Version\<rparr>"

text \<open>One field, and the two fields of the first method, each read early or late.\<close>

definition read_field :: "bool \<Rightarrow> method_response \<Rightarrow> method_response \<Rightarrow> method_response" where
  "read_field early before after = (if early then before else after)"

fun read_two :: "bool \<Rightarrow> bool \<Rightarrow> method_response \<Rightarrow> method_response \<Rightarrow> method_response" where
  "read_two e1 e2 (RespConnectionsNum n b) (RespConnectionsNum n' b') =
     RespConnectionsNum (if e1 then n else n') (if e2 then b else b')"
| "read_two e1 e2 before after = after"

definition client_ReqGetConnectionsNum ::
    "'c ClientJsonRPC \<Rightarrow> call_env \<Rightarrow> uint64 \<Rightarrow> bool \<times> bool \<Rightarrow> bool \<Rightarrow> string \<Rightarrow> RequestRPC \<times> 'c rpcCallback option" where
  "client_ReqGetConnectionsNum cli env key early callback tok =
     (req_request env ''serversettings.getconnectionsnum'' (enc_token tok),
      if callback
      then Some (retHandler cli env key fb_GetConnectionsNum dec_connectionsNum (read_two (fst early) (snd early))
                   (RespConnectionsNum 0 False))
      else None)"

definition client_ReqHealthCheck ::
    "'c ClientJsonRPC \<Rightarrow> call_env \<Rightarrow> uint64 \<Rightarrow> bool \<Rightarrow> bool \<Rightarrow> string \<Rightarrow> RequestRPC \<times> 'c rpcCallback option" where
  "client_ReqHealthCheck cli env key early callback tok =
     (req_request env ''serversettings.healthcheck'' (enc_token tok),
      if callback
      then Some (retHandler cli env key fb_HealthCheck dec_exists (read_field early) (RespExists False))
      else None)"

definition client_ReqGetServerSettings ::
    "'c ClientJsonRPC \<Rightarrow> call_env \<Rightarrow> uint64 \<Rightarrow> bool \<Rightarrow> bool \<Rightarrow> string \<Rightarrow> RequestRPC \<times> 'c rpcCallback option" where
  "client_ReqGetServerSettings cli env key early callback tok =
     (req_request env ''serversettings.getserversettings'' (enc_token tok),
      if callback
      then Some (retHandler cli env key fb_GetServerSettings dec_settings (read_field early) (RespSettings zero_Settings))
      else None)"

definition client_ReqCreateRoom ::
    "'c ClientJsonRPC \<Rightarrow> call_env \<Rightarrow> uint64 \<Rightarrow> bool \<Rightarrow> string \<Rightarrow> duration \<Rightarrow> RequestRPC \<times> 'c rpcCallback option" where
  "client_ReqCreateRoom cli env key callback tok ttl =
     (req_request env ''serversettings.createroom'' (enc_createRoom tok ttl),
      if callback
      then Some (retHandler cli env key fb_CreateRoom dec_nothing (read_field False) RespNothing)
      else None)"

definition client_ReqGetDeletedRooms ::
    "'c ClientJsonRPC \<Rightarrow> call_env \<Rightarrow> uint64 \<Rightarrow> bool \<Rightarrow> bool \<Rightarrow> string \<Rightarrow> GetDeletedRooms_id list \<Rightarrow>
     RequestRPC \<times> 'c rpcCallback option" where
  "client_ReqGetDeletedRooms cli env key early callback tok ids =
     (req_request env ''serversettings.getdeletedrooms'' (enc_getDeletedRooms tok ids),
      if callback
      then Some (retHandler cli env key fb_GetDeletedRooms (dec_deletedIds (net_uuid (env_net env))) (read_field early)
                   (RespDeletedIds []))
      else None)"

text \<open>The handlers of a batch run one after the other; a panic ends the batch.\<close>

fun run_callbacks ::
    "(uuid \<times> 'c rpcCallback \<times> cli_error option \<times> ResponseRPC) list \<Rightarrow> 'c client_state \<Rightarrow>
     (uuid \<times> method_response \<times> cb_error option) list option \<times> 'c client_state" where
  "run_callbacks [] st = (Some [], st)"
| "run_callbacks ((i, h, err, r) # calls) st =
     (case h err r st of
        (None, st') \<Rightarrow> (None, st')
      | (Some out, st') \<Rightarrow>
          (let (outs, st'') = run_callbacks calls st' in (map_option (Cons (i, out)) outs, st'')))"

definition client_Batch ::
    "'c ClientJsonRPC \<Rightarrow> call_env \<Rightarrow> (uuid \<times> ResponseRPC) range_order \<Rightarrow> (RequestRPC \<times> 'c rpcCallback option) list \<Rightarrow>
     'c client_state \<Rightarrow> (uuid \<times> method_response \<times> cb_error option) list option \<times> 'c client_state" where
  "client_Batch cli env q requests st =
     (let st1 = st\<lparr>cs_sent := cs_sent st @ map fst requests\<rparr>
      in case Batch (cj_rpc cli) (env_net env) (env_custom env) q (env_ctx env) requests of
           None \<Rightarrow> (None, st1)
         | Some calls \<Rightarrow> run_callbacks calls st1)"

end
