(* ===== verification/JsonRpcProps.thy ===== *)
theory JsonRpcProps
  imports JsonRpc
begin

text \<open>
  Properties of the JSON-RPC transport: the contract of a method handler (locale
  \<open>rpc_handler\<close>), what a batch answers, what never reaches the service, and a call of
  \<^verbatim>\<open>createRoom\<close> from the HTTP request to the game state.
\<close>

section \<open>The contract of a method handler\<close>

text \<open>A handler answers every request that has an id, with that id.\<close>

locale rpc_handler =
  fixes single :: "'st methodJsonRPC"
  assumes answers: "rpc_ID request \<noteq> None \<Longrightarrow>
    \<exists>r st'. single ctx request st = (Some r, st') \<and> rpc_ID r = rpc_ID request"
begin

lemma answer_all_ids:
  "map rpc_ID (fst (answer_all single ctx requests responses st)) =
     map rpc_ID responses @ filter (\<lambda>i. i \<noteq> None) (map rpc_ID requests)"
proof (induction requests arbitrary: responses st)
  case (Cons request requests)
  show ?case
  proof (cases "rpc_ID request")
    case None
    then show ?thesis using Cons.IH by (simp add: case_prod_unfold Let_def)
  next
    case (Some i)
    then obtain r st' where "single ctx request st = (Some r, st')" "rpc_ID r = Some i"
      using answers [of request ctx st] by auto
    then show ?thesis using Some Cons.IH by (simp add: responses_append_def)
  qed
qed simp

lemma doBatch_answers:
  assumes "int (length requests) \<le> sint limit"
    and "EqualFold (ctx_SyncOn ctx) ''true'' \<or> 0 < sint parallel"
  shows "\<exists>responses st'. do_batch limit parallel single schedule ctx requests st = Returns (responses, st') \<and>
    mset (map rpc_ID responses) = mset (filter (\<lambda>i. i \<noteq> None) (map rpc_ID requests)) \<and>
    (EqualFold (ctx_SyncOn ctx) ''true'' \<longrightarrow> map rpc_ID responses = filter (\<lambda>i. i \<noteq> None) (map rpc_ID requests))"
proof -
  let ?sync = "EqualFold (ctx_SyncOn ctx) ''true''"
  let ?rs = "if ?sync then requests else range_in schedule requests"
  obtain responses st' where r: "answer_all single ctx ?rs [] st = (responses, st')" by force
  then have ids: "map rpc_ID responses = filter (\<lambda>i. i \<noteq> None) (map rpc_ID ?rs)"
    using answer_all_ids [of ctx ?rs "[]" st] by simp
  have "mset (map rpc_ID responses) = filter_mset (\<lambda>i. i \<noteq> None) (image_mset rpc_ID (mset ?rs))"
    unfolding ids by (simp only: mset_filter mset_map)
  also have "\<dots> = mset (filter (\<lambda>i. i \<noteq> None) (map rpc_ID requests))"
    by (simp only: mset_filter mset_map) simp
  finally have M: "mset (map rpc_ID responses) = mset (filter (\<lambda>i. i \<noteq> None) (map rpc_ID requests))" .
  have D: "do_batch limit parallel single schedule ctx requests st = Returns (responses, st')"
    using assms r by (cases ?sync) (simp_all add: do_batch_def Let_def)
  show ?thesis
    by (rule exI [of _ responses], rule exI [of _ st'], intro conjI impI, rule D, rule M) (simp add: ids)
qed

end

lemma makeErrorResponse_id:
  "i \<noteq> None \<Longrightarrow> \<exists>r. makeErrorResponseJsonRPC i code msg data = Some r \<and> rpc_ID r = i"
  by (simp add: makeErrorResponseJsonRPC_def zero_base_def)

definition answered :: "baseJsonRPC option \<times> 'st \<Rightarrow> baseJsonRPC \<Rightarrow> bool" where
  "answered res request \<longleftrightarrow> (\<exists>r st'. res = (Some r, st') \<and> rpc_ID r = rpc_ID request)"

lemma answered_error:
  "rpc_ID request \<noteq> None \<Longrightarrow> answered (makeErrorResponseJsonRPC (rpc_ID request) code msg data, st) request"
  using makeErrorResponse_id [of "rpc_ID request" code msg data] by (auto simp: answered_def)

lemma handle_answers:
  assumes "rpc_ID request \<noteq> None"
  shows "answered (handle http dec ctx flds zero setToken call request st) request"
  using answered_error [OF assms]
  by (auto simp: handle_def case_prod_unfold Let_def split: option.splits sum.splits prod.splits)
    (auto simp: answered_def zero_base_def)

lemmas method_defs = getConnectionsNum_def healthCheck_def getServerSettings_def createRoom_def getDeletedRooms_def

lemma doSingleBatch_answered:
  "rpc_ID request \<noteq> None \<Longrightarrow> answered (doSingleBatch http dec ctx request st) request"
  "rpc_ID request \<noteq> None \<Longrightarrow> answered (Server_doSingleBatch http dec ctx request st) request"
  by (simp_all add: doSingleBatch_def Server_doSingleBatch_def invalid_method_def method_defs Let_def
      handle_answers answered_error)

interpretation settings_rpc: rpc_handler "doSingleBatch http dec" for http dec
  by unfold_locales (rule doSingleBatch_answered(1) [unfolded answered_def])

interpretation server_rpc: rpc_handler "Server_doSingleBatch http dec" for http dec
  by unfold_locales (rule doSingleBatch_answered(2) [unfolded answered_def])

section \<open>Properties\<close>

text \<open>
  A batch within the limit always returns, and answers every request that has an id exactly
  once, with that id, and no other: in the order of the requests when the client asks for
  synchronous handling, and in the order of completion otherwise, whatever that is. The appends of the
  goroutines are taken not to race here; \<open>BatchRace\<close> has them interleave.
\<close>

theorem batch_answers_each_request_once:
  assumes "EqualFold (ctx_SyncOn ctx) ''true'' \<or> 0 < sint (maxParallelBatch http) \<and> 0 < sint (srv_maxParallelBatch srv)"
  shows "\<forall>batch \<in> {(maxBatchSize http, doBatch http dec), (srv_maxBatchSize srv, Server_doBatch srv http dec)}.
    int (length requests) \<le> sint (fst batch) \<longrightarrow>
    (\<exists>responses st'. snd batch schedule ctx requests st = Returns (responses, st') \<and>
       mset (map rpc_ID responses) = mset (filter (\<lambda>i. i \<noteq> None) (map rpc_ID requests)) \<and>
       (EqualFold (ctx_SyncOn ctx) ''true'' \<longrightarrow> map rpc_ID responses = filter (\<lambda>i. i \<noteq> None) (map rpc_ID requests)))"
  using settings_rpc.doBatch_answers [of requests "maxBatchSize http" ctx "maxParallelBatch http" http dec schedule st]
    server_rpc.doBatch_answers [of requests "srv_maxBatchSize srv" ctx "srv_maxParallelBatch srv" http dec schedule st] assms
  by (auto simp: doBatch_def Server_doBatch_def)

definition ex_http :: "unit httpServerSettings" where
  "ex_http = (NewServerSettings_http
     \<lparr>api_GetConnectionsNum = (\<lambda>t st. (Inr (0, True), st)), api_HealthCheck = (\<lambda>t st. (Inr True, st)),
      api_GetServerSettings = (\<lambda>t st. (Inr (NewSettings 4 0), st)), api_CreateRoom = (\<lambda>t ttl st. (None, st)),
      api_GetDeletedRooms = (\<lambda>t ids st. (Inr [], st))\<rparr>)
     \<lparr>maxBatchSize := 3, maxParallelBatch := 2\<rparr>"

definition ex_dec :: decoders where
  "ex_dec = \<lparr>json_err = (\<lambda>_. ''bad''), parse_uuid = (\<lambda>_. None)\<rparr>"

definition ex_ctx :: fiber_ctx where
  "ex_ctx = \<lparr>ctx_Method = ''POST'', ctx_Body = None, ctx_Token = ''alice'', ctx_SyncOn = []\<rparr>"

definition ex_request :: "json option \<Rightarrow> string \<Rightarrow> baseJsonRPC" where
  "ex_request i m = zero_base\<lparr>rpc_ID := i, rpc_Version := ''2.0'', rpc_Method := m\<rparr>"

theorem batch_answers_each_request_once_witness:
  "\<exists>responses. doBatch ex_http ex_dec reversed_order ex_ctx
       [ex_request (Some (JInt 1)) ''healthCheck'', ex_request None ''healthCheck'', ex_request (Some (JInt 2)) ''nope''] () =
       Returns (responses, ()) \<and>
     mset (map rpc_ID responses) = {#Some (JInt 1), Some (JInt 2)#}"
  using batch_answers_each_request_once [of ex_ctx ex_http "new_Server []" ex_dec
      "[ex_request (Some (JInt 1)) ''healthCheck'', ex_request None ''healthCheck'', ex_request (Some (JInt 2)) ''nope'']"
      reversed_order "()"]
  by (auto simp: ex_http_def ex_request_def zero_base_def new_Server_def defaultMaxBatchSize_def defaultMaxParallelBatch_def)

text \<open>
  A batch above the limit gets no answer. The error response that says so is built without
  an id and so is dropped: no request is handled and the list of responses is empty.
\<close>

theorem oversized_batch_is_dropped:
  "(sint (maxBatchSize http) < int (length requests) \<longrightarrow> doBatch http dec schedule ctx requests st = Returns ([], st)) \<and>
   (sint (srv_maxBatchSize srv) < int (length requests) \<longrightarrow>
      Server_doBatch srv http dec schedule ctx requests st = Returns ([], st))"
  by (simp add: doBatch_def Server_doBatch_def do_batch_def makeErrorResponseJsonRPC_def responses_append_def)

theorem oversized_batch_is_dropped_witness:
  "doBatch ex_http ex_dec insertion_order ex_ctx
     (replicate 4 (ex_request (Some (JInt 1)) ''healthCheck'')) () = Returns ([], ())"
  using oversized_batch_is_dropped [of ex_http "replicate 4 (ex_request (Some (JInt 1)) ''healthCheck'')"
      ex_dec insertion_order ex_ctx "()"]
  by (simp add: ex_http_def)

definition method_names :: "string list" where
  "method_names = [''getconnectionsnum'', ''healthcheck'', ''getserversettings'', ''createroom'', ''getdeletedrooms'']"

definition rejected_by_transport :: "'st \<Rightarrow> baseJsonRPC option \<times> 'st \<Rightarrow> baseJsonRPC \<Rightarrow> bool" where
  "rejected_by_transport st res request \<longleftrightarrow> snd res = st \<and>
     (rpc_ID request = None \<longrightarrow> fst res = None) \<and>
     (rpc_ID request \<noteq> None \<longrightarrow> (\<exists>r e. fst res = Some r \<and> rpc_Result r = None \<and> rpc_Error r = Some e \<and>
        err_Code e \<in> {parseError, methodNotFoundError}))"

lemma rejected_error:
  "code \<in> {parseError, methodNotFoundError} \<Longrightarrow>
   rejected_by_transport st (makeErrorResponseJsonRPC (rpc_ID request) code msg data, st) request"
  by (cases "rpc_ID request") (simp_all add: rejected_by_transport_def makeErrorResponseJsonRPC_def zero_base_def)

lemma rejected_version:
  "rpc_Version request \<noteq> Version \<Longrightarrow>
   rejected_by_transport st (handle http dec ctx flds zero setToken call request st) request"
  by (auto simp: handle_def rejected_error split: option.splits)

lemma doSingleBatch_rejects:
  "rpc_Version request \<noteq> Version \<or> ToLower (rpc_Method request) \<notin> set method_names \<Longrightarrow>
   rejected_by_transport st (doSingleBatch http dec ctx request st) request"
  by (auto simp: doSingleBatch_def method_names_def Let_def method_defs invalid_method_def rejected_error rejected_version)

lemma Server_doSingleBatch_rejects:
  "rpc_Version request \<noteq> Version \<or> ToLower (rpc_Method request) \<notin> (@) ''serversettings.'' ` set method_names \<Longrightarrow>
   rejected_by_transport st (Server_doSingleBatch http dec ctx request st) request"
  by (auto simp: Server_doSingleBatch_def method_names_def Let_def method_defs invalid_method_def rejected_error rejected_version)

text \<open>
  What never reaches the service. A request with another protocol version than "2.0", or
  with a method that the endpoint does not have (names without regard to case, with the prefix
  of the service at the server's own endpoint), changes nothing; with an id it is answered by an
  error, without one it is not answered.
\<close>

theorem invalid_requests_never_reach_service:
  "(rpc_Version request \<noteq> ''2.0'' \<or> ToLower (rpc_Method request) \<notin> set method_names \<longrightarrow>
      rejected_by_transport st (doSingleBatch http dec ctx request st) request) \<and>
   (rpc_Version request \<noteq> ''2.0'' \<or> ToLower (rpc_Method request) \<notin> (@) ''serversettings.'' ` set method_names \<longrightarrow>
      rejected_by_transport st (Server_doSingleBatch http dec ctx request st) request)"
  using doSingleBatch_rejects [of request st http dec ctx] Server_doSingleBatch_rejects [of request st http dec ctx]
  unfolding Version_def by blast

theorem invalid_requests_never_reach_service_witness:
  "rejected_by_transport () (doSingleBatch ex_http ex_dec ex_ctx (zero_base\<lparr>rpc_Version := ''1.0''\<rparr>) ())
     (zero_base\<lparr>rpc_Version := ''1.0''\<rparr>)"
  using invalid_requests_never_reach_service [of "zero_base\<lparr>rpc_Version := ''1.0''\<rparr>" "()" ex_http ex_dec ex_ctx] by simp

section \<open>A call from HTTP to the game state\<close>

text \<open>The settings handlers as the transport holds them, at one time and with fixed map orders.\<close>

definition tcp_api ::
    "'db ServerSettings \<Rightarrow> go_int \<Rightarrow> uint64 \<Rightarrow> time \<Rightarrow> (string \<times> GetDeletedRooms_id) range_order \<Rightarrow>
     (string \<times> GetDeletedRooms_id) range_order \<Rightarrow> 'db app api_ServerSettings" where
  "tcp_api r numCPUs memSys now p q =
     \<lparr>api_GetConnectionsNum = tcp_GetConnectionsNum r now, api_HealthCheck = tcp_HealthCheck r now,
      api_GetServerSettings = tcp_GetServerSettings r numCPUs memSys now, api_CreateRoom = tcp_CreateRoom r now,
      api_GetDeletedRooms = tcp_GetDeletedRooms r p q now\<rparr>"

definition createRoom_body :: "json \<Rightarrow> int \<Rightarrow> json" where
  "createRoom_body i ttl = JObj
     [(''id'', i), (''jsonrpc'', JStr ''2.0''), (''method'', JStr ''createRoom''),
      (''params'', JObj [(''createRoom'', JObj [(''roomTTl'', JInt ttl)])])]"

lemma fold_names:
  "EqualFold ''id'' ''id''" "EqualFold ''jsonrpc'' ''jsonrpc''" "\<not> EqualFold ''id'' ''jsonrpc''"
  "\<not> EqualFold ''id'' ''method''" "\<not> EqualFold ''jsonrpc'' ''method''" "EqualFold ''method'' ''method''"
  "\<not> EqualFold ''id'' ''params''" "\<not> EqualFold ''jsonrpc'' ''params''" "\<not> EqualFold ''method'' ''params''"
  "\<not> EqualFold ''error'' ''params''" "EqualFold ''params'' ''params''" "\<not> EqualFold ''token'' ''createRoom''"
  "EqualFold ''createRoom'' ''createRoom''" "EqualFold ''roomTTl'' ''roomTTl''"
  by (simp_all add: EqualFold_def ToLower_def to_lower_def)

lemma decode_createRoom_body:
  "decode_base (createRoom_body i ttl) =
     Some (zero_base\<lparr>rpc_ID := Some i, rpc_Version := ''2.0'', rpc_Method := ''createRoom'',
       rpc_Params := Some (JObj [(''createRoom'', JObj [(''roomTTl'', JInt ttl)])])\<rparr>)"
  by (simp add: decode_base_def createRoom_body_def base_fields_def fold_names decode_raw_def)

lemma create_room_cases:
  assumes "world_ok w" and "parse now tok = Inr i"
  obtains (new) w' where "CreateRoom (mem_service parse cpus mem) now tok ttl w = (None, w')" "world_ok w'"
      "rooms (abs_world w) (room_of i) = None" "abs_world w' = spec_create i (abs_world w)"
    | (exists) w' where "CreateRoom (mem_service parse cpus mem) now tok ttl w = (Some ErrRoomIsExists, w')" "world_ok w'"
      "rooms (abs_world w) (room_of i) \<noteq> None" "abs_world w' = abs_world w"
proof -
  obtain err w' where eq: "CreateRoom (mem_service parse cpus mem) now tok ttl w = (err, w')"
    by force
  show thesis
    using sv.CreateRoom_spec [where parse = parse and cpus = cpus and mem = mem, of w now tok i ttl]
      sv.same_ok [where parse = parse and cpus = cpus and mem = mem, of w w']
      sv.same_abs [where parse = parse and cpus = cpus and mem = mem, of w w'] assms that
    unfolding world_defs by (auto simp: eq split: if_splits)
qed

lemma tcp_CreateRoom_eq:
  assumes "app_ok st" and "0 < now" and "0 <s lim"
    and "CreateRoom (mem_service parse cpus mem) now tok ttl (world st) = (err, w')" and "world_ok w'"
  obtains st' where "tcp_CreateRoom (mem_settings parse cpus mem lim) now tok ttl st = (err, st')"
    and "app_ok st'" and "world st' = w'"
proof -
  obtain l where "check_limit (NewRateLimit lim MemoryDb_ops) now tok st = (False, st\<lparr>limits := l\<rparr>)"
      "app_ok (st\<lparr>limits := l\<rparr>)"
    by (rule check_limit_ok [OF assms(1-3)])
  then show thesis
    using assms(4,5) by (intro that [of "st\<lparr>limits := l, world := w'\<rparr>"]) (simp_all add: tcp_CreateRoom_def app_ok_def)
qed

definition settings_http ::
    "(time \<Rightarrow> string \<Rightarrow> error + Info) \<Rightarrow> go_int \<Rightarrow> uint64 \<Rightarrow> go_int \<Rightarrow> time \<Rightarrow>
     (string \<times> GetDeletedRooms_id) range_order \<Rightarrow> any MemoryDb app httpServerSettings" where
  "settings_http parse cpus mem lim now p =
     NewServerSettings_http (tcp_api (mem_settings parse cpus mem lim) cpus mem now p p)"

lemma ToLower_createRoom: "ToLower ''createRoom'' = ''createroom''"
  by code_simp

lemma serveCreateRoom_eq:
  assumes "ctx = \<lparr>ctx_Method = ''POST'', ctx_Body = Some (createRoom_body v ttl), ctx_Token = tok, ctx_SyncOn = sync\<rparr>"
    and "tok \<noteq> []" and "- (2 ^ 63) \<le> ttl" and "ttl < 2 ^ 63"
    and "tcp_CreateRoom (mem_settings parse cpus mem lim) now tok (word_of_int ttl) st = (err, st')"
  shows "serveCreateRoom (settings_http parse cpus mem lim now p) dec ctx st =
    (sendResponse (One (case err of
       None \<Rightarrow> Some (zero_base\<lparr>rpc_ID := Some v, rpc_Version := ''2.0'', rpc_Result := Some (JObj [])\<rparr>)
     | Some e \<Rightarrow> makeErrorResponseJsonRPC (Some v) internalError (Error e) (Some (DataError e)))) new_response, st')"
  using assms(2-5)
  by (simp add: assms(1) serveCreateRoom_def serveMethod_def decode_createRoom_body ToLower_createRoom createRoom_def
      handle_def createRoom_fields_def fold_names Version_def settings_http_def NewServerSettings_http_def
      newServerServerSettings_def tcp_api_def zero_base_def makeErrorResponseJsonRPC_def split: option.splits)

text \<open>
  Creating a room over HTTP. A POST of a \<^verbatim>\<open>createRoom\<close> request with a valid token in the header
  \<^verbatim>\<open>Token\<close> is answered with the request's id: with an empty result when the room is new, and then
  the room exists and is empty; with the error "room is exists" and code -32603 when it is not,
  and then nothing changed.
\<close>

theorem createRoom_over_http:
  assumes "app_ok st" and "0 < now" and "0 <s lim" and "parse now tok = Inr i" and "tok \<noteq> []"
    and "- (2 ^ 63) \<le> ttl" and "ttl < 2 ^ 63"
    and "ctx = \<lparr>ctx_Method = ''POST'', ctx_Body = Some (createRoom_body v ttl), ctx_Token = tok, ctx_SyncOn = sync\<rparr>"
  shows "\<exists>r st'. serveCreateRoom (settings_http parse cpus mem lim now p) dec ctx st =
      (\<lparr>status = 200, written = [One (Some r)]\<rparr>, st') \<and> app_ok st' \<and> rpc_ID r = Some v \<and>
    (if rooms (abs_world (world st)) (room_of i) = None
     then rpc_Result r = Some (JObj []) \<and> rpc_Error r = None \<and>
       abs_world (world st') = spec_create i (abs_world (world st))
     else rpc_Result r = None \<and>
       rpc_Error r = Some \<lparr>err_Code = - 32603, err_Message = ''room is exists'', err_Data = Some (DataError ErrRoomIsExists)\<rparr> \<and>
       abs_world (world st') = abs_world (world st))"
proof -
  have w: "world_ok (world st)" using assms(1) by (simp add: app_ok_def)
  show ?thesis
    using w assms(4)
  proof (cases rule: create_room_cases [where cpus = cpus and mem = mem and ttl = "word_of_int ttl"])
    case (new w')
    obtain st' where "tcp_CreateRoom (mem_settings parse cpus mem lim) now tok (word_of_int ttl) st = (None, st')"
        "app_ok st'" "world st' = w'"
      by (rule tcp_CreateRoom_eq [OF assms(1-3) new(1,2)])
    with serveCreateRoom_eq [OF assms(8,5-7) this(1)] new show ?thesis
      by (simp add: sendResponse_def new_response_def zero_base_def)
  next
    case (exists w')
    obtain st' where "tcp_CreateRoom (mem_settings parse cpus mem lim) now tok (word_of_int ttl) st = (Some ErrRoomIsExists, st')"
        "app_ok st'" "world st' = w'"
      by (rule tcp_CreateRoom_eq [OF assms(1-3) exists(1,2)])
    with serveCreateRoom_eq [OF assms(8,5-7) this(1)] exists show ?thesis
      by (simp add: sendResponse_def new_response_def zero_base_def makeErrorResponseJsonRPC_def internalError_def)
  qed
qed

theorem createRoom_over_http_witness:
  "\<exists>r st'. serveCreateRoom (settings_http ex_parse 4 0 10 5 insertion_order) ex_dec
       \<lparr>ctx_Method = ''POST'', ctx_Body = Some (createRoom_body (JInt 1) 60), ctx_Token = ''alice'', ctx_SyncOn = []\<rparr>
       (new_app 10) = (\<lparr>status = 200, written = [One (Some r)]\<rparr>, st') \<and>
     rpc_Result r = Some (JObj [])"
proof -
  have "ex_parse 5 ''alice'' = Inr (ex_info 7)" "rooms (abs_world (world (new_app 10))) (room_of (ex_info 7)) = None"
    by (simp_all add: ex_parse_def new_app_def abs_new_world)
  then show ?thesis
    using createRoom_over_http [OF new_app_ok [of 10], where now = 5 and lim = 10 and parse = ex_parse and tok = "''alice''"
        and i = "ex_info 7" and ttl = 60 and v = "JInt 1" and cpus = 4 and mem = 0 and p = insertion_order and dec = ex_dec
        and sync = "[]"]
    by (simp add: word_sless_alt) blast
qed

section \<open>Options\<close>

text \<open>Options that leave alone what the settings service copies from the server.\<close>

definition limit_neutral :: "'st Option \<Rightarrow> bool" where
  "limit_neutral opt \<longleftrightarrow> (\<forall>srv. srv_maxBatchSize (opt srv) = srv_maxBatchSize srv \<and>
     srv_maxParallelBatch (opt srv) = srv_maxParallelBatch srv \<and>
     srv_httpServerSettings (opt srv) = srv_httpServerSettings srv \<and> (srvHTTP (opt srv) = None \<longleftrightarrow> srvHTTP srv = None))"

lemma neutral_options:
  "limit_neutral (SetReadBufferSize n)" "limit_neutral (MaxBodySize n)" "limit_neutral (ReadTimeout d)"
  "limit_neutral (WriteTimeout d)" "limit_neutral (WithHeader k f)" "limit_neutral (WithRequestID u k)"
  "limit_neutral (Service_option r)" "limit_neutral (SetFiberCfg b r' rt wt)"
  by (auto simp: limit_neutral_def SetReadBufferSize_def MaxBodySize_def ReadTimeout_def WriteTimeout_def
      WithHeader_def WithRequestID_def Service_option_def SetFiberCfg_def split: option.splits)

definition limit_options :: "go_int \<Rightarrow> go_int \<Rightarrow> 'st httpServerSettings \<Rightarrow> 'st Option list \<Rightarrow> bool" where
  "limit_options n k h opts \<longleftrightarrow>
     (\<forall>opt \<in> set opts. opt = MaxBatchSize n \<or> opt = MaxBatchWorkers k \<or> opt = ServerSettings_option h \<or> limit_neutral opt)"

lemma limit_option_sel [simp]:
  "srv_maxBatchSize (MaxBatchSize n srv) = n" "srv_maxParallelBatch (MaxBatchSize n srv) = srv_maxParallelBatch srv"
  "srvHTTP (MaxBatchSize n srv) = srvHTTP srv" "srv_httpServerSettings (MaxBatchSize n srv) = srv_httpServerSettings srv"
  "srv_maxParallelBatch (MaxBatchWorkers k srv) = k" "srv_maxBatchSize (MaxBatchWorkers k srv) = srv_maxBatchSize srv"
  "srvHTTP (MaxBatchWorkers k srv) = srvHTTP srv" "srv_httpServerSettings (MaxBatchWorkers k srv) = srv_httpServerSettings srv"
  by (simp_all add: MaxBatchSize_def MaxBatchWorkers_def)

lemma limit_neutralD:
  "limit_neutral opt \<Longrightarrow> srv_maxBatchSize (opt srv) = srv_maxBatchSize srv \<and>
     srv_maxParallelBatch (opt srv) = srv_maxParallelBatch srv \<and>
     srv_httpServerSettings (opt srv) = srv_httpServerSettings srv \<and> (srvHTTP (opt srv) = None \<longleftrightarrow> srvHTTP srv = None)"
  by (simp add: limit_neutral_def)

lemma options_before:
  assumes "limit_options n k h opts" and "srvHTTP srv = None" and "srv_httpServerSettings srv = None"
  shows "let srv' = fold (\<lambda>opt srv. opt srv) opts srv in
    srv_maxBatchSize srv' = (if MaxBatchSize n \<in> set opts then n else srv_maxBatchSize srv) \<and>
    srv_maxParallelBatch srv' = (if MaxBatchWorkers k \<in> set opts then k else srv_maxParallelBatch srv) \<and>
    srvHTTP srv' = None \<and> srv_httpServerSettings srv' = None"
  using assms
proof (induction opts arbitrary: srv)
  case (Cons opt opts)
  have "srvHTTP (opt srv) = None" "srv_httpServerSettings (opt srv) = None"
    "opt = MaxBatchSize n \<and> srv_maxBatchSize (opt srv) = n \<or> srv_maxBatchSize (opt srv) = srv_maxBatchSize srv \<and>
       (opt = MaxBatchSize n \<longrightarrow> n = srv_maxBatchSize srv)"
    "opt = MaxBatchWorkers k \<and> srv_maxParallelBatch (opt srv) = k \<or> srv_maxParallelBatch (opt srv) = srv_maxParallelBatch srv \<and>
       (opt = MaxBatchWorkers k \<longrightarrow> k = srv_maxParallelBatch srv)"
    using Cons.prems limit_neutralD [of opt srv]
    by (auto simp: limit_options_def ServerSettings_option_def)
  with Cons.IH [of "opt srv"] Cons.prems(1) show ?case
    by (auto simp: limit_options_def Let_def)
qed simp

lemma options_after:
  assumes "limit_options n k h opts" and "srvHTTP srv \<noteq> None"
    and "MaxBatchSize n \<in> set opts \<Longrightarrow> srv_maxBatchSize srv = n"
    and "MaxBatchWorkers k \<in> set opts \<Longrightarrow> srv_maxParallelBatch srv = k"
  shows "let srv' = fold (\<lambda>opt srv. opt srv) opts srv in
    srv_maxBatchSize srv' = srv_maxBatchSize srv \<and> srv_maxParallelBatch srv' = srv_maxParallelBatch srv \<and>
    srvHTTP srv' \<noteq> None \<and>
    srv_httpServerSettings srv' =
      (if ServerSettings_option h \<in> set opts
       then Some (h\<lparr>maxBatchSize := srv_maxBatchSize srv, maxParallelBatch := srv_maxParallelBatch srv\<rparr>)
       else srv_httpServerSettings srv)"
  using assms
proof (induction opts arbitrary: srv)
  case (Cons opt opts)
  let ?h = "Some (h\<lparr>maxBatchSize := srv_maxBatchSize srv, maxParallelBatch := srv_maxParallelBatch srv\<rparr>)"
  have same: "srvHTTP (opt srv) \<noteq> None" "srv_maxBatchSize (opt srv) = srv_maxBatchSize srv"
    "srv_maxParallelBatch (opt srv) = srv_maxParallelBatch srv"
    using Cons.prems limit_neutralD [of opt srv]
    by (auto simp: limit_options_def ServerSettings_option_def)
  have "srv_httpServerSettings (opt srv) = (if opt = ServerSettings_option h then ?h else srv_httpServerSettings srv)"
    using Cons.prems(1,2) limit_neutralD [of opt srv]
    by (auto simp: limit_options_def ServerSettings_option_def)
  moreover have "limit_options n k h opts" using Cons.prems(1) by (simp add: limit_options_def)
  ultimately show ?case
    using Cons.IH [of "opt srv"] same Cons.prems(3,4) by (auto simp: Let_def)
qed simp

text \<open>
  The order of the options does not matter for the limits. When the options set the batch
  limits to one value each, in whatever order they and the settings service come, the settings
  endpoint ends up with the limits of the server: the given ones, or the defaults 100 and 10.
\<close>

theorem options_in_any_order:
  assumes "limit_options n k h opts" and "ServerSettings_option h \<in> set opts"
  shows "let srv = new_Server opts in
    srv_maxBatchSize srv = (if MaxBatchSize n \<in> set opts then n else 100) \<and>
    srv_maxParallelBatch srv = (if MaxBatchWorkers k \<in> set opts then k else 10) \<and>
    srv_httpServerSettings srv =
      Some (h\<lparr>maxBatchSize := srv_maxBatchSize srv, maxParallelBatch := srv_maxParallelBatch srv\<rparr>)"
proof -
  let ?s0 = "\<lparr>srv_BodyLimit = 0, srv_ReadBufferSize = 0, srv_ReadTimeout = 0, srv_WriteTimeout = 0,
      srvHTTP = None, srv_maxBatchSize = defaultMaxBatchSize, srv_maxParallelBatch = defaultMaxParallelBatch,
      srv_httpServerSettings = None, headerHandlers = []\<rparr>"
  let ?s2 = "(fold (\<lambda>opt srv. opt srv) opts ?s0)\<lparr>srvHTTP := Some []\<rparr>"
  have "srv_maxBatchSize ?s2 = (if MaxBatchSize n \<in> set opts then n else 100)"
    "srv_maxParallelBatch ?s2 = (if MaxBatchWorkers k \<in> set opts then k else 10)"
    using options_before [OF assms(1), of ?s0] by (simp_all add: Let_def defaultMaxBatchSize_def defaultMaxParallelBatch_def)
  with options_after [OF assms(1), of ?s2] assms(2) show ?thesis
    by (simp add: new_Server_def Let_def)
qed

theorem options_in_any_order_witness:
  "let srv = new_Server [ServerSettings_option ex_http, MaxBodySize 10485760, MaxBatchSize 7] in
   map_option maxBatchSize (srv_httpServerSettings srv) = Some 7"
  using options_in_any_order [of 7 1 ex_http "[ServerSettings_option ex_http, MaxBodySize 10485760, MaxBatchSize 7]"]
  by (simp add: limit_options_def neutral_options Let_def)

end
