(* ===== verification/ClientServer.thy ===== *)
theory ClientServer
  imports ClientApi JsonRpcProps
begin

text \<open>
  The generated client connected to the server of \<^verbatim>\<open>pkg/transport\<close>: the HTTP exchange of the client is
  the server's own endpoint. A method of the client then gives what the function of the service
  gives, and every callback of a batch is called once.
\<close>

section \<open>The server as the network of a client\<close>

text \<open>
  Encoding of the responses. The data of an error response is a Go error, whose JSON depends on
  its type (\<open>ej\<close>). The body of an HTTP response is one JSON value or none; an empty list of
  responses is null here, which the client decodes like an empty array.
\<close>

fun enc_data :: "(error \<Rightarrow> json) \<Rightarrow> error_data \<Rightarrow> json" where
  "enc_data ej (DataJson v) = v"
| "enc_data ej (DataError e) = ej e"

definition enc_error :: "(error \<Rightarrow> json) \<Rightarrow> errorJsonRPC \<Rightarrow> json" where
  "enc_error ej e = JObj
     ([(''code'', JInt (err_Code e)), (''message'', JStr (err_Message e))] @
      (case err_Data e of None \<Rightarrow> [] | Some d \<Rightarrow> [(''data'', enc_data ej d)]))"

definition enc_base :: "(error \<Rightarrow> json) \<Rightarrow> baseJsonRPC \<Rightarrow> json" where
  "enc_base ej r = JObj
     ([(''id'', case rpc_ID r of None \<Rightarrow> JNull | Some v \<Rightarrow> v), (''jsonrpc'', JStr (rpc_Version r))] @
      (if rpc_Method r = [] then [] else [(''method'', JStr (rpc_Method r))]) @
      (case rpc_Error r of None \<Rightarrow> [] | Some e \<Rightarrow> [(''error'', enc_error ej e)]) @
      (case rpc_Params r of None \<Rightarrow> [] | Some v \<Rightarrow> [(''params'', v)]) @
      (case rpc_Result r of None \<Rightarrow> [] | Some v \<Rightarrow> [(''result'', v)]))"

fun enc_chunk :: "(error \<Rightarrow> json) \<Rightarrow> chunk \<Rightarrow> json option" where
  "enc_chunk ej (Text t) = None"
| "enc_chunk ej (One r) = Some (case r of None \<Rightarrow> JNull | Some r \<Rightarrow> enc_base ej r)"
| "enc_chunk ej (Many rs) = Some (if rs = [] then JNull else JArr (map (enc_base ej) rs))"

fun body_json :: "(error \<Rightarrow> json) \<Rightarrow> chunk list \<Rightarrow> json option" where
  "body_json ej [c] = enc_chunk ej c"
| "body_json ej cs = None"

definition header_get :: "network \<Rightarrow> string \<Rightarrow> http_Request \<Rightarrow> string" where
  "header_get net k req =
     (case map_of (hr_Header req) (canonical_key net k) of Some (v # vs) \<Rightarrow> v | _ \<Rightarrow> [])"

record 'st peer =
  peer_server :: "'st Server"
  peer_http :: "'st httpServerSettings"
  peer_dec :: decoders
  peer_err :: "error \<Rightarrow> json"
  peer_schedule :: "baseJsonRPC range_order"
  peer_hang :: string

definition peer_ctx :: "network \<Rightarrow> http_Request \<Rightarrow> json \<Rightarrow> fiber_ctx" where
  "peer_ctx net req body =
     \<lparr>ctx_Method = hr_Method req, ctx_Body = Some body, ctx_Token = header_get net ''Token'' req,
      ctx_SyncOn = header_get net ''X-Sync-On'' req\<rparr>"

text \<open>A request that the server never answers ends in an error of the HTTP client (\<open>peer_hang\<close>).\<close>

definition over :: "'st peer \<Rightarrow> 'st \<Rightarrow> network \<Rightarrow> network" where
  "over p st net = net\<lparr>http_do := \<lambda>req body.
     (case Server_serveBatch (peer_server p) (peer_http p) (peer_dec p) (peer_schedule p) (peer_ctx net req body) st of
        Returns (resp, st') \<Rightarrow> Inr (status resp, body_json (peer_err p) (written resp))
      | _ \<Rightarrow> Inl (peer_hang p))\<rparr>"

lemma over_sel [simp]:
  "parse_URL (over p st net) = parse_URL net" "json_text (over p st net) = json_text net"
  "net_uuid (over p st net) = net_uuid net" "canonical_key (over p st net) = canonical_key net"
  "Header_Set (over p st net) = Header_Set net"
  by (simp_all add: over_def Header_Set_def fun_eq_iff)

section \<open>The client's requests at the server\<close>

text \<open>A client without header options that reaches a server: the setting of the theorems below.\<close>

definition plain_client :: "ClientRPC \<Rightarrow> network \<Rightarrow> bool" where
  "plain_client client net \<longleftrightarrow>
     op_headersFromCtx (cl_options client) = [] \<and> op_customHeaders (cl_options client) = [] \<and>
     (\<exists>url. parse_URL net (cl_endpoint client) = Inr url) \<and>
     canonical_key net ''Token'' \<notin> {canonical_key net ''Accept'', canonical_key net ''Content-Type''} \<and>
     canonical_key net ''X-Sync-On'' \<notin> {canonical_key net ''Accept'', canonical_key net ''Content-Type''}"

lemma plain_newRequest:
  assumes "plain_client client net"
  obtains req where "newRequest client (over p st net) q ctx body = Inr req"
    and "peer_ctx net req body = \<lparr>ctx_Method = ''POST'', ctx_Body = Some body, ctx_Token = [], ctx_SyncOn = []\<rparr>"
  using assms
  by (auto simp: plain_client_def newRequest_def Let_def peer_ctx_def header_get_def Header_Set_def update_conv split: if_splits)

lemma message_names:
  "EqualFold ''error'' ''error''" "\<not> EqualFold ''id'' ''error''" "\<not> EqualFold ''jsonrpc'' ''error''"
  "\<not> EqualFold ''id'' ''result''" "\<not> EqualFold ''jsonrpc'' ''result''" "\<not> EqualFold ''error'' ''result''"
  "EqualFold ''result'' ''result''" "EqualFold ''code'' ''code''" "\<not> EqualFold ''code'' ''message''"
  "EqualFold ''message'' ''message''" "\<not> EqualFold ''code'' ''data''" "\<not> EqualFold ''message'' ''data''"
  "EqualFold ''data'' ''data''"
  by (simp_all add: EqualFold_def ToLower_def to_lower_def)

lemmas request_names = fold_names message_names

definition client_base :: "RequestRPC \<Rightarrow> baseJsonRPC" where
  "client_base r = zero_base\<lparr>rpc_ID := Some (JStr (uuid_String (rq_ID r))), rpc_Version := rq_JSONRPC r,
     rpc_Method := rq_Method r, rpc_Params := rq_Params r\<rparr>"

lemma decode_enc_request: "decode_base (enc_request r) = Some (client_base r)"
  by (auto simp: decode_base_def enc_request_def base_fields_def request_names decode_raw_def client_base_def zero_base_def
      split: option.splits)

text \<open>Responses of the server: no method, no parameters, and a code that fits.\<close>

definition server_made :: "baseJsonRPC \<Rightarrow> bool" where
  "server_made r \<longleftrightarrow> rpc_Method r = [] \<and> rpc_Params r = None \<and>
     (\<forall>e. rpc_Error r = Some e \<longrightarrow> - (2 ^ 63) \<le> err_Code e \<and> err_Code e < 2 ^ 63)"

definition client_error :: "(error \<Rightarrow> json) \<Rightarrow> errorJsonRPC \<Rightarrow> RPCError" where
  "client_error ej e = \<lparr>re_Code = err_Code e, re_Message = err_Message e, re_Data = map_option (enc_data ej) (err_Data e)\<rparr>"

definition client_response :: "(error \<Rightarrow> json) \<Rightarrow> uuid \<Rightarrow> baseJsonRPC \<Rightarrow> ResponseRPC" where
  "client_response ej i r = \<lparr>rs_ID = i, rs_JSONRPC = rpc_Version r, rs_Error = map_option (client_error ej) (rpc_Error r),
     rs_Result = rpc_Result r\<rparr>"

lemma decode_enc_error:
  assumes "- (2 ^ 63) \<le> err_Code e" "err_Code e < 2 ^ 63" and "rs_Error r = None"
  shows "decode_rpcerror allow (enc_error ej e) r = Some (r\<lparr>rs_Error := Some (client_error ej e)\<rparr>)"
proof -
  have "sint (word_of_int (err_Code e) :: 64 word) = err_Code e"
    using assms(1,2) by (rule sint_of_int64)
  then show ?thesis
    using assms by (cases "err_Data e") (simp_all add: decode_rpcerror_def enc_error_def decode_known_def
        rpcerror_fields_def request_names decode_raw_def client_error_def)
qed

lemma decode_enc_base:
  assumes "server_made r" "rpc_ID r = Some (JStr (uuid_String i))" "puuid (uuid_String i) = Some i"
  shows "decode_response puuid allow (enc_base ej r) = Some (Some (client_response ej i r))"
  using assms
  by (cases "rpc_Error r"; cases "rpc_Result r")
    (simp_all add: decode_response_def enc_base_def decode_known_def response_fields_def request_names
      decode_raw_def client_response_def server_made_def decode_enc_error)


lemma error_server_made:
  assumes "makeErrorResponseJsonRPC i code msg data = Some r" "- (2 ^ 63) \<le> code" "code < 2 ^ 63"
  shows "server_made r"
  using assms by (auto simp: makeErrorResponseJsonRPC_def server_made_def zero_base_def split: if_splits)

lemma handle_server_made:
  assumes "handle http dec ctx flds zero setToken call request st = (Some r, st')" "errorHandler http = None"
  shows "server_made r"
  using assms
  by (auto simp: handle_def parseError_def internalError_def Let_def split: option.splits if_splits prod.splits sum.splits
      intro: error_server_made) (simp_all add: server_made_def zero_base_def)

lemma single_server_made:
  assumes "Server_doSingleBatch http dec ctx request st = (Some r, st')" "errorHandler http = None"
  shows "server_made r"
  using assms
  by (auto simp: Server_doSingleBatch_def method_defs invalid_method_def Let_def methodNotFoundError_def split: if_splits
      intro: handle_server_made error_server_made)

lemma decode_requests_enc: "decode_requests (enc_request r) = None"
  by (simp add: enc_request_def)

text \<open>One request of the client is one request of the server's endpoint.\<close>

lemma serveBatch_single:
  assumes "Server_doSingleBatch http dec ctx (client_base r) st = (res, st')"
    and "ctx_Method ctx = ''POST''" "ctx_Body ctx = Some (enc_request r)"
  shows "Server_serveBatch srv http dec schedule ctx st = Returns (\<lparr>status = 200, written = [One res]\<rparr>, st')"
  using assms decode_enc_request [of r]
  by (simp add: Server_serveBatch_def serve_batch_def decode_requests_enc sendResponse_def new_response_def)

definition client_ctx :: "json \<Rightarrow> fiber_ctx" where
  "client_ctx body = \<lparr>ctx_Method = ''POST'', ctx_Body = Some body, ctx_Token = [], ctx_SyncOn = []\<rparr>"

lemma doCall_over:
  assumes "plain_client client net" "net_uuid net (uuid_String (rq_ID request)) = Some (rq_ID request)"
    and "errorHandler (peer_http p) = None"
    and "Server_doSingleBatch (peer_http p) (peer_dec p) (client_ctx (enc_request request)) (client_base request) st = (Some r, st')"
  shows "doCall client (over p st net) q ctx request = (Some (client_response (peer_err p) (rq_ID request) r), None)"
proof -
  obtain req where req: "newRequest client (over p st net) q ctx (enc_request request) = Inr req"
      "peer_ctx net req (enc_request request) = client_ctx (enc_request request)"
    using plain_newRequest [OF assms(1), of p st q ctx "enc_request request"] unfolding client_ctx_def by blast
  have "rpc_ID r = rpc_ID (client_base request)"
    using doSingleBatch_answered(2) [of "client_base request" "peer_http p" "peer_dec p" "client_ctx (enc_request request)" st]
      assms(4) by (auto simp: answered_def client_base_def)
  then have dec: "decode_response (net_uuid net) allow (enc_base (peer_err p) r) =
      Some (Some (client_response (peer_err p) (rq_ID request) r))" for allow
    using assms(2) single_server_made [OF assms(4,3)] by (simp add: decode_enc_base client_base_def)
  have "http_do (over p st net) req (enc_request request) = Inr (200, Some (enc_base (peer_err p) r))"
    using serveBatch_single [OF assms(4)] by (simp add: over_def req(2)) (simp add: client_ctx_def)
  then show ?thesis
    using req(1) dec by (simp add: doCall_def)
qed


section \<open>Methods\<close>

text \<open>A breaker that admits the request, no cache, no checks of the user and the error decoder of the package.\<close>

definition admits :: "time \<Rightarrow> CircuitBreaker \<Rightarrow> bool" where
  "admits now cb \<longleftrightarrow> snd (fst (beforeRequest now cb)) = None"

lemma toNewGeneration_state [simp]: "cb_state (toNewGeneration now cb) = cb_state cb"
  by (cases "cb_state cb") (simp_all add: toNewGeneration_def Let_def)

lemma new_breaker_closed: "cb_state (NewCircuitBreaker now name cfg) = StateClosed"
  unfolding NewCircuitBreaker_def by simp

lemma closed_admits: "cb_state cb = StateClosed \<Longrightarrow> admits now cb"
  by (simp add: admits_def beforeRequest_def currentState_def Let_def)

lemma Execute_admitted:
  assumes "admits now cb" and "\<And>e. fallback e = Some e" 
  shows "fst (Execute now (Some err) later [IsSuccessful success, Fallback fallback] cb) = Some err"
  using assms
  by (auto simp: admits_def Execute_def prepareOpts_def IsSuccessful_def Fallback_def case_prod_unfold Let_def
      split: bool.splits)

lemma proceedResponse_plain:
  assumes "admits now (cs_breaker st)" "usable_cache cli key = None"
  shows "fst (proceedResponse cli bad half now later (Some e) key check rpcResponse dec zero st) = Some (Some e)"
    and "rs_Result r = Some v \<Longrightarrow> v \<noteq> JNull \<Longrightarrow> dec v zero = Some x \<Longrightarrow>
      (case proceedResponse cli bad half now later None key check (Some r) dec zero st of (res, response, st') \<Rightarrow> (res, response)) =
        (Some None, x)"
  using assms
  by (simp_all add: proceedResponse_def decode_request_def GetObject_def cache_fallback_def case_prod_unfold Let_def
      Execute_admitted admits_def)

definition plain_api :: "'c ClientJsonRPC \<Rightarrow> uint64 \<Rightarrow> call_env \<Rightarrow> 'c client_state \<Rightarrow> bool" where
  "plain_api cli key env cst \<longleftrightarrow> plain_client (cj_rpc cli) (env_net env) \<and>
     net_uuid (env_net env) (uuid_String (env_newID env)) = Some (env_newID env) \<and>
     usable_cache cli key = None \<and> (\<exists>bad. cj_errorDecoder cli = Some (defaultErrorDecoder bad)) \<and>
     admits (env_now env) (cs_breaker cst)"

definition env_over :: "'st peer \<Rightarrow> 'st \<Rightarrow> call_env \<Rightarrow> call_env" where
  "env_over p st env = env\<lparr>env_net := over p st (env_net env)\<rparr>"

definition method_result :: "error + method_response \<Rightarrow> cb_error + method_response" where
  "method_result res = (case res of Inl e \<Rightarrow> Inl (AppError (Error e)) | Inr v \<Rightarrow> Inr v)"

definition ok_response :: "json \<Rightarrow> json \<Rightarrow> baseJsonRPC" where
  "ok_response i v = zero_base\<lparr>rpc_ID := Some i, rpc_Version := Version, rpc_Result := Some v\<rparr>"

definition failed_response :: "json \<Rightarrow> error \<Rightarrow> baseJsonRPC" where
  "failed_response i e = zero_base\<lparr>rpc_ID := Some i, rpc_Version := Version,
     rpc_Error := Some \<lparr>err_Code = internalError, err_Message = Error e, err_Data = Some (DataError e)\<rparr>\<rparr>"

lemma defaultErrorDecoder_message:
  "defaultErrorDecoder bad (RPCError_Raw (client_error ej \<lparr>err_Code = internalError, err_Message = msg, err_Data = d\<rparr>)) =
     Some (AppError msg)"
  by (cases d) (simp_all add: defaultErrorDecoder_def RPCError_Raw_def error_json_fields_def client_error_def request_names
      decode_raw_def internalError_def)

text \<open>How the server answers a request of a client from the outcome of the service.\<close>

definition answer :: "uuid \<Rightarrow> ('a \<Rightarrow> json) \<Rightarrow> (error + 'a) \<times> 'st \<Rightarrow> baseJsonRPC option \<times> 'st" where
  "answer i enc res =
     (Some (case fst res of
              Inl e \<Rightarrow> failed_response (JStr (uuid_String i)) e
            | Inr x \<Rightarrow> ok_response (JStr (uuid_String i)) (enc x)), snd res)"

lemma call_method_over:
  assumes req: "request = NewRequestWithID (env_newID env) method [GoValue Struct params]"
    and "plain_api cli key env cst" "errorHandler (peer_http p) = None"
    and "Server_doSingleBatch (peer_http p) (peer_dec p) (client_ctx (enc_request request)) (client_base request) st =
      answer (env_newID env) enc res"
    and "\<And>x. fst res = Inr x \<Longrightarrow> enc x \<noteq> JNull \<and> dec (enc x) zero = Some (f x)"
  shows "fst (call_method cli (env_over p st env) method params key check dec zero cst) =
    Some (method_result (map_sum id f (fst res)))"
proof -
  let ?r = "case fst res of Inl e \<Rightarrow> failed_response (JStr (uuid_String (env_newID env))) e
             | Inr x \<Rightarrow> ok_response (JStr (uuid_String (env_newID env))) (enc x)"
  have "doCall (cj_rpc cli) (over p st (env_net env)) q ctx request =
      (Some (client_response (peer_err p) (env_newID env) ?r), None)" for q ctx
    using doCall_over [where request = request and client = "cj_rpc cli" and net = "env_net env" and p = p and st = st] assms(2-4)
    by (simp add: plain_api_def req NewRequestWithID_def answer_def)
  then show ?thesis
    using assms(2,5) proceedResponse_plain [of "env_now env" "cst\<lparr>cs_sent := cs_sent cst @ [request]\<rparr>" cli key]
    by (cases "fst res") (auto simp: call_method_def Call_def env_over_def req [symmetric] plain_api_def case_prod_unfold
      Let_def response_error_def client_response_def failed_response_def ok_response_def defaultErrorDecoder_message
      method_result_def zero_base_def)
qed

lemma method_names_lower:
  "ToLower ''serversettings.getconnectionsnum'' = ''serversettings.getconnectionsnum''"
  "ToLower ''serversettings.healthcheck'' = ''serversettings.healthcheck''"
  "ToLower ''serversettings.getserversettings'' = ''serversettings.getserversettings''"
  "ToLower ''serversettings.createroom'' = ''serversettings.createroom''"
  "ToLower ''serversettings.getdeletedrooms'' = ''serversettings.getdeletedrooms''"
  by code_simp+

lemma field_names:
  "EqualFold ''token'' ''token''" "\<not> EqualFold ''token'' ''ids''" "EqualFold ''ids'' ''ids''"
  "EqualFold ''countConn'' ''countConn''" "\<not> EqualFold ''countConn'' ''exists''" "EqualFold ''exists'' ''exists''"
  "EqualFold ''settings'' ''settings''" "EqualFold ''serverType'' ''serverType''"
  "\<not> EqualFold ''serverType'' ''serverPort''" "EqualFold ''serverPort'' ''serverPort''"
  "\<not> EqualFold ''serverType'' ''connectionPort''" "\<not> EqualFold ''serverPort'' ''connectionPort''"
  "EqualFold ''connectionPort'' ''connectionPort''" "\<not> EqualFold ''serverType'' ''serverAddress''"
  "\<not> EqualFold ''serverPort'' ''serverAddress''" "\<not> EqualFold ''connectionPort'' ''serverAddress''"
  "EqualFold ''serverAddress'' ''serverAddress''" "\<not> EqualFold ''serverType'' ''maxConnections''"
  "\<not> EqualFold ''serverPort'' ''maxConnections''" "\<not> EqualFold ''connectionPort'' ''maxConnections''"
  "\<not> EqualFold ''serverAddress'' ''maxConnections''" "EqualFold ''maxConnections'' ''maxConnections''"
  "\<not> EqualFold ''serverType'' ''maxRequestPerSecond''" "\<not> EqualFold ''serverPort'' ''maxRequestPerSecond''"
  "\<not> EqualFold ''connectionPort'' ''maxRequestPerSecond''" "\<not> EqualFold ''serverAddress'' ''maxRequestPerSecond''"
  "\<not> EqualFold ''maxConnections'' ''maxRequestPerSecond''" "EqualFold ''maxRequestPerSecond'' ''maxRequestPerSecond''"
  "EqualFold ''deletedIds'' ''deletedIds''" "EqualFold ''gameID'' ''gameID''" "\<not> EqualFold ''gameID'' ''roomID''"
  "EqualFold ''roomID'' ''roomID''"
  by (simp_all add: EqualFold_def ToLower_def to_lower_def)

lemma decode_sint [simp]: "decode_int64 upd (JInt (sint i)) s = Some (upd i s)"
  using sint64_bounds [of i] by simp

text \<open>What the server encodes is what the client decodes.\<close>

lemma dec_connectionsNum_enc:
  "dec_connectionsNum (JObj [(''countConn'', JInt (sint n)), (''exists'', JBool b)]) (RespConnectionsNum m c) =
     Some (RespConnectionsNum n b)"
  by (simp add: dec_connectionsNum_def field_names del: decode_int64.simps)

lemma dec_settings_enc:
  "dec_settings (JObj [(''settings'', enc_Settings s)]) (RespSettings z) = Some (RespSettings s)"
  by (simp add: dec_settings_def enc_Settings_def settings_fields_def field_names del: decode_int64.simps)

lemma decode_room_ids:
  assumes "\<forall>d \<in> set ids. puuid (uuid_String (del_GameID d)) = Some (del_GameID d) \<and> puuid (uuid_String (del_RoomID d)) = Some (del_RoomID d)"
  shows "decode_all (\<lambda>v. decode_struct (room_id_fields puuid) v \<lparr>del_GameID = 0, del_RoomID = 0\<rparr>) (map enc_room_id ids) = Some ids"
  using assms by (induction ids) (simp_all add: enc_room_id_def room_id_fields_def field_names)

lemma dec_deletedIds_enc:
  assumes "\<forall>d \<in> set ids. puuid (uuid_String (del_GameID d)) = Some (del_GameID d) \<and> puuid (uuid_String (del_RoomID d)) = Some (del_RoomID d)"
  shows "dec_deletedIds puuid (JObj [(''deletedIds'', enc_ids ids)]) (RespDeletedIds []) = Some (RespDeletedIds ids)"
  using assms by (simp add: dec_deletedIds_def enc_ids_def field_names decode_room_ids)

lemmas server_single = Server_doSingleBatch_def client_base_def NewRequestWithID_def method_names_lower Let_def
  handle_def client_ctx_def encode_result_def answer_def ok_response_def failed_response_def makeErrorResponseJsonRPC_def
  enc_token_def token_fields_def field_names zero_base_def

definition enc_num :: "go_int \<times> bool \<Rightarrow> json" where
  "enc_num = (\<lambda>(n, b). JObj [(''countConn'', JInt (sint n)), (''exists'', JBool b)])"

lemma single_token_methods:
  assumes "errorHandler http = None"
  shows "Server_doSingleBatch http dec (client_ctx body)
      (client_base (NewRequestWithID i ''serversettings.getconnectionsnum'' [GoValue Struct (enc_token tok)])) st =
      answer i enc_num (fn_getConnectionsNum (http_svc http) tok st)"
    and "Server_doSingleBatch http dec (client_ctx body)
      (client_base (NewRequestWithID i ''serversettings.healthcheck'' [GoValue Struct (enc_token tok)])) st =
      answer i (\<lambda>b. JObj [(''exists'', JBool b)]) (fn_healthCheck (http_svc http) tok st)"
    and "Server_doSingleBatch http dec (client_ctx body)
      (client_base (NewRequestWithID i ''serversettings.getserversettings'' [GoValue Struct (enc_token tok)])) st =
      answer i (\<lambda>s. JObj [(''settings'', enc_Settings s)]) (fn_getServerSettings (http_svc http) tok st)"
  using assms
  by (cases "fn_getConnectionsNum (http_svc http) tok st"; cases "fst (fn_getConnectionsNum (http_svc http) tok st)";
      cases "fn_healthCheck (http_svc http) tok st"; cases "fst (fn_healthCheck (http_svc http) tok st)";
      cases "fn_getServerSettings (http_svc http) tok st"; cases "fst (fn_getServerSettings (http_svc http) tok st)";
      simp add: server_single method_defs enc_num_def case_prod_unfold)+

definition createRoom_outcome :: "error option \<times> 'st \<Rightarrow> (error + unit) \<times> 'st" where
  "createRoom_outcome r = (case fst r of None \<Rightarrow> Inr () | Some e \<Rightarrow> Inl e, snd r)"

lemma single_createRoom:
  assumes "errorHandler http = None"
  shows "Server_doSingleBatch http dec (client_ctx body)
      (client_base (NewRequestWithID i ''serversettings.createroom'' [GoValue Struct (enc_createRoom tok ttl)])) st =
      answer i (\<lambda>_. JObj []) (createRoom_outcome (fn_createRoom (http_svc http) tok ttl st))"
  using assms
  by (cases "fn_createRoom (http_svc http) tok ttl st"; cases "fst (fn_createRoom (http_svc http) tok ttl st)")
    (simp_all add: server_single createRoom_def createRoom_fields_def enc_createRoom_def fold_names createRoom_outcome_def
      del: decode_int64.simps)

definition uuids_decode :: "(string \<Rightarrow> uuid option) \<Rightarrow> GetDeletedRooms_id list \<Rightarrow> bool" where
  "uuids_decode puuid ids \<longleftrightarrow> (\<forall>d \<in> set ids. puuid (uuid_String (del_GameID d)) = Some (del_GameID d) \<and>
     puuid (uuid_String (del_RoomID d)) = Some (del_RoomID d))"

lemma decode_ids_enc: "uuids_decode puuid ids \<Longrightarrow> decode_ids puuid (enc_ids ids) r = Some (r\<lparr>gd_Ids := ids\<rparr>)"
  by (simp add: enc_ids_def uuids_decode_def decode_room_ids)

lemma single_getDeletedRooms:
  assumes "errorHandler http = None" "uuids_decode (parse_uuid dec) ids"
  shows "Server_doSingleBatch http dec (client_ctx body)
      (client_base (NewRequestWithID i ''serversettings.getdeletedrooms'' [GoValue Struct (enc_getDeletedRooms tok ids)])) st =
      answer i (\<lambda>ids. JObj [(''deletedIds'', enc_ids ids)]) (fn_getDeletedRooms (http_svc http) tok ids st)"
  using assms
  by (cases "fn_getDeletedRooms (http_svc http) tok ids st"; cases "fst (fn_getDeletedRooms (http_svc http) tok ids st)")
    (simp_all add: server_single getDeletedRooms_def getDeletedRooms_fields_def enc_getDeletedRooms_def
      decode_ids_enc)


lemma client_results:
  assumes "plain_api cli key env cst" and "errorHandler (peer_http p) = None"
    and "service = http_svc (peer_http p)" and "cenv = env_over p st env"
  shows "fst (client_GetConnectionsNum cli cenv key tok cst) =
      Some (method_result (map_sum id (\<lambda>(n, b). RespConnectionsNum n b) (fst (fn_getConnectionsNum service tok st))))"
    and "fst (client_HealthCheck cli cenv key tok cst) =
      Some (method_result (map_sum id RespExists (fst (fn_healthCheck service tok st))))"
    and "fst (client_GetServerSettings cli cenv key tok cst) =
      Some (method_result (map_sum id RespSettings (fst (fn_getServerSettings service tok st))))"
    and "fst (client_CreateRoom cli cenv key tok ttl cst) =
      Some (case fst (fn_createRoom service tok ttl st) of None \<Rightarrow> Inr RespNothing | Some e \<Rightarrow> Inl (AppError (Error e)))"
    and "uuids_decode (parse_uuid (peer_dec p)) ids \<Longrightarrow>
      (\<And>found. fst (fn_getDeletedRooms service tok ids st) = Inr found \<Longrightarrow> uuids_decode (net_uuid (env_net env)) found) \<Longrightarrow>
      fst (client_GetDeletedRooms cli cenv key tok ids cst) =
      Some (method_result (map_sum id RespDeletedIds (fst (fn_getDeletedRooms service tok ids st))))"
  unfolding assms(3,4) client_GetConnectionsNum_def client_HealthCheck_def client_GetServerSettings_def client_CreateRoom_def
    client_GetDeletedRooms_def
proof -
  note over = call_method_over [OF refl assms(1,2)]
  show "fst (call_method cli (env_over p st env) ''serversettings.getconnectionsnum'' (enc_token tok) key
      fb_GetConnectionsNum dec_connectionsNum (RespConnectionsNum 0 False) cst) =
    Some (method_result (map_sum id (\<lambda>(n, b). RespConnectionsNum n b) (fst (fn_getConnectionsNum (http_svc (peer_http p)) tok st))))"
    by (rule over [OF single_token_methods(1) [OF assms(2)]]) (auto simp: enc_num_def dec_connectionsNum_enc)
  show "fst (call_method cli (env_over p st env) ''serversettings.healthcheck'' (enc_token tok) key
      fb_HealthCheck dec_exists (RespExists False) cst) =
    Some (method_result (map_sum id RespExists (fst (fn_healthCheck (http_svc (peer_http p)) tok st))))"
    by (rule over [OF single_token_methods(2) [OF assms(2)]]) (simp add: dec_exists_def field_names)
  show "fst (call_method cli (env_over p st env) ''serversettings.getserversettings'' (enc_token tok) key
      fb_GetServerSettings dec_settings (RespSettings zero_Settings) cst) =
    Some (method_result (map_sum id RespSettings (fst (fn_getServerSettings (http_svc (peer_http p)) tok st))))"
    by (rule over [OF single_token_methods(3) [OF assms(2)]]) (simp add: dec_settings_enc)
  have "fst (call_method cli (env_over p st env) ''serversettings.createroom'' (enc_createRoom tok ttl) key
      fb_CreateRoom dec_nothing RespNothing cst) =
    Some (method_result (map_sum id (\<lambda>_. RespNothing) (fst (createRoom_outcome (fn_createRoom (http_svc (peer_http p)) tok ttl st)))))"
    by (rule over [OF single_createRoom [OF assms(2)]]) (simp add: dec_nothing_def)
  then show "fst (call_method cli (env_over p st env) ''serversettings.createroom'' (enc_createRoom tok ttl) key
      fb_CreateRoom dec_nothing RespNothing cst) =
    Some (case fst (fn_createRoom (http_svc (peer_http p)) tok ttl st) of None \<Rightarrow> Inr RespNothing | Some e \<Rightarrow> Inl (AppError (Error e)))"
    by (simp add: createRoom_outcome_def method_result_def split: option.splits)
next
  assume "uuids_decode (parse_uuid (peer_dec p)) ids"
    and "\<And>found. fst (fn_getDeletedRooms (http_svc (peer_http p)) tok ids st) = Inr found \<Longrightarrow>
      uuids_decode (net_uuid (env_net env)) found"
  then show "fst (call_method cli (env_over p st env) ''serversettings.getdeletedrooms'' (enc_getDeletedRooms tok ids) key
      fb_GetDeletedRooms (dec_deletedIds (net_uuid (env_net (env_over p st env)))) (RespDeletedIds []) cst) =
    Some (method_result (map_sum id RespDeletedIds (fst (fn_getDeletedRooms (http_svc (peer_http p)) tok ids st))))"
    by (intro call_method_over [OF refl assms(1,2) single_getDeletedRooms [OF assms(2)]])
      (simp_all add: env_over_def dec_deletedIds_enc uuids_decode_def)
qed

text \<open>
  C31: the client and the server agree. A method of the client, connected to the server's endpoint,
  returns what the function of the service returns for the same arguments, the error with the
  same text. (The breaker admits the request, and no cached response stands in.)
\<close>

theorem client_returns_service_result:
  assumes "plain_api cli key env cst" and "errorHandler (peer_http p) = None"
    and "service = http_svc (peer_http p)" and "cenv = env_over p st env"
  shows "fst (client_GetConnectionsNum cli cenv key tok cst) =
      Some (method_result (map_sum id (\<lambda>(n, b). RespConnectionsNum n b) (fst (fn_getConnectionsNum service tok st)))) \<and>
    fst (client_HealthCheck cli cenv key tok cst) =
      Some (method_result (map_sum id RespExists (fst (fn_healthCheck service tok st)))) \<and>
    fst (client_GetServerSettings cli cenv key tok cst) =
      Some (method_result (map_sum id RespSettings (fst (fn_getServerSettings service tok st)))) \<and>
    fst (client_CreateRoom cli cenv key tok ttl cst) =
      Some (case fst (fn_createRoom service tok ttl st) of None \<Rightarrow> Inr RespNothing | Some e \<Rightarrow> Inl (AppError (Error e))) \<and>
    (uuids_decode (parse_uuid (peer_dec p)) ids \<and>
       (\<forall>found. fst (fn_getDeletedRooms service tok ids st) = Inr found \<longrightarrow> uuids_decode (net_uuid (env_net env)) found) \<longrightarrow>
     fst (client_GetDeletedRooms cli cenv key tok ids cst) =
       Some (method_result (map_sum id RespDeletedIds (fst (fn_getDeletedRooms service tok ids st)))))"
  using client_results [OF assms] by blast

definition ex_net :: network where
  "ex_net = \<lparr>http_do = (\<lambda>req body. Inl ''connection refused''), parse_URL = Inr, json_text = (\<lambda>v. []),
     decode_err = (\<lambda>v. ''bad''), half_decoded = (\<lambda>v. []),
     net_uuid = (\<lambda>t. if t = uuid_String 7 then Some 7 else if t = uuid_String 8 then Some 8 else None), canonical_key = id\<rparr>"

definition ex_env :: call_env where
  "ex_env = \<lparr>env_net = ex_net, env_custom = insertion_order, env_ctx = (\<lambda>k. None), env_newID = 7, env_bad = ''bad'',
     env_half = (\<lambda>v r. r), env_errorf = id, env_now = 10, env_later = 11\<rparr>"

definition ex_peer :: "unit peer" where
  "ex_peer = \<lparr>peer_server = new_Server [], peer_http = ex_http, peer_dec = ex_dec, peer_err = (\<lambda>e. JObj []),
     peer_schedule = reversed_order, peer_hang = ''timeout''\<rparr>"

abbreviation "ex_client \<equiv> new_Client ''bad'' 5 ''http://localhost:8081'' [] ()"

lemma ex_plain_client: "plain_client (cj_rpc (fst ex_client)) ex_net"
  by (simp add: plain_client_def new_Client_def NewClient_def rpc_prepareOpts_def ex_net_def Let_def)

lemma ex_admits: "admits 10 (cs_breaker (snd ex_client))"
  by (rule closed_admits) (simp add: new_Client_def Let_def new_breaker_closed)

lemma ex_plain_api: "plain_api (fst ex_client) 0 ex_env (snd ex_client)"
  using ex_plain_client ex_admits
  by (simp add: plain_api_def ex_env_def usable_cache_def) (auto simp: new_Client_def Let_def ex_net_def)

theorem client_returns_service_result_witness:
  "fst (client_HealthCheck (fst ex_client) (env_over ex_peer () ex_env) 0 ''alice'' (snd ex_client)) = Some (Inr (RespExists True))"
proof -
  note ex_plain_api
  moreover have "errorHandler (peer_http ex_peer) = None" "fst (fn_healthCheck (http_svc (peer_http ex_peer)) ''alice'' ()) = Inr True"
    by (simp_all add: ex_peer_def ex_http_def NewServerSettings_http_def newServerServerSettings_def)
  ultimately show ?thesis
    using client_returns_service_result [of "fst ex_client" 0 ex_env "snd ex_client" ex_peer, OF _ _ refl refl, where st = "()"
        and tok = "''alice''"]
    by (simp add: method_result_def)
qed


end
