(* ===== verification/ClientBatch.thy ===== *)
theory ClientBatch
  imports ClientServer
begin

text \<open>
  Batches of the generated client (\<^verbatim>\<open>batch.go\<close> and \<^verbatim>\<open>doBatchCall\<close>): the maps of responses and callbacks, and what
  becomes of the callbacks when the call fails. \<open>ClientRace\<close> has the batches that the server answers.
\<close>

section \<open>Batches\<close>

lemma update_new: "k \<notin> fst ` set al \<Longrightarrow> AList.update k v al = al @ [(k, v)]"
  by (induction al) auto

lemma AsMap_from_distinct:
  "distinct (map fst m @ map rs_ID rs) \<Longrightarrow> AsMap_from (map Some rs) m = Some (m @ map (\<lambda>r. (rs_ID r, r)) rs)"
proof (induction rs arbitrary: m)
  case (Cons r rs)
  then have "AList.update (rs_ID r) r m = m @ [(rs_ID r, r)]" by (intro update_new) auto
  then show ?case using Cons.IH [of "m @ [(rs_ID r, r)]"] Cons.prems by auto
qed simp

lemma callbacks_from_distinct:
  "distinct (map fst m @ map (rq_ID \<circ> fst) requests) \<Longrightarrow>
   callbacks_from requests m = m @ map (\<lambda>(r, h). (rq_ID r, h)) requests"
proof (induction requests arbitrary: m)
  case (Cons a requests)
  obtain r h where a: "a = (r, h)" by force
  then have "AList.update (rq_ID r) h m = m @ [(rq_ID r, h)]" using Cons.prems by (intro update_new) auto
  then show ?case using Cons.IH [of "m @ [(rq_ID r, h)]"] Cons.prems a by auto
qed simp

lemma callback_of:
  assumes "distinct (map (rq_ID \<circ> fst) requests)"
  shows "map_of (callbacks_from requests []) i = Some h \<longleftrightarrow> (\<exists>r. (r, h) \<in> set requests \<and> rq_ID r = i)"
proof -
  let ?m = "map (\<lambda>(r, h). (rq_ID r, h)) requests"
  have "distinct (map fst ?m)"
    using assms by (simp add: comp_def case_prod_unfold)
  then have "map_of ?m i = Some h \<longleftrightarrow> (i, h) \<in> set ?m" by simp
  then show ?thesis using callbacks_from_distinct [of "[]" requests] assms by auto
qed

lemma called_fst:
  "map fst (called cbs err xs) = filter (\<lambda>i. \<exists>h. map_of cbs i = Some (Some h)) (map fst xs)"
  by (induction xs) (auto simp: called_def List.map_filter_simps split: option.splits)

lemma called_iff:
  "(i, h, e, r) \<in> set (called cbs err xs) \<longleftrightarrow> (i, r) \<in> set xs \<and> map_of cbs i = Some (Some h) \<and> e = err"
  by (induction xs) (auto simp: called_def List.map_filter_simps split: option.splits)

lemma decode_all_requests: "decode_requests (JArr (map enc_request rs)) = Some (map client_base rs)"
proof -
  have "decode_all decode_base (map enc_request rs) = Some (map client_base rs)"
    by (induction rs) (simp_all add: decode_enc_request)
  then show ?thesis by simp
qed

definition id_json :: "uuid \<Rightarrow> json option" where
  "id_json i = Some (JStr (uuid_String i))"

lemma id_json_inj: "inj id_json"
  by (simp add: inj_def id_json_def)

lemma client_base_id [simp]: "rpc_ID (client_base r) = id_json (rq_ID r)"
  by (simp add: client_base_def id_json_def)

definition ex_requests :: "(RequestRPC \<times> string option) list" where
  "ex_requests = [(NewRequestWithID 7 ''serversettings.healthcheck'' [], Some ''first''),
     (NewRequestWithID 8 ''serversettings.healthcheck'' [], None)]"

lemma ex_request_ids: "map (rq_ID \<circ> fst) ex_requests = [7, 8]"
  by (simp add: ex_requests_def NewRequestWithID_def)

section \<open>Batches that fail\<close>

lemma AsMap_from_append:
  "AsMap_from (xs @ ys) m = Option.bind (AsMap_from xs m) (AsMap_from ys)"
  by (induction xs m rule: AsMap_from.induct) simp_all

lemma AsMap_from_Some: "None \<notin> set xs \<Longrightarrow> \<exists>m'. AsMap_from xs m = Some m'"
  by (induction xs m rule: AsMap_from.induct) auto

lemma AsMap_from_distinct_keys: "AsMap_from xs m = Some m' \<Longrightarrow> distinct (map fst m) \<Longrightarrow> distinct (map fst m')"
  by (induction xs m rule: AsMap_from.induct) (simp_all add: distinct_update)

lemma AsMap_from_keeps:
  "AsMap_from xs m = Some m' \<Longrightarrow> \<forall>r. Some r \<in> set xs \<longrightarrow> rs_ID r \<noteq> i \<Longrightarrow> map_of m' i = map_of m i"
  by (induction xs m rule: AsMap_from.induct) auto

lemma AsMap_from_last:
  assumes "AsMap_from (map Some rs) m = Some m'" "distinct (map rs_ID rs)" "r \<in> set rs"
  shows "map_of m' (rs_ID r) = Some r"
  using assms
proof (induction rs arbitrary: m)
  case (Cons a rs)
  show ?case
  proof (cases "r \<in> set rs")
    case True
    then show ?thesis using Cons by auto
  next
    case False
    with Cons.prems have "r = a" "\<forall>r'. Some r' \<in> set (map Some rs) \<longrightarrow> rs_ID r' \<noteq> rs_ID r" by (auto simp: image_iff)
    with Cons.prems AsMap_from_keeps [of "map Some rs" "AList.update (rs_ID a) a m" m' "rs_ID r"] show ?thesis by simp
  qed
qed simp

definition error_response :: "RequestRPC \<Rightarrow> cli_error \<Rightarrow> ResponseRPC" where
  "error_response r err = \<lparr>rs_ID = rq_ID r, rs_JSONRPC = rq_JSONRPC r,
     rs_Error = Some \<lparr>re_Code = 0, re_Message = cli_Error err, re_Data = None\<rparr>, rs_Result = None\<rparr>"

lemma CallBatch_error:
  assumes "CallBatch client net p ctx requests = (rs, Some e)" "requests \<noteq> []"
  obtains xs where "rs = xs @ map (\<lambda>r. Some (error_response r e)) (filter (\<lambda>r. rq_ID r \<noteq> NilID) requests)"
proof -
  have "\<exists>res. CallBatch client net p ctx requests = with_deferred requests res"
    using assms(2) unfolding CallBatch_def doBatchCall_def by (metis (no_types))
  then obtain xs where "rs = xs @ error_responses requests e"
    using assms(1) by (auto simp: with_deferred_def split: prod.splits option.splits)
  then show thesis using that by (auto simp: error_responses_def error_response_def)
qed

text \<open>
  A batch call that fails still calls every callback, once and with the error: also when the
  server did answer the request (a status of 400 or more with responses in the body), the
  response that the callback gets carries the text of the error. Only a nil response in the body
  makes the call panic.
\<close>

theorem failed_batch_calls_every_callback:
  assumes "CallBatch (cj_rpc cli) net order1 ctx (map fst requests) = (rs, Some e)" and "None \<notin> set rs"
    and "distinct (map (rq_ID \<circ> fst) requests)" and "requests \<noteq> []"
  shows "\<exists>calls. Batch (cj_rpc cli) net order1 order2 ctx requests = Some calls \<and> distinct (map fst calls) \<and>
    (\<forall>r h. (r, Some h) \<in> set requests \<longrightarrow> rq_ID r \<noteq> NilID \<longrightarrow>
       (rq_ID r, h, Some e, error_response r e) \<in> set calls)"
proof -
  let ?qs = "filter (\<lambda>r. rq_ID r \<noteq> NilID) (map fst requests)"
  obtain xs where rs: "rs = xs @ map Some (map (\<lambda>r. error_response r e) ?qs)"
    using CallBatch_error [OF assms(1)] assms(4) by (auto simp: comp_def)
  obtain m0 m where m: "AsMap_from (map Some (map (\<lambda>r. error_response r e) ?qs)) m0 = Some m" "AsMap rs = Some m"
    using AsMap_from_Some [OF assms(2), of "[]"] unfolding rs AsMap_def by (auto simp: AsMap_from_append bind_eq_Some_conv)
  have dm: "distinct (map fst m)"
    using AsMap_from_distinct_keys [OF m(2) [unfolded AsMap_def]] by simp
  have "distinct (map rs_ID (map (\<lambda>r. error_response r e) ?qs))"
    using assms(3) by (simp add: error_response_def comp_def distinct_map_filter)
  then have look: "map_of m (rq_ID r) = Some (error_response r e)" if "r \<in> set ?qs" for r
    using AsMap_from_last [OF m(1), of "error_response r e"] that by (simp add: error_response_def)
  let ?calls = "called (callbacks_from requests []) (Some e) (range_in order2 m)"
  have "Batch (cj_rpc cli) net order1 order2 ctx requests = Some ?calls"
    using m(2) by (simp add: Batch_def assms(1))
  moreover have "distinct (map fst ?calls)"
    using dm by (simp add: called_fst)
  moreover have "(rq_ID r, h, Some e, error_response r e) \<in> set ?calls" if "(r, Some h) \<in> set requests" "rq_ID r \<noteq> NilID" for r h
    using look [of r] that callback_of [OF assms(3), of "rq_ID r" "Some h"] by (force simp: called_iff dest: map_of_SomeD)
  ultimately show ?thesis by blast
qed

theorem failed_batch_calls_every_callback_witness:
  "\<exists>calls e. Batch (cj_rpc (fst ex_client)) ex_net insertion_order insertion_order (\<lambda>k. None) ex_requests = Some calls \<and>
     (7, ''first'', Some e, error_response (NewRequestWithID 7 ''serversettings.healthcheck'' []) e) \<in> set calls"
proof -
  obtain e where "CallBatch (cj_rpc (fst ex_client)) ex_net insertion_order (\<lambda>k. None) (map fst ex_requests) =
      (error_responses (map fst ex_requests) e, Some e)"
    by (simp add: CallBatch_def doBatchCall_def with_deferred_def ex_net_def ex_requests_def newRequest_def new_Client_def
        NewClient_def Let_def)
  moreover have "None \<notin> set (error_responses (map fst ex_requests) e)"
    by (auto simp: error_responses_def)
  moreover have "distinct (map (rq_ID \<circ> fst) ex_requests)" "ex_requests \<noteq> []"
    by (simp_all add: ex_request_ids) (simp add: ex_requests_def)
  ultimately show ?thesis
    using failed_batch_calls_every_callback [of "fst ex_client" ex_net insertion_order "\<lambda>k. None" ex_requests
        "error_responses (map fst ex_requests) e" e insertion_order]
    by (fastforce simp: ex_requests_def NewRequestWithID_def NilID_def)
qed

end
