(* ===== verification/BatchRace.thy ===== *)
theory BatchRace
  imports JsonRpcProps Machine "HOL-Library.Multiset"
begin

text \<open>
  The parallel branch of \<^verbatim>\<open>doBatch\<close> (\<^verbatim>\<open>jsonrpc.go\<close>, \<^verbatim>\<open>serversettings-jsonrpc.go\<close>) as interleaved goroutines: the handler that
  sends the requests to a channel, the workers that take them, and the steps of the unsynchronised
  \<^verbatim>\<open>append\<close> to the shared slice of responses. Memory is sequentially consistent. A call of \<^verbatim>\<open>doSingleBatch\<close> is one step
  of the argument \<open>single\<close>: with the handlers themselves as \<open>single\<close> this leaves out the executions in which two calls
  interrupt each other in the service. \<open>ClientRace\<close> takes a \<open>single\<close> that lets each call find anything in the service, and
  \<open>CreateRace\<close> splits the calls that create rooms. A call always returns (one in which \<^verbatim>\<open>ParseToken\<close> panics ends the
  process).
\<close>

section \<open>Goroutines\<close>

text \<open>
  Where a worker is: at the receive of its \<^verbatim>\<open>range\<close> loop, with a response to append, with the length of the slice
  read, with the element written but the new length not stored, or returned.
\<close>

datatype batch_worker =
    Receiving
  | Holding baseJsonRPC
  | Loaded nat baseJsonRPC
  | Written nat
  | Exited

text \<open>
  The shared state. The slice of responses is its backing array, made for all requests so that \<^verbatim>\<open>append\<close> never
  replaces it, and its length. \<open>bt_log\<close> and \<open>bt_produced\<close> only record, in order, the requests handled and
  the responses to append; no step reads them.
\<close>

record 'st batch =
  bt_unsent :: "baseJsonRPC list"
  bt_chan :: "baseJsonRPC list"
  bt_closed :: bool
  bt_workers :: "batch_worker list"
  bt_array :: "baseJsonRPC option list"
  bt_len :: nat
  bt_returned :: bool
  bt_state :: 'st
  bt_log :: "baseJsonRPC list"
  bt_produced :: "baseJsonRPC list"

definition batch_size :: "go_int \<Rightarrow> baseJsonRPC list \<Rightarrow> nat" where
  "batch_size parallel requests =
     (if int (length requests) < sint parallel then length requests else nat (sint parallel))"

definition start_batch :: "go_int \<Rightarrow> baseJsonRPC list \<Rightarrow> 'st \<Rightarrow> 'st batch" where
  "start_batch parallel requests st =
     \<lparr>bt_unsent = requests, bt_chan = [], bt_closed = False,
      bt_workers = replicate (batch_size parallel requests) Receiving,
      bt_array = replicate (length requests) None, bt_len = 0, bt_returned = False, bt_state = st, bt_log = [], bt_produced = []\<rparr>"

text \<open>The slice that \<^verbatim>\<open>doBatch\<close> returns, and what a worker does after \<^verbatim>\<open>doSingleBatch\<close>.\<close>

definition batch_responses :: "'st batch \<Rightarrow> baseJsonRPC list" where
  "batch_responses s = map the (take (bt_len s) (bt_array s))"

definition to_append :: "baseJsonRPC \<Rightarrow> baseJsonRPC option \<Rightarrow> baseJsonRPC list" where
  "to_append request response = (if rpc_ID request \<noteq> None then responses_append [] response else [])"

definition after_single :: "baseJsonRPC list \<Rightarrow> batch_worker" where
  "after_single rs = (case rs of [] \<Rightarrow> Receiving | r # _ \<Rightarrow> Holding r)"

datatype batch_action = Send | Close | Return | Receive nat | Load nat | Write nat | Store nat | Exit nat

text \<open>
  The number names the worker. A channel of \<open>cap\<close> places takes a request when one is free. \<open>receive\<close> is the receive of the
  \<^verbatim>\<open>range\<close> loop with the call of \<open>single\<close>, as one step on \<open>bt_state\<close>.
\<close>

inductive batch_step :: "'st methodJsonRPC \<Rightarrow> fiber_ctx \<Rightarrow> nat \<Rightarrow> 'st batch \<Rightarrow> batch_action \<Rightarrow> 'st batch \<Rightarrow> bool"
  for single ctx cap where
  send: "bt_unsent s = r # rs \<Longrightarrow> length (bt_chan s) < cap \<Longrightarrow>
    batch_step single ctx cap s Send (s\<lparr>bt_unsent := rs, bt_chan := bt_chan s @ [r]\<rparr>)"
| close: "bt_unsent s = [] \<Longrightarrow> \<not> bt_closed s \<Longrightarrow> batch_step single ctx cap s Close (s\<lparr>bt_closed := True\<rparr>)"
| return: "bt_closed s \<Longrightarrow> \<not> bt_returned s \<Longrightarrow> \<forall>w \<in> set (bt_workers s). w = Exited \<Longrightarrow>
    batch_step single ctx cap s Return (s\<lparr>bt_returned := True\<rparr>)"
| receive: "bt_workers s = us @ Receiving # vs \<Longrightarrow> bt_chan s = r # rs \<Longrightarrow> single ctx r (bt_state s) = (resp, st) \<Longrightarrow>
    batch_step single ctx cap s (Receive (length us))
      (s\<lparr>bt_chan := rs, bt_state := st, bt_workers := us @ after_single (to_append r resp) # vs,
         bt_log := bt_log s @ [r], bt_produced := bt_produced s @ to_append r resp\<rparr>)"
| load: "bt_workers s = us @ Holding r # vs \<Longrightarrow>
    batch_step single ctx cap s (Load (length us)) (s\<lparr>bt_workers := us @ Loaded (bt_len s) r # vs\<rparr>)"
| write_element: "bt_workers s = us @ Loaded k r # vs \<Longrightarrow>
    batch_step single ctx cap s (Write (length us))
      (s\<lparr>bt_workers := us @ Written k # vs, bt_array := (bt_array s)[k := Some r]\<rparr>)"
| store: "bt_workers s = us @ Written k # vs \<Longrightarrow>
    batch_step single ctx cap s (Store (length us)) (s\<lparr>bt_workers := us @ Receiving # vs, bt_len := Suc k\<rparr>)"
| exit: "bt_workers s = us @ Receiving # vs \<Longrightarrow> bt_chan s = [] \<Longrightarrow> bt_closed s \<Longrightarrow>
    batch_step single ctx cap s (Exit (length us)) (s\<lparr>bt_workers := us @ Exited # vs\<rparr>)"

text \<open>The same steps as a function, to evaluate an execution.\<close>

definition at_worker :: "nat \<Rightarrow> 'st batch \<Rightarrow> (batch_worker \<Rightarrow> 'st batch option) \<Rightarrow> 'st batch option" where
  "at_worker i s f = (if i < length (bt_workers s) then f (bt_workers s ! i) else None)"

fun batch_do :: "'st methodJsonRPC \<Rightarrow> fiber_ctx \<Rightarrow> nat \<Rightarrow> 'st batch \<Rightarrow> batch_action \<Rightarrow> 'st batch option" where
  "batch_do single ctx cap s Send =
     (case bt_unsent s of
        [] \<Rightarrow> None
      | r # rs \<Rightarrow> if length (bt_chan s) < cap then Some (s\<lparr>bt_unsent := rs, bt_chan := bt_chan s @ [r]\<rparr>) else None)"
| "batch_do single ctx cap s Close = (if bt_unsent s = [] \<and> \<not> bt_closed s then Some (s\<lparr>bt_closed := True\<rparr>) else None)"
| "batch_do single ctx cap s Return =
     (if bt_closed s \<and> \<not> bt_returned s \<and> (\<forall>w \<in> set (bt_workers s). w = Exited) then Some (s\<lparr>bt_returned := True\<rparr>) else None)"
| "batch_do single ctx cap s (Receive i) =
     at_worker i s (\<lambda>w. case (w, bt_chan s) of
        (Receiving, r # rs) \<Rightarrow>
          (let (resp, st) = single ctx r (bt_state s)
           in Some (s\<lparr>bt_chan := rs, bt_state := st, bt_workers := (bt_workers s)[i := after_single (to_append r resp)],
                      bt_log := bt_log s @ [r], bt_produced := bt_produced s @ to_append r resp\<rparr>))
      | _ \<Rightarrow> None)"
| "batch_do single ctx cap s (Load i) =
     at_worker i s (\<lambda>w. case w of Holding r \<Rightarrow> Some (s\<lparr>bt_workers := (bt_workers s)[i := Loaded (bt_len s) r]\<rparr>) | _ \<Rightarrow> None)"
| "batch_do single ctx cap s (Write i) =
     at_worker i s (\<lambda>w. case w of
        Loaded k r \<Rightarrow> Some (s\<lparr>bt_workers := (bt_workers s)[i := Written k], bt_array := (bt_array s)[k := Some r]\<rparr>)
      | _ \<Rightarrow> None)"
| "batch_do single ctx cap s (Store i) =
     at_worker i s (\<lambda>w. case w of
        Written k \<Rightarrow> Some (s\<lparr>bt_workers := (bt_workers s)[i := Receiving], bt_len := Suc k\<rparr>) | _ \<Rightarrow> None)"
| "batch_do single ctx cap s (Exit i) =
     at_worker i s (\<lambda>w. case w of
        Receiving \<Rightarrow> if bt_chan s = [] \<and> bt_closed s then Some (s\<lparr>bt_workers := (bt_workers s)[i := Exited]\<rparr>) else None
      | _ \<Rightarrow> None)"

fun batch_exec :: "'st methodJsonRPC \<Rightarrow> fiber_ctx \<Rightarrow> nat \<Rightarrow> 'st batch \<Rightarrow> batch_action list \<Rightarrow> 'st batch option" where
  "batch_exec single ctx cap s [] = Some s"
| "batch_exec single ctx cap s (a # as) = Option.bind (batch_do single ctx cap s a) (\<lambda>s'. batch_exec single ctx cap s' as)"

lemma at_workerE:
  assumes "at_worker i s f = Some s'"
  obtains us w vs where "bt_workers s = us @ w # vs" and "i = length us" and "f w = Some s'"
proof -
  have i: "i < length (bt_workers s)" "f (bt_workers s ! i) = Some s'"
    using assms by (auto simp: at_worker_def split: if_splits)
  from that [OF id_take_nth_drop [OF i(1)]] i show thesis by simp
qed

lemma batch_do_step: "batch_do single ctx cap s a = Some s' \<Longrightarrow> batch_step single ctx cap s a s'"
  by (cases a)
    (auto elim!: at_workerE simp: list_update_append split: list.splits if_splits batch_worker.splits prod.splits
      intro: batch_step.intros)

lemma batch_step_do: "batch_step single ctx cap s a s' \<Longrightarrow> batch_do single ctx cap s a = Some s'"
  by (induction rule: batch_step.induct) (auto simp: at_worker_def nth_append list_update_append)

lemma batch_exec_run: "batch_exec single ctx cap s as = Some s' \<longleftrightarrow> run (batch_step single ctx cap) s as s'"
  by (induction as arbitrary: s)
    (auto simp: run_Cons_iff bind_eq_Some_conv dest: batch_do_step batch_step_do)

section \<open>The invariant\<close>

fun held :: "batch_worker \<Rightarrow> baseJsonRPC list" where
  "held (Holding r) = [r]"
| "held (Loaded k r) = [r]"
| "held _ = []"

fun busy :: "batch_worker \<Rightarrow> nat" where
  "busy Receiving = 0"
| "busy Exited = 0"
| "busy _ = 1"

text \<open>The lengths that were read and may be stored, and up to where the array has to be filled for that.\<close>

fun marks :: "batch_worker \<Rightarrow> nat set" where
  "marks (Loaded k r) = {k}"
| "marks (Written k) = {k}"
| "marks _ = {}"

fun filled_to :: "batch_worker \<Rightarrow> nat" where
  "filled_to (Loaded k r) = k"
| "filled_to (Written k) = Suc k"
| "filled_to _ = 0"

definition work_left :: "'st batch \<Rightarrow> nat" where
  "work_left s = sum_list (map busy (bt_workers s)) + length (bt_chan s) + length (bt_unsent s)"

definition array_values :: "'a option list \<Rightarrow> 'a list" where
  "array_values a = map the (filter (\<lambda>x. x \<noteq> None) a)"

definition batch_shape :: "baseJsonRPC list \<Rightarrow> 'st batch \<Rightarrow> bool" where
  "batch_shape requests s \<longleftrightarrow>
     length (bt_array s) = length requests \<and>
     mset (bt_log s) + mset (bt_chan s) + mset (bt_unsent s) = mset requests \<and>
     mset (array_values (bt_array s)) + mset (concat (map held (bt_workers s))) \<subseteq># mset (bt_produced s) \<and>
     (\<forall>k \<in> insert (bt_len s) (\<Union> (marks ` set (bt_workers s))). k + work_left s \<le> length requests) \<and>
     (\<forall>m \<in> insert (bt_len s) (filled_to ` set (bt_workers s)). \<forall>j < m. bt_array s ! j \<noteq> None) \<and>
     (bt_closed s \<longrightarrow> bt_unsent s = []) \<and>
     (Exited \<in> set (bt_workers s) \<longrightarrow> bt_closed s \<and> bt_chan s = []) \<and>
     (bt_returned s \<longrightarrow> bt_closed s \<and> (\<forall>w \<in> set (bt_workers s). w = Exited)) \<and>
     (bt_workers s = [] \<longrightarrow> requests = [])"

text \<open>When nothing else changes the state in the meantime, it is that of the requests one after the other.\<close>

definition batch_ok :: "'st methodJsonRPC \<Rightarrow> fiber_ctx \<Rightarrow> baseJsonRPC list \<Rightarrow> 'st \<Rightarrow> 'st batch \<Rightarrow> bool" where
  "batch_ok single ctx requests st s \<longleftrightarrow>
     batch_shape requests s \<and> answer_all single ctx (bt_log s) [] st = (bt_produced s, bt_state s)"

lemmas batch_ok_defs = batch_ok_def batch_shape_def

lemma answer_all_append:
  "answer_all single ctx (as @ bs) rs st =
     (let (rs', st') = answer_all single ctx as rs st in answer_all single ctx bs rs' st')"
  by (induction as arbitrary: rs st) (auto simp: Let_def split: prod.split)

lemma responses_append_eq: "responses_append rs r = rs @ responses_append [] r"
  by (auto simp: responses_append_def split: option.split)

lemma to_append_cases: "to_append r resp = [] \<or> (\<exists>x. to_append r resp = [x])"
  by (auto simp: to_append_def responses_append_def split: option.split)

lemma answer_all_snoc:
  assumes "answer_all single ctx log [] st0 = (produced, st)" and "single ctx r st = (resp, st')"
  shows "answer_all single ctx (log @ [r]) [] st0 = (produced @ to_append r resp, st')"
  using assms by (simp add: answer_all_append to_append_def responses_append_eq [of produced])

lemma array_values_update:
  assumes "k < length a"
  shows "mset (array_values (a[k := Some r])) \<subseteq># add_mset r (mset (array_values a))"
proof -
  have "a = take k a @ a ! k # drop (Suc k) a" using assms by (simp add: id_take_nth_drop)
  then have "mset (array_values a) = mset (array_values (take k a @ a ! k # drop (Suc k) a))" by simp
  moreover have "a[k := Some r] = take k a @ Some r # drop (Suc k) a" using assms by (simp add: upd_conv_take_nth_drop)
  ultimately show ?thesis by (cases "a ! k") (simp_all add: array_values_def subset_mset.le_add_same_cancel1)
qed

lemma start_shape:
  "0 < sint parallel \<Longrightarrow> batch_shape requests (start_batch parallel requests st)"
  by (auto simp: batch_shape_def start_batch_def batch_size_def work_left_def array_values_def sum_list_replicate
      split: if_splits)

lemma batch_step_shape:
  assumes "batch_step single ctx cap s a s'" and "batch_shape requests s"
  shows "batch_shape requests s'"
  using assms
proof (induction rule: batch_step.induct)
  case (send s r rs)
  then show ?case by (auto simp: batch_shape_def work_left_def)
next
  case (close s)
  then show ?case by (auto simp: batch_shape_def work_left_def)
next
  case (return s)
  then show ?case by (auto simp: batch_shape_def work_left_def)
next
  case (receive s us vs r rs resp st')
  let ?w = "after_single (to_append r resp)"
  have "sum_list (map busy (us @ ?w # vs)) + length rs + length (bt_unsent s) \<le> work_left s"
    and marks: "\<Union> (marks ` set (us @ ?w # vs)) = \<Union> (marks ` set (bt_workers s))"
    using receive to_append_cases [of r resp] by (auto simp: work_left_def after_single_def)
  then have "\<forall>k \<in> insert (bt_len s) (\<Union> (marks ` set (us @ ?w # vs))).
      k + (sum_list (map busy (us @ ?w # vs)) + length rs + length (bt_unsent s)) \<le> length requests"
    using receive unfolding batch_shape_def marks by (meson add_left_mono order_trans)
  moreover have "mset (array_values (bt_array s)) + mset (concat (map held (us @ ?w # vs))) \<subseteq># mset (bt_produced s @ to_append r resp)"
    using receive to_append_cases [of r resp] by (auto simp: batch_shape_def after_single_def)
  moreover have "?w \<noteq> Exited" "filled_to ?w = 0" using to_append_cases [of r resp] by (auto simp: after_single_def)
  ultimately show ?case
    using receive by (simp add: batch_shape_def work_left_def)
next
  case (load s us r vs)
  then show ?case by (auto simp: batch_shape_def work_left_def)
next
  case (write_element s us k r vs)
  then have k: "k < length (bt_array s)"
    and filled: "\<forall>m \<in> insert (bt_len s) (filled_to ` set (bt_workers s)). \<forall>j < m. (bt_array s)[k := Some r] ! j \<noteq> None"
    by (auto simp: batch_shape_def work_left_def nth_list_update)
  have "mset (array_values ((bt_array s)[k := Some r])) + mset (concat (map held (us @ vs))) \<subseteq>#
      add_mset r (mset (array_values (bt_array s))) + mset (concat (map held (us @ vs)))"
    using array_values_update [OF k] by (rule subset_mset.add_right_mono)
  also have "\<dots> \<subseteq># mset (bt_produced s)"
    using write_element by (auto simp: batch_shape_def)
  finally show ?case
    using write_element k filled by (auto simp: batch_shape_def work_left_def less_Suc_eq)
next
  case (store s us k vs)
  let ?left = "sum_list (map busy (us @ vs)) + length (bt_chan s) + length (bt_unsent s)"
  have "\<forall>k' \<in> insert k (\<Union> (marks ` set (us @ vs))). Suc (k' + ?left) \<le> length requests"
    using store by (auto simp: batch_shape_def work_left_def)
  then have "Suc k + ?left \<le> length requests" "\<forall>k' \<in> \<Union> (marks ` set (us @ vs)). k' + ?left \<le> length requests"
    using Suc_leD by (simp, blast)
  with store show ?case by (simp add: batch_shape_def work_left_def)
next
  case (exit s us vs)
  then show ?case by (auto simp: batch_shape_def work_left_def)
qed

lemma start_ok: "0 < sint parallel \<Longrightarrow> batch_ok single ctx requests st (start_batch parallel requests st)"
  using start_shape [of parallel requests st] by (simp add: batch_ok_def start_batch_def)

lemma batch_step_ok:
  assumes "batch_step single ctx cap s a s'" and "batch_ok single ctx requests st s"
  shows "batch_ok single ctx requests st s'"
proof -
  have "answer_all single ctx (bt_log s') [] st = (bt_produced s', bt_state s')"
    using assms by (induction rule: batch_step.induct) (auto simp: batch_ok_def intro: answer_all_snoc)
  with batch_step_shape [OF assms(1)] assms(2) show ?thesis by (simp add: batch_ok_def)
qed

interpretation bt: invariant_system
    "\<lambda>s. 0 < sint parallel \<and> s = start_batch parallel requests st" "batch_step single ctx cap" "batch_ok single ctx requests st"
  for parallel requests st single ctx cap
  by unfold_locales (auto intro: start_ok batch_step_ok)

definition batch_reachable ::
    "'st methodJsonRPC \<Rightarrow> fiber_ctx \<Rightarrow> go_int \<Rightarrow> baseJsonRPC list \<Rightarrow> 'st \<Rightarrow> 'st batch \<Rightarrow> bool" where
  "batch_reachable single ctx parallel requests st =
     reachable (\<lambda>s. s = start_batch parallel requests st) (batch_step single ctx (batch_size parallel requests))"

lemma batch_reachable_ok:
  assumes "0 < sint parallel" and "batch_reachable single ctx parallel requests st s"
  shows "batch_ok single ctx requests st s"
  using assms bt.reachable_inv [of parallel requests st single ctx "batch_size parallel requests" s]
  by (auto simp: batch_reachable_def reachable_def)

section \<open>What a parallel batch does\<close>

lemma ex_range_order:
  assumes "mset ys = mset xs"
  shows "\<exists>p. range_in p xs = ys"
proof -
  have "(\<lambda>zs. if zs = xs then ys else zs) \<in> {f. \<forall>xs. mset (f xs) = mset xs}" using assms by simp
  from Abs_range_order_inverse [OF this] show ?thesis by (metis (mono_tags, lifting))
qed

lemma do_batch_parallel:
  assumes "int (length requests) \<le> sint limit" and "\<not> EqualFold (ctx_SyncOn ctx) ''true''" and "0 < sint parallel"
  shows "do_batch limit parallel single schedule ctx requests st = Returns (answer_all single ctx (range_in schedule requests) [] st)"
  using assms by (auto simp: do_batch_def Let_def)

lemma returned_responses:
  assumes "batch_shape requests s" and "bt_returned s"
  shows "mset (bt_log s) = mset requests" and "mset (batch_responses s) \<subseteq># mset (bt_produced s)"
proof -
  have ex: "\<forall>w \<in> set (bt_workers s). w = Exited" "bt_unsent s = []" using assms by (auto simp: batch_shape_def)
  have "bt_chan s = []"
  proof (cases "bt_workers s")
    case Nil
    with assms(1) have "mset (bt_log s) + mset (bt_chan s) + mset (bt_unsent s) = {#}" by (auto simp: batch_shape_def)
    then show ?thesis by simp
  next
    case (Cons w ws)
    with ex(1) assms(1) show ?thesis by (auto simp: batch_shape_def)
  qed
  with ex(2) assms(1) show "mset (bt_log s) = mset requests" by (auto simp: batch_shape_def)
  have "bt_len s \<le> length (bt_array s)" "\<forall>j < bt_len s. bt_array s ! j \<noteq> None" using assms(1) by (auto simp: batch_shape_def)
  then have "filter (\<lambda>x. x \<noteq> None) (take (bt_len s) (bt_array s)) = take (bt_len s) (bt_array s)"
    by (auto simp: filter_id_conv in_set_conv_nth)
  then have "mset (batch_responses s) = mset (array_values (take (bt_len s) (bt_array s)))"
    by (simp add: batch_responses_def array_values_def)
  also have "\<dots> \<subseteq># mset (array_values (take (bt_len s) (bt_array s) @ drop (bt_len s) (bt_array s)))"
    by (simp only: array_values_def filter_append map_append mset_append mset_subset_eq_add_left)
  also have "\<dots> \<subseteq># mset (bt_produced s)"
    using assms(1) by (simp add: batch_shape_def) (metis mset_subset_eq_add_left subset_mset.order_trans)
  finally show "mset (batch_responses s) \<subseteq># mset (bt_produced s)" .
qed

text \<open>
  If no call of \<^verbatim>\<open>doSingleBatch\<close> interrupts another, the requests of an execution that returns are handled in some order,
  and the responses are among those of this order, none twice. (Calls that do interrupt each other need not be serialisable:
  \<open>CreateRace\<close> has two requests that both create one room.)
\<close>

lemma parallel_batch_serial:
  assumes "int (length requests) \<le> sint limit" and "\<not> EqualFold (ctx_SyncOn ctx) ''true''" and "0 < sint parallel"
    and "batch_reachable single ctx parallel requests st s" and "bt_returned s"
  shows "\<exists>schedule responses. do_batch limit parallel single schedule ctx requests st = Returns (responses, bt_state s) \<and>
    mset (batch_responses s) \<subseteq># mset responses"
proof -
  have ok: "batch_ok single ctx requests st s" by (rule batch_reachable_ok [OF assms(3,4)])
  then have shape: "batch_shape requests s" by (simp add: batch_ok_def)
  obtain schedule where "range_in schedule requests = bt_log s"
    using ex_range_order [OF returned_responses(1) [OF shape assms(5)]] by blast
  then have "do_batch limit parallel single schedule ctx requests st = Returns (bt_produced s, bt_state s)"
    using do_batch_parallel [OF assms(1-3), of single schedule st] ok by (simp add: batch_ok_defs)
  with returned_responses(2) [OF shape assms(5)] show ?thesis by blast
qed

section \<open>It ends\<close>

fun worker_measure :: "batch_worker \<Rightarrow> nat" where
  "worker_measure (Holding r) = 4"
| "worker_measure (Loaded k r) = 3"
| "worker_measure (Written k) = 2"
| "worker_measure Receiving = 1"
| "worker_measure Exited = 0"

definition batch_measure :: "'st batch \<Rightarrow> nat" where
  "batch_measure s = 6 * length (bt_unsent s) + 5 * length (bt_chan s) + sum_list (map worker_measure (bt_workers s)) +
     (if bt_closed s then 0 else 1) + (if bt_returned s then 0 else 1)"

lemma batch_step_decreases: "batch_step single ctx cap s a s' \<Longrightarrow> batch_measure s' < batch_measure s"
  by (induction rule: batch_step.induct) (auto simp: batch_measure_def after_single_def split: list.split)

lemma batch_run_bounded: "run (batch_step single ctx cap) s as s' \<Longrightarrow> length as + batch_measure s' \<le> batch_measure s"
  by (induction rule: run.induct) (auto dest: batch_step_decreases)

lemma start_measure: "batch_measure (start_batch parallel requests st) \<le> 7 * length requests + 2"
  by (auto simp: batch_measure_def start_batch_def sum_list_replicate batch_size_def)

lemma batch_workers_kept: "batch_step single ctx cap s a s' \<Longrightarrow> length (bt_workers s') = length (bt_workers s)"
  by (induction rule: batch_step.induct) auto

lemma worker_moves:
  assumes "bt_workers s = us @ w # vs" and "w \<noteq> Exited" and "w = Receiving \<longrightarrow> bt_chan s \<noteq> [] \<or> bt_closed s"
  shows "\<exists>a s'. batch_step single ctx cap s a s'"
proof (cases w)
  case Receiving
  show ?thesis
  proof (cases "bt_chan s")
    case Nil
    then have "bt_closed s" using Receiving assms(3) by simp
    from batch_step.exit [OF assms(1) [unfolded Receiving] Nil this] show ?thesis by blast
  next
    case (Cons r rs)
    obtain resp st where "single ctx r (bt_state s) = (resp, st)" by force
    with batch_step.receive [of s us vs r rs single ctx] assms(1) Receiving Cons show ?thesis by blast
  qed
next
  case (Holding r)
  from batch_step.load [OF assms(1) [unfolded Holding]] show ?thesis by blast
next
  case (Loaded k r)
  from batch_step.write_element [OF assms(1) [unfolded Loaded]] show ?thesis by blast
next
  case (Written k)
  from batch_step.store [OF assms(1) [unfolded Written]] show ?thesis by blast
qed (use assms(2) in simp)

lemma batch_progress:
  assumes "batch_shape requests s" and "\<not> bt_returned s" and "requests \<noteq> [] \<longrightarrow> 0 < cap"
  shows "\<exists>a s'. batch_step single ctx cap s a s'"
proof (cases "\<exists>w \<in> set (bt_workers s). w \<noteq> Exited \<and> (w = Receiving \<longrightarrow> bt_chan s \<noteq> [] \<or> bt_closed s)")
  case True
  then show ?thesis by (metis split_list worker_moves)
next
  case False
  show ?thesis
  proof (cases "bt_closed s")
    case True
    with False have "\<forall>w \<in> set (bt_workers s). w = Exited" by blast
    from batch_step.return [OF True assms(2) this] show ?thesis by blast
  next
    case opened: False
    show ?thesis
    proof (cases "bt_unsent s")
      case Nil
      from batch_step.close [OF this opened] show ?thesis by blast
    next
      case (Cons r rs)
      have "bt_chan s = []"
        using assms(1) False opened Cons by (cases "bt_workers s") (auto simp: batch_shape_def)
      moreover have "requests \<noteq> []" using assms(1) Cons by (auto simp: batch_shape_def)
      ultimately show ?thesis using assms(3) batch_step.send [OF Cons, of cap] by auto
    qed
  qed
qed

text \<open>
  A parallel batch returns. With at least one worker allowed, no execution of the goroutines takes more than
  \<open>7 * n + 2\<close> steps for \<open>n\<close> requests, and none is ever stuck before \<^verbatim>\<open>doBatch\<close> has returned.
\<close>

theorem parallel_batch_returns:
  assumes "0 < sint parallel" and "run (batch_step single ctx (batch_size parallel requests)) (start_batch parallel requests st) as s"
  shows "length as \<le> 7 * length requests + 2 \<and>
    (\<not> bt_returned s \<longrightarrow> (\<exists>a s'. batch_step single ctx (batch_size parallel requests) s a s'))"
proof -
  have "batch_ok single ctx requests st s"
    by (rule bt.run_inv [OF assms(2) start_ok [OF assms(1)]])
  then have ok: "batch_shape requests s" by (simp add: batch_ok_def)
  have "requests \<noteq> [] \<longrightarrow> 0 < batch_size parallel requests" using assms(1) by (simp add: batch_size_def)
  then have "\<exists>a s'. batch_step single ctx (batch_size parallel requests) s a s'" if "\<not> bt_returned s"
    by (rule batch_progress [OF ok that])
  moreover have "length as \<le> 7 * length requests + 2"
    using batch_run_bounded [OF assms(2)] start_measure [of parallel requests st] by linarith
  ultimately show ?thesis by blast
qed

section \<open>One worker\<close>

text \<open>With a single worker the appends follow each other: nothing is lost and the order is that of the requests.\<close>

definition alone_ok :: "baseJsonRPC list \<Rightarrow> 'st batch \<Rightarrow> bool" where
  "alone_ok requests s \<longleftrightarrow>
     bt_log s @ bt_chan s @ bt_unsent s = requests \<and>
     (case bt_workers s of
        [Loaded k r] \<Rightarrow> k = bt_len s \<and> batch_responses s @ [r] = bt_produced s
      | [Written k] \<Rightarrow> k = bt_len s \<and> map the (take (Suc k) (bt_array s)) = bt_produced s
      | [w] \<Rightarrow> batch_responses s @ held w = bt_produced s
      | _ \<Rightarrow> False)"

lemma single_split: "[w] = us @ v # vs \<longleftrightarrow> us = [] \<and> v = w \<and> vs = []"
  by (cases us) auto

lemma alone_step_ok:
  assumes "batch_step single ctx cap s a s'" and "batch_ok single ctx requests st s" and "alone_ok requests s"
  shows "alone_ok requests s'"
proof -
  obtain w where w: "bt_workers s = [w]"
    using assms(3) by (auto simp: alone_ok_def split: list.splits batch_worker.splits)
  from assms(1) w assms(2,3) show ?thesis
  proof (induction rule: batch_step.induct)
    case (write_element s us k r vs)
    then have "k < length (bt_array s)" by (auto simp: batch_ok_defs work_left_def)
    with write_element show ?case
      by (auto simp: alone_ok_def batch_responses_def single_split take_Suc_conv_app_nth)
  next
    case (receive s us vs r rs resp st')
    with to_append_cases [of r resp] show ?case
      by (auto simp: alone_ok_def batch_responses_def single_split after_single_def)
  qed (auto simp: alone_ok_def batch_responses_def single_split split: batch_worker.splits)
qed

lemma alone_start: "batch_size parallel requests = 1 \<Longrightarrow> alone_ok requests (start_batch parallel requests st)"
  by (simp add: alone_ok_def start_batch_def batch_responses_def)

interpretation bt1: invariant_system
    "\<lambda>s. 0 < sint parallel \<and> batch_size parallel requests = 1 \<and> s = start_batch parallel requests st" "batch_step single ctx cap"
    "\<lambda>s. batch_ok single ctx requests st s \<and> alone_ok requests s"
  for parallel requests st single ctx cap
  by unfold_locales (auto intro: start_ok batch_step_ok alone_start alone_step_ok)

text \<open>
  One worker loses nothing. If only one goroutine handles the batch (one worker is configured, or there is one request), then
  every execution that returns leaves the service and the responses of the requests one after the other, in
  their order.
\<close>

theorem single_worker_batch_exact:
  assumes "int (length requests) \<le> sint limit" and "\<not> EqualFold (ctx_SyncOn ctx) ''true''" and "0 < sint parallel"
    and "batch_size parallel requests = 1" and "batch_reachable single ctx parallel requests st s" and "bt_returned s"
  shows "do_batch limit parallel single insertion_order ctx requests st = Returns (batch_responses s, bt_state s)"
proof -
  have ok: "batch_ok single ctx requests st s" "alone_ok requests s"
    using assms(3-5) bt1.reachable_inv [of parallel requests st single ctx "batch_size parallel requests" s]
    by (auto simp: batch_reachable_def reachable_def)
  have "bt_workers s = [Exited]"
    using ok assms(6) by (auto simp: alone_ok_def batch_ok_defs split: list.splits batch_worker.splits)
  then have "bt_log s = requests" "batch_responses s = bt_produced s"
    using ok by (auto simp: alone_ok_def batch_ok_defs)
  then show ?thesis
    using do_batch_parallel [OF assms(1-3), of single insertion_order st] ok(1) by (simp add: batch_ok_defs)
qed

section \<open>Two workers\<close>

lemma batch_size_two: "2 \<le> sint parallel \<Longrightarrow> batch_size parallel [r1, r2] = 2"
  by (auto simp: batch_size_def)

text \<open>An execution in which both workers read the length before either stores it.\<close>

definition racing :: "batch_action list" where
  "racing = [Send, Send, Close, Receive 0, Receive 1, Load 0, Load 1, Write 0, Write 1, Store 0, Store 1, Exit 0, Exit 1, Return]"

lemma racing_exec:
  assumes "single ctx r1 st = (Some a, st1)" and "single ctx r2 st1 = (Some b, st2)"
    and "to_append r1 (Some a) = [a]" and "to_append r2 (Some b) = [b]" and "batch_size parallel [r1, r2] = 2"
  shows "batch_exec single ctx 2 (start_batch parallel [r1, r2] st) racing =
    Some \<lparr>bt_unsent = [], bt_chan = [], bt_closed = True, bt_workers = [Exited, Exited], bt_array = [Some b, None], bt_len = 1,
      bt_returned = True, bt_state = st2, bt_log = [r1, r2], bt_produced = [a, b]\<rparr>"
  using assms by (simp add: racing_def start_batch_def at_worker_def after_single_def numeral_2_eq_2)

lemma racing_reachable:
  assumes "rpc_ID r1 \<noteq> None" and "rpc_ID r2 \<noteq> None" and "2 \<le> sint parallel"
  obtains s r where "batch_reachable (Server_doSingleBatch http dec) ctx parallel [r1, r2] st s" and "bt_returned s"
    and "bt_state s = snd (answer_all (Server_doSingleBatch http dec) ctx [r1, r2] [] st)"
    and "batch_responses s = [r]" and "rpc_ID r = rpc_ID r2"
proof -
  let ?single = "Server_doSingleBatch http dec"
  obtain a st1 where a: "?single ctx r1 st = (Some a, st1)" "rpc_ID a = rpc_ID r1"
    using doSingleBatch_answered(2) [OF assms(1), of http dec ctx st] unfolding answered_def by blast
  obtain b st2 where b: "?single ctx r2 st1 = (Some b, st2)" "rpc_ID b = rpc_ID r2"
    using doSingleBatch_answered(2) [OF assms(2), of http dec ctx st1] unfolding answered_def by blast
  have app: "to_append r1 (Some a) = [a]" "to_append r2 (Some b) = [b]"
    using assms(1,2) a(2) b(2) by (simp_all add: to_append_def responses_append_def)
  have two: "batch_size parallel [r1, r2] = 2" by (rule batch_size_two [OF assms(3)])
  show thesis
  proof (rule that [where r = b])
    show "batch_reachable ?single ctx parallel [r1, r2] st
        \<lparr>bt_unsent = [], bt_chan = [], bt_closed = True, bt_workers = [Exited, Exited], bt_array = [Some b, None], bt_len = 1,
         bt_returned = True, bt_state = st2, bt_log = [r1, r2], bt_produced = [a, b]\<rparr>"
      using racing_exec [where single = ?single and ctx = ctx, OF a(1) b(1) app two]
      unfolding batch_exec_run batch_reachable_def reachable_def two by blast
  qed (simp_all add: batch_responses_def a(1) b)
qed

text \<open>
  C33: two workers can lose a response. For every service and every batch of two requests with ids, if at least two workers are
  allowed, there is an execution of \<^verbatim>\<open>doBatch\<close> that handles both requests, the first before the second, and
  returns the response to the second only.
\<close>

theorem parallel_batch_loses_response:
  assumes "rpc_ID r1 \<noteq> None" and "rpc_ID r2 \<noteq> None" and "2 \<le> sint parallel"
  shows "\<exists>s r. batch_reachable (Server_doSingleBatch http dec) ctx parallel [r1, r2] st s \<and> bt_returned s \<and>
    bt_state s = snd (answer_all (Server_doSingleBatch http dec) ctx [r1, r2] [] st) \<and>
    batch_responses s = [r] \<and> rpc_ID r = rpc_ID r2"
  using racing_reachable [OF assms] by metis

section \<open>Instances\<close>

definition ex_batch :: "baseJsonRPC list" where
  "ex_batch = [ex_request (Some (JInt 1)) ''serverSettings.healthCheck'', ex_request (Some (JInt 2)) ''serverSettings.healthCheck'']"

theorem parallel_batch_loses_response_witness:
  "\<exists>s r. batch_reachable (Server_doSingleBatch ex_http ex_dec) ex_ctx 2 ex_batch () s \<and> bt_returned s \<and>
     batch_responses s = [r] \<and> rpc_ID r = Some (JInt 2)"
  using parallel_batch_loses_response [of "ex_request (Some (JInt 1)) ''serverSettings.healthCheck''"
      "ex_request (Some (JInt 2)) ''serverSettings.healthCheck''" 2 ex_http ex_dec ex_ctx "()"]
  by (auto simp: ex_batch_def ex_request_def zero_base_def)

lemma ex_batch_id: "rpc_ID (ex_request (Some i) m) = Some i"
  by (simp add: ex_request_def zero_base_def)

theorem parallel_batch_returns_witness:
  "\<exists>a s'. batch_step (Server_doSingleBatch ex_http ex_dec) ex_ctx (batch_size 2 ex_batch) (start_batch 2 ex_batch ()) a s'"
  using parallel_batch_returns [where parallel = 2 and requests = ex_batch and as = "[]", OF _ run_Nil]
  by (simp add: start_batch_def)

definition ex_single_batch :: "unit batch" where
  "ex_single_batch =
     (case batch_exec (Server_doSingleBatch ex_http ex_dec) ex_ctx 1 (start_batch 1 ex_batch ())
        [Send, Receive 0, Send, Load 0, Close, Write 0, Store 0, Receive 0, Load 0, Write 0, Store 0, Exit 0, Return] of
        Some s \<Rightarrow> s | None \<Rightarrow> start_batch 1 ex_batch ())"

theorem single_worker_batch_exact_witness:
  "do_batch 3 1 (Server_doSingleBatch ex_http ex_dec) insertion_order ex_ctx ex_batch () =
     Returns (batch_responses ex_single_batch, ()) \<and> length (batch_responses ex_single_batch) = 2"
proof -
  let ?single = "Server_doSingleBatch ex_http ex_dec"
  let ?as = "[Send, Receive 0, Send, Load 0, Close, Write 0, Store 0, Receive 0, Load 0, Write 0, Store 0, Exit 0, Return]"
  obtain a where a: "?single ex_ctx (ex_batch ! 0) () = (Some a, ())" "rpc_ID a \<noteq> None"
    using doSingleBatch_answered(2) [of "ex_batch ! 0" ex_http ex_dec ex_ctx "()"]
    by (auto simp: answered_def ex_batch_def ex_batch_id)
  obtain b where b: "?single ex_ctx (ex_batch ! 1) () = (Some b, ())" "rpc_ID b \<noteq> None"
    using doSingleBatch_answered(2) [of "ex_batch ! 1" ex_http ex_dec ex_ctx "()"]
    by (auto simp: answered_def ex_batch_def ex_batch_id)
  have size: "batch_size 1 ex_batch = 1" by (simp add: batch_size_def ex_batch_def)
  have ids: "rpc_ID (ex_batch ! 0) \<noteq> None" "rpc_ID (ex_batch ! 1) \<noteq> None" by (simp_all add: ex_batch_def ex_batch_id)
  have "ex_batch = [ex_batch ! 0, ex_batch ! 1]" by (simp add: ex_batch_def)
  then obtain r1 r2 where r: "ex_batch = [r1, r2]" "r1 = ex_batch ! 0" "r2 = ex_batch ! 1" by blast
  have ex: "batch_exec ?single ex_ctx 1 (start_batch 1 ex_batch ()) ?as =
      Some \<lparr>bt_unsent = [], bt_chan = [], bt_closed = True, bt_workers = [Exited], bt_array = [Some a, Some b], bt_len = 2,
        bt_returned = True, bt_state = (), bt_log = [r1, r2], bt_produced = [a, b]\<rparr>"
    using a b ids size unfolding r(2,3) [symmetric]
    by (simp add: r(1) start_batch_def at_worker_def after_single_def to_append_def responses_append_def)
  then have "batch_exec ?single ex_ctx 1 (start_batch 1 ex_batch ()) ?as = Some ex_single_batch"
    by (simp only: ex_single_batch_def option.case)
  then have "batch_reachable ?single ex_ctx 1 ex_batch () ex_single_batch"
    unfolding batch_exec_run batch_reachable_def reachable_def size by blast
  moreover have "bt_returned ex_single_batch" "length (batch_responses ex_single_batch) = 2"
    unfolding ex_single_batch_def ex by (simp_all add: batch_responses_def)
  moreover have "int (length ex_batch) \<le> sint (3 :: go_int)" "\<not> EqualFold (ctx_SyncOn ex_ctx) ''true''" "0 < sint (1 :: go_int)"
    by (simp_all add: ex_batch_def ex_ctx_def EqualFold_def ToLower_def)
  ultimately show ?thesis
    using single_worker_batch_exact [OF _ _ _ size, where single = ?single and s = ex_single_batch and limit = 3] by simp
qed

end
