(* ===== verification/ClientRace.thy ===== *)
theory ClientRace
  imports ClientBatch BatchRace
begin

text \<open>
  A batch of the generated client that reaches the goroutines of the server's \<^verbatim>\<open>doBatch\<close>: \<^verbatim>\<open>batch.go\<close> over the
  executions of \<open>BatchRace\<close>, with everything else that changes the service in the meantime.
\<close>

section \<open>The server's goroutines behind the network\<close>

text \<open>
  A call of \<^verbatim>\<open>doSingleBatch\<close> while other goroutines, also those of the same batch, change the service: what the
  \<open>k\<close>-th call finds there is arbitrary. Nothing is said of what it leaves there.
\<close>

definition interrupted :: "'st methodJsonRPC \<Rightarrow> (nat \<Rightarrow> 'st) \<Rightarrow> nat methodJsonRPC" where
  "interrupted single seen ctx request k = (fst (single ctx request (seen k)), Suc k)"

text \<open>
  \<^verbatim>\<open>serveBatch\<close> when the body is a list of requests that \<^verbatim>\<open>doBatch\<close> gives to its goroutines, and these have
  returned \<open>responses\<close>. Every other request is answered as in \<open>over\<close>.
\<close>

definition over_batch :: "'st peer \<Rightarrow> 'st \<Rightarrow> baseJsonRPC list \<Rightarrow> network \<Rightarrow> network" where
  "over_batch p st responses net = net\<lparr>http_do := \<lambda>req body.
     (let ctx = peer_ctx net req body
      in case Option.bind (ctx_Body ctx) decode_requests of
           Some requests \<Rightarrow>
             if ctx_Method ctx = ''POST'' \<and> int (length requests) \<le> sint (srv_maxBatchSize (peer_server p)) \<and>
                \<not> EqualFold (ctx_SyncOn ctx) ''true''
             then (let resp = sendResponse (Many responses) new_response
                   in Inr (status resp, body_json (peer_err p) (written resp)))
             else http_do (over p st net) req body
         | None \<Rightarrow> http_do (over p st net) req body)\<rparr>"

lemma over_batch_newRequest:
  assumes "plain_client client net"
  obtains req where "newRequest client (over_batch p st responses net) q ctx body = Inr req"
    and "peer_ctx net req body = client_ctx body"
  using assms
  by (auto simp: over_batch_def client_ctx_def plain_client_def newRequest_def Let_def peer_ctx_def header_get_def Header_Set_def
      update_conv split: if_splits)

lemma over_batch_sel [simp]: "net_uuid (over_batch p st responses net) = net_uuid net"
  by (simp add: over_batch_def)

section \<open>The responses of the goroutines\<close>

lemma answer_all_produces:
  assumes "\<And>request st. request \<in> set log \<Longrightarrow> \<exists>r st'. single ctx request st = (Some r, st') \<and> rpc_ID r \<noteq> None \<and> P request r"
    and "\<forall>request \<in> set log. rpc_ID request \<noteq> None"
  shows "\<exists>new. fst (answer_all single ctx log rs st) = rs @ new \<and> list_all2 P log new"
  using assms
proof (induction log arbitrary: rs st)
  case (Cons request log)
  obtain r st' where r: "single ctx request st = (Some r, st')" "rpc_ID r \<noteq> None" "P request r" using Cons.prems(1) [of request st] by auto
  obtain new where "fst (answer_all single ctx log (rs @ [r]) st') = (rs @ [r]) @ new" "list_all2 P log new"
    using Cons.IH [of "rs @ [r]" st'] Cons.prems by force
  with r Cons.prems(2) show ?case by (intro exI [of _ "r # new"]) (simp add: responses_append_def)
qed simp

text \<open>A response of the service to a request: one that \<^verbatim>\<open>doSingleBatch\<close> gives in some state of the service.\<close>

definition response_to :: "'st methodJsonRPC \<Rightarrow> fiber_ctx \<Rightarrow> baseJsonRPC \<Rightarrow> baseJsonRPC \<Rightarrow> bool" where
  "response_to single ctx request r \<longleftrightarrow> (\<exists>st. fst (single ctx request st) = Some r)"

text \<open>Something was appended, or is about to be.\<close>

definition some_kept :: "'st batch \<Rightarrow> bool" where
  "some_kept s \<longleftrightarrow> bt_produced s = [] \<or> 0 < bt_len s \<or> (\<exists>w \<in> set (bt_workers s). busy w \<noteq> 0)"

lemma some_kept_step: "batch_step single ctx cap s a s' \<Longrightarrow> some_kept s \<Longrightarrow> some_kept s'"
proof (induction rule: batch_step.induct)
  case (receive s us vs r rs resp st)
  then show ?case using to_append_cases [of r resp] by (auto simp: some_kept_def after_single_def)
qed (auto simp: some_kept_def)

interpretation kept: invariant_system "\<lambda>s. s = start_batch parallel requests st" "batch_step single ctx cap" some_kept
  for parallel requests st single ctx cap
  by unfold_locales (simp add: some_kept_def start_batch_def, erule some_kept_step)

text \<open>
  What a batch of requests with ids returns: for each response a request of its own that it answers, at least one
  response, and all of them when there is one goroutine.
\<close>

lemma returned_batch:
  assumes "0 < sint parallel" and "requests \<noteq> []" and "\<forall>r \<in> set requests. rpc_ID r \<noteq> None"
    and "batch_reachable (interrupted (Server_doSingleBatch http dec) seen) ctx parallel requests k s" and "bt_returned s"
  obtains log produced where "mset log = mset requests"
    and "list_all2 (\<lambda>request r. rpc_ID r = rpc_ID request \<and> response_to (Server_doSingleBatch http dec) ctx request r) log produced"
    and "mset (batch_responses s) \<subseteq># mset produced" and "batch_responses s \<noteq> []"
    and "batch_size parallel requests = 1 \<Longrightarrow> batch_responses s = produced"
proof -
  let ?single = "interrupted (Server_doSingleBatch http dec) seen"
  have ok: "batch_ok ?single ctx requests k s" by (rule batch_reachable_ok [OF assms(1,4)])
  then have shape: "batch_shape requests s" by (simp add: batch_ok_def)
  have log: "mset (bt_log s) = mset requests" "mset (batch_responses s) \<subseteq># mset (bt_produced s)"
    by (rule returned_responses [OF shape assms(5)])+
  have ids: "\<forall>r \<in> set (bt_log s). rpc_ID r \<noteq> None" using assms(3) mset_eq_setD [OF log(1)] by simp
  have "\<exists>r st'. ?single ctx request j = (Some r, st') \<and>
      rpc_ID r \<noteq> None \<and> (rpc_ID r = rpc_ID request \<and> response_to (Server_doSingleBatch http dec) ctx request r)"
    if "request \<in> set (bt_log s)" for request j
  proof -
    have id: "rpc_ID request \<noteq> None" using ids that by blast
    obtain r st' where r: "Server_doSingleBatch http dec ctx request (seen j) = (Some r, st')" "rpc_ID r = rpc_ID request"
      using doSingleBatch_answered(2) [OF id, of http dec ctx "seen j"] unfolding answered_def by (elim exE conjE)
    then have "response_to (Server_doSingleBatch http dec) ctx request r" unfolding response_to_def by (metis fst_conv)
    with r id show ?thesis by (simp add: interrupted_def)
  qed
  from answer_all_produces [of "bt_log s" ?single ctx, OF this ids, of "[]" k] ok
  have made: "list_all2 (\<lambda>request r. rpc_ID r = rpc_ID request \<and> response_to (Server_doSingleBatch http dec) ctx request r)
      (bt_log s) (bt_produced s)"
    by (auto simp: batch_ok_def)
  have "some_kept s"
    by (rule kept.reachable_inv [OF assms(4) [unfolded batch_reachable_def]])
  moreover have "bt_produced s \<noteq> []"
    using list_all2_lengthD [OF made] log(1) assms(2) by (auto dest: mset_eq_length)
  moreover have "\<forall>w \<in> set (bt_workers s). busy w = 0" using shape assms(5) by (auto simp: batch_shape_def)
  ultimately have "0 < bt_len s" by (auto simp: some_kept_def)
  moreover have "length (bt_array s) = length requests" using shape by (simp add: batch_shape_def)
  ultimately have ne: "batch_responses s \<noteq> []" using assms(2) by (cases "bt_array s") (auto simp: batch_responses_def)
  have "batch_responses s = bt_produced s" if one: "batch_size parallel requests = 1"
  proof -
    have "alone_ok requests s"
      using bt1.reachable_inv [of parallel requests k ?single ctx "batch_size parallel requests" s] assms(1,4) one
      by (auto simp: batch_reachable_def reachable_def)
    moreover have "\<forall>w \<in> set (bt_workers s). w = Exited" using shape assms(5) by (auto simp: batch_shape_def)
    ultimately show ?thesis by (auto simp: alone_ok_def split: list.splits batch_worker.splits)
  qed
  with that [OF log(1) made log(2) ne] show thesis by blast
qed

section \<open>What the client makes of it\<close>

lemma decode_all_responses:
  assumes "\<forall>r \<in> set responses. server_made r \<and> (\<exists>i. rpc_ID r = id_json i \<and> puuid (uuid_String i) = Some i)"
  obtains rs where "decode_all (decode_response puuid allow) (map (enc_base ej) responses) = Some (map Some rs)"
    and "list_all2 (\<lambda>r a. rpc_ID r = id_json (rs_ID a) \<and> a = client_response ej (rs_ID a) r) responses rs"
  using assms
proof (induction responses arbitrary: thesis)
  case (Cons r responses)
  obtain rs where rs: "decode_all (decode_response puuid allow) (map (enc_base ej) responses) = Some (map Some rs)"
      "list_all2 (\<lambda>r a. rpc_ID r = id_json (rs_ID a) \<and> a = client_response ej (rs_ID a) r) responses rs"
    using Cons.IH Cons.prems(2) by auto
  obtain i where i: "rpc_ID r = id_json i" "puuid (uuid_String i) = Some i" using Cons.prems(2) by auto
  show ?case
    by (rule Cons.prems(1) [of "client_response ej i r # rs"])
      (use Cons.prems(2) i rs decode_enc_base [of r i puuid allow ej] in \<open>simp_all add: id_json_def client_response_def\<close>)
qed simp

lemma decoded_ids:
  assumes "list_all2 (\<lambda>r a. rpc_ID r = id_json (rs_ID a) \<and> a = client_response ej (rs_ID a) r) responses rs"
  shows "map rpc_ID responses = map (id_json \<circ> rs_ID) rs"
  using assms by (induction rule: list_all2_induct) auto

text \<open>The answer of \<open>over_batch\<close> to a client's batch within the limit.\<close>

lemma over_batch_answer:
  assumes "plain_client client net" and "requests \<noteq> []" and "responses \<noteq> []"
    and "int (length requests) \<le> sint (srv_maxBatchSize (peer_server p))"
    and "decode_all (decode_response (net_uuid net) (op_allowUnknownFields (cl_options client)))
           (map (enc_base (peer_err p)) responses) = Some (map Some rs)"
  shows "CallBatch client (over_batch p st responses net) q ctx requests = (map Some rs, None)"
proof -
  let ?body = "JArr (map enc_request requests)"
  obtain req where req: "newRequest client (over_batch p st responses net) q ctx ?body = Inr req"
      "peer_ctx net req ?body = client_ctx ?body"
    by (rule over_batch_newRequest [OF assms(1)])
  have "http_do (over_batch p st responses net) req ?body = Inr (200, Some (JArr (map (enc_base (peer_err p)) responses)))"
    using assms(3,4) by (simp add: over_batch_def req(2) client_ctx_def decode_all_requests [unfolded decode_requests.simps]
        sendResponse_def new_response_def EqualFold_def ToLower_def)
  moreover have "rs \<noteq> []" using assms(3,5) by (cases responses) (auto split: option.splits)
  ultimately show ?thesis
    using assms(2,5) req(1) by (cases rs) (simp_all add: CallBatch_def doBatchCall_def with_deferred_def)
qed

lemma list_all2_right: "list_all2 P xs ys \<Longrightarrow> y \<in> set ys \<Longrightarrow> \<exists>x \<in> set xs. P x y"
  by (induction rule: list_all2_induct) auto

lemma list_all2_left: "list_all2 P xs ys \<Longrightarrow> x \<in> set xs \<Longrightarrow> \<exists>y \<in> set ys. P x y"
  by (induction rule: list_all2_induct) auto

lemma distinct_subset_mset:
  assumes "distinct ys" and "mset xs \<subseteq># mset ys"
  shows "distinct xs"
  unfolding distinct_count_atmost_1
proof
  fix x
  have "count (mset xs) x \<le> count (mset ys) x" by (rule mset_subset_eq_count [OF assms(2)])
  also have "\<dots> \<le> 1" using assms(1) by (simp add: distinct_count_atmost_1)
  finally show "count (mset xs) x = (if x \<in> set xs then 1 else 0)"
    by (cases "x \<in> set xs") (auto simp: count_mset_0_iff le_Suc_eq)
qed

text \<open>
  What the client decodes of a returned batch: one response with the id of each response of the goroutines, no id twice, each of
  them a response of the service to the request with that id.
\<close>

lemma batch_decoded:
  assumes "errorHandler (peer_http p) = None" and "distinct (map rq_ID requests)" and "requests \<noteq> []"
    and "\<forall>r \<in> set requests. puuid (uuid_String (rq_ID r)) = Some (rq_ID r)"
    and "0 < sint parallel" and "bt_returned s"
    and "batch_reachable (interrupted (Server_doSingleBatch (peer_http p) (peer_dec p)) seen) ctx parallel (map client_base requests) k s"
  obtains rs where "decode_all (decode_response puuid allow) (map (enc_base (peer_err p)) (batch_responses s)) = Some (map Some rs)"
    and "distinct (map rs_ID rs)" and "rs \<noteq> []" and "map rpc_ID (batch_responses s) = map (id_json \<circ> rs_ID) rs"
    and "\<And>a. a \<in> set rs \<Longrightarrow> \<exists>request \<in> set requests. \<exists>r. rs_ID a = rq_ID request \<and> a = client_response (peer_err p) (rs_ID a) r \<and>
           response_to (Server_doSingleBatch (peer_http p) (peer_dec p)) ctx (client_base request) r"
    and "batch_size parallel (map client_base requests) = 1 \<Longrightarrow> rs_ID ` set rs = rq_ID ` set requests"
proof -
  let ?single = "Server_doSingleBatch (peer_http p) (peer_dec p)" and ?out = "batch_responses s"
  have ids: "\<forall>r \<in> set (map client_base requests). rpc_ID r \<noteq> None" by (simp add: id_json_def)
  have some: "map client_base requests \<noteq> []" using assms(3) by simp
  obtain log produced where log: "mset log = mset (map client_base requests)"
      and made: "list_all2 (\<lambda>request r. rpc_ID r = rpc_ID request \<and> response_to ?single ctx request r) log produced"
      and sub: "mset ?out \<subseteq># mset produced" and ne: "?out \<noteq> []"
      and one: "batch_size parallel (map client_base requests) = 1 \<Longrightarrow> ?out = produced"
    by (rule returned_batch [OF assms(5) some ids assms(7,6)]) (rule that; assumption)
  have own: "\<exists>request \<in> set requests. rpc_ID r = id_json (rq_ID request) \<and> response_to ?single ctx (client_base request) r"
    if rp: "r \<in> set produced" for r
  proof -
    obtain request where "request \<in> set log" "rpc_ID r = rpc_ID request" "response_to ?single ctx request r"
      using list_all2_right [OF made rp] by (elim bexE conjE)
    moreover have "set log = client_base ` set requests" using mset_eq_setD [OF log] by simp
    ultimately show ?thesis by auto
  qed
  have out: "set ?out \<subseteq> set produced" using sub by (metis set_mset_mono set_mset_mset)
  have "\<forall>r \<in> set ?out. server_made r \<and> (\<exists>i. rpc_ID r = id_json i \<and> puuid (uuid_String i) = Some i)"
  proof
    fix r assume "r \<in> set ?out"
    with own out obtain request where request: "request \<in> set requests" "rpc_ID r = id_json (rq_ID request)"
        "response_to ?single ctx (client_base request) r" by blast
    then obtain st' st'' where "?single ctx (client_base request) st' = (Some r, st'')"
      unfolding response_to_def by (metis prod.collapse)
    from single_server_made [OF this assms(1)] request assms(4)
    show "server_made r \<and> (\<exists>i. rpc_ID r = id_json i \<and> puuid (uuid_String i) = Some i)" by blast
  qed
  then obtain rs where rs: "decode_all (decode_response puuid allow) (map (enc_base (peer_err p)) ?out) = Some (map Some rs)"
      "list_all2 (\<lambda>r a. rpc_ID r = id_json (rs_ID a) \<and> a = client_response (peer_err p) (rs_ID a) r) ?out rs"
    by (rule decode_all_responses)
  have rids: "map rpc_ID ?out = map (id_json \<circ> rs_ID) rs" by (rule decoded_ids [OF rs(2)])
  have "map rpc_ID produced = map rpc_ID log" using made by (induction rule: list_all2_induct) auto
  then have pids: "mset (map rpc_ID produced) = mset (map (id_json \<circ> rq_ID) requests)"
    using arg_cong [OF log, of "image_mset rpc_ID"] by (simp add: multiset.map_comp comp_def)
  have "distinct (map (id_json \<circ> rq_ID) requests)"
    using assms(2) id_json_inj by (simp add: distinct_map inj_on_def inj_def)
  then have "distinct (map rpc_ID produced)" using mset_eq_imp_distinct_iff [OF pids] by simp
  moreover have "mset (map rpc_ID ?out) \<subseteq># mset (map rpc_ID produced)" using image_mset_subseteq_mono [OF sub] by simp
  ultimately have "distinct (map rpc_ID ?out)"
    by (rule distinct_subset_mset)
  then have d: "distinct (map rs_ID rs)" unfolding rids by (auto simp: distinct_map intro: inj_on_imageI2)
  have n: "rs \<noteq> []" using ne rids by auto
  have a: "\<exists>request \<in> set requests. \<exists>r. rs_ID a = rq_ID request \<and> a = client_response (peer_err p) (rs_ID a) r \<and>
      response_to ?single ctx (client_base request) r" if ars: "a \<in> set rs" for a
  proof -
    obtain r where r: "r \<in> set ?out" "rpc_ID r = id_json (rs_ID a)" "a = client_response (peer_err p) (rs_ID a) r"
      using list_all2_right [OF rs(2) ars] by (elim bexE conjE)
    with own out obtain request where "request \<in> set requests" "rpc_ID r = id_json (rq_ID request)"
        "response_to ?single ctx (client_base request) r" by blast
    with r id_json_inj show ?thesis by (metis injD)
  qed
  have "rs_ID ` set rs = rq_ID ` set requests" if "batch_size parallel (map client_base requests) = 1"
  proof -
    have "?out = produced" using one that by simp
    with rids pids have "mset (map (id_json \<circ> rs_ID) rs) = mset (map (id_json \<circ> rq_ID) requests)" by simp
    then have "id_json ` rs_ID ` set rs = id_json ` rq_ID ` set requests"
      by (metis image_comp mset_eq_setD set_map)
    then show ?thesis using id_json_inj by (simp add: inj_image_eq_iff)
  qed
  with that [OF rs(1) d n rids a] show thesis by blast
qed

text \<open>The callbacks that \<^verbatim>\<open>Batch\<close> calls for responses with different ids.\<close>

lemma batch_calls:
  assumes "CallBatch client net order1 ctx (map fst requests) = (map Some rs, None)"
    and "distinct (map rs_ID rs)" and "distinct (map (rq_ID \<circ> fst) requests)"
  obtains calls where "Batch client net order1 order2 ctx requests = Some calls" and "distinct (map fst calls)"
    and "\<And>i h e r. (i, h, e, r) \<in> set calls \<longleftrightarrow> r \<in> set rs \<and> rs_ID r = i \<and> e = None \<and>
           (\<exists>request. (request, Some h) \<in> set requests \<and> rq_ID request = i)"
    and "\<And>request h. (request, Some h) \<in> set requests \<Longrightarrow>
           rq_ID request \<in> fst ` set calls \<longleftrightarrow> rq_ID request \<in> rs_ID ` set rs"
proof -
  let ?cbs = "callbacks_from requests []"
  let ?calls = "called ?cbs None (range_in order2 (map (\<lambda>r. (rs_ID r, r)) rs))"
  have "AsMap (map Some rs) = Some (map (\<lambda>r. (rs_ID r, r)) rs)"
    using AsMap_from_distinct [of "[]" rs] assms(2) by (simp add: AsMap_def)
  then have B: "Batch client net order1 order2 ctx requests = Some ?calls"
    using assms(1) by (simp add: Batch_def)
  have d: "distinct (map fst ?calls)"
    using assms(2) unfolding called_fst by (intro distinct_filter) (simp add: comp_def)
  have c: "(i, h, e, r) \<in> set ?calls \<longleftrightarrow> r \<in> set rs \<and> rs_ID r = i \<and> e = None \<and>
      (\<exists>request. (request, Some h) \<in> set requests \<and> rq_ID request = i)" for i h e r
    by (auto simp: called_iff callback_of [OF assms(3)])
  have "rq_ID request \<in> fst ` set ?calls \<longleftrightarrow> rq_ID request \<in> rs_ID ` set rs" if "(request, Some h) \<in> set requests" for request h
  proof -
    have "map_of ?cbs (rq_ID request) = Some (Some h)" using that callback_of [OF assms(3)] by blast
    moreover have "fst ` set ?calls = {i \<in> rs_ID ` set rs. \<exists>h. map_of ?cbs i = Some (Some h)}"
      unfolding set_map [symmetric] called_fst by (auto simp: image_comp)
    ultimately show ?thesis by simp
  qed
  with that [OF B d c] show thesis by blast
qed

text \<open>
  C32: a batch against the server's goroutines. In every execution of \<^verbatim>\<open>doBatch\<close> that returns, whatever the calls find in the
  service, each callback that is called is called once, without an error, with a response of the service to its own
  request; it is called exactly when the goroutines kept that response, which holds for at least one request, and for all of
  them when one goroutine handles the batch. The ids of the requests differ and the batch is within the server's limit. (An
  execution in which \<^verbatim>\<open>ParseToken\<close> panics does not return.)
\<close>

theorem parallel_batch_callbacks:
  assumes "plain_client client net" and "errorHandler (peer_http p) = None"
    and "\<forall>r \<in> set requests. net_uuid net (uuid_String (rq_ID (fst r))) = Some (rq_ID (fst r))"
    and "distinct (map (rq_ID \<circ> fst) requests)" and "requests \<noteq> []"
    and "int (length requests) \<le> sint (srv_maxBatchSize (peer_server p))" and "0 < sint (srv_maxParallelBatch (peer_server p))"
    and "batch_reachable (interrupted (Server_doSingleBatch (peer_http p) (peer_dec p)) seen)
           (client_ctx (JArr (map (enc_request \<circ> fst) requests))) (srv_maxParallelBatch (peer_server p))
           (map (client_base \<circ> fst) requests) 0 s" and "bt_returned s"
  shows "\<exists>calls. Batch client (over_batch p st (batch_responses s) net) order1 order2 ctx requests = Some calls \<and>
    distinct (map fst calls) \<and>
    (\<forall>(i, h, err, response) \<in> set calls. err = None \<and>
       (\<exists>request answer. (request, Some h) \<in> set requests \<and> rq_ID request = i \<and>
          response_to (Server_doSingleBatch (peer_http p) (peer_dec p)) (client_ctx (JArr (map (enc_request \<circ> fst) requests)))
            (client_base request) answer \<and>
          response = client_response (peer_err p) i answer)) \<and>
    (\<forall>request h. (request, Some h) \<in> set requests \<longrightarrow>
       (rq_ID request \<in> fst ` set calls \<longleftrightarrow> rpc_ID (client_base request) \<in> rpc_ID ` set (batch_responses s))) \<and>
    (\<exists>request \<in> fst ` set requests. rpc_ID (client_base request) \<in> rpc_ID ` set (batch_responses s)) \<and>
    (batch_size (srv_maxParallelBatch (peer_server p)) (map (client_base \<circ> fst) requests) = 1 \<longrightarrow>
       (\<forall>request h. (request, Some h) \<in> set requests \<longrightarrow> rq_ID request \<in> fst ` set calls))"
proof -
  let ?rs = "map fst requests" and ?single = "Server_doSingleBatch (peer_http p) (peer_dec p)"
  let ?ctx = "client_ctx (JArr (map (enc_request \<circ> fst) requests))" and ?out = "batch_responses s"
  note pre = assms(4) [folded list.map_comp] assms(8) [folded list.map_comp]
  have some: "?rs \<noteq> []" and round: "\<forall>r \<in> set ?rs. net_uuid net (uuid_String (rq_ID r)) = Some (rq_ID r)"
    using assms(3,5) by simp_all
  obtain rs where rs: "decode_all (decode_response (net_uuid net) (op_allowUnknownFields (cl_options client)))
        (map (enc_base (peer_err p)) ?out) = Some (map Some rs)"
      "distinct (map rs_ID rs)" "rs \<noteq> []" "map rpc_ID ?out = map (id_json \<circ> rs_ID) rs"
    and own: "\<And>a. a \<in> set rs \<Longrightarrow> \<exists>request \<in> set ?rs. \<exists>r. rs_ID a = rq_ID request \<and> a = client_response (peer_err p) (rs_ID a) r \<and>
        response_to ?single (client_ctx (JArr (map enc_request ?rs))) (client_base request) r"
    and one: "batch_size (srv_maxParallelBatch (peer_server p)) (map client_base ?rs) = 1 \<Longrightarrow> rs_ID ` set rs = rq_ID ` set ?rs"
    by (rule batch_decoded [OF assms(2) pre(1) some round assms(7,9) pre(2)]) (rule that; assumption)
  have "CallBatch client (over_batch p st ?out net) order1 ctx ?rs = (map Some rs, None)"
    by (rule over_batch_answer [OF assms(1) some _ _ rs(1)]) (use rs(3,4) assms(6) in auto)
  from this rs(2) assms(4) obtain calls where B: "Batch client (over_batch p st ?out net) order1 order2 ctx requests = Some calls"
    and d: "distinct (map fst calls)"
    and called: "\<And>i h e r. (i, h, e, r) \<in> set calls \<longleftrightarrow> r \<in> set rs \<and> rs_ID r = i \<and> e = None \<and>
        (\<exists>request. (request, Some h) \<in> set requests \<and> rq_ID request = i)"
    and kept: "\<And>request h. (request, Some h) \<in> set requests \<Longrightarrow>
        rq_ID request \<in> fst ` set calls \<longleftrightarrow> rq_ID request \<in> rs_ID ` set rs"
    by (rule batch_calls [where ?order2.0 = order2]) (rule that; assumption)
  have own_call: "err = None \<and> (\<exists>request answer. (request, Some h) \<in> set requests \<and> rq_ID request = i \<and>
      response_to ?single ?ctx (client_base request) answer \<and> response = client_response (peer_err p) i answer)"
    if call: "(i, h, err, response) \<in> set calls" for i h err response
  proof -
    obtain request where r: "response \<in> set rs" "rs_ID response = i" "err = None"
        and req: "(request, Some h) \<in> set requests" "rq_ID request = i"
      using iffD1 [OF called call] by (elim conjE exE)
    obtain request' answer where req': "request' \<in> set ?rs" "rs_ID response = rq_ID request'"
        "response = client_response (peer_err p) (rs_ID response) answer"
        "response_to ?single (client_ctx (JArr (map enc_request ?rs))) (client_base request') answer"
      using own [OF r(1)] by (elim bexE exE conjE)
    have "request' = request"
      using req req'(1,2) r(2) pre(1) by (force simp: distinct_map inj_on_def)
    with req req' r show ?thesis by (auto intro!: exI [of _ request] exI [of _ answer])
  qed
  have ids: "rpc_ID (client_base request) \<in> rpc_ID ` set ?out \<longleftrightarrow> rq_ID request \<in> rs_ID ` set rs" for request
  proof -
    have "rpc_ID ` set ?out = id_json ` rs_ID ` set rs" using arg_cong [OF rs(4), of set] by (simp add: image_comp)
    then show ?thesis using id_json_inj by (simp add: inj_image_mem_iff)
  qed
  have some_kept: "\<exists>request \<in> fst ` set requests. rpc_ID (client_base request) \<in> rpc_ID ` set ?out"
  proof -
    obtain a where a: "a \<in> set rs" using rs(3) by (cases rs) auto
    obtain request where "request \<in> fst ` set requests" "rs_ID a = rq_ID request"
      using own [OF a] unfolding set_map by (elim bexE exE conjE)
    moreover from this(2) a have "rq_ID request \<in> rs_ID ` set rs" by (metis imageI)
    ultimately show ?thesis unfolding ids by - (rule bexI)
  qed
  have all: "rq_ID request \<in> fst ` set calls"
    if "batch_size (srv_maxParallelBatch (peer_server p)) (map (client_base \<circ> fst) requests) = 1" "(request, Some h) \<in> set requests"
    for request h
    using one [OF that(1) [folded list.map_comp]] kept [OF that(2)] that(2) by force
  show ?thesis
    by (rule exI [of _ calls]) (use B d own_call kept ids some_kept all in auto)
qed

section \<open>Instance\<close>

text \<open>Two requests with callbacks; the goroutines race, and only the second one's callback is called.\<close>

definition ex_both :: "(RequestRPC \<times> string option) list" where
  "ex_both = [(NewRequestWithID 7 ''serversettings.healthcheck'' [], Some ''first''),
     (NewRequestWithID 8 ''serversettings.healthcheck'' [], Some ''second'')]"

lemma interrupted_racing_reachable:
  assumes "rpc_ID r1 \<noteq> None" and "rpc_ID r2 \<noteq> None" and "2 \<le> sint parallel"
  obtains s r where "batch_reachable (interrupted (Server_doSingleBatch http dec) seen) ctx parallel [r1, r2] 0 s" and "bt_returned s"
    and "batch_responses s = [r]" and "rpc_ID r = rpc_ID r2"
proof -
  let ?single = "interrupted (Server_doSingleBatch http dec) seen"
  obtain a where a: "?single ctx r1 0 = (Some a, 1)" "rpc_ID a = rpc_ID r1"
    using doSingleBatch_answered(2) [OF assms(1), of http dec ctx "seen 0"] unfolding answered_def by (auto simp: interrupted_def)
  obtain b where b: "?single ctx r2 1 = (Some b, 2)" "rpc_ID b = rpc_ID r2"
    using doSingleBatch_answered(2) [OF assms(2), of http dec ctx "seen 1"] unfolding answered_def by (auto simp: interrupted_def)
  have app: "to_append r1 (Some a) = [a]" "to_append r2 (Some b) = [b]"
    using assms(1,2) a(2) b(2) by (simp_all add: to_append_def responses_append_def)
  have two: "batch_size parallel [r1, r2] = 2" by (rule batch_size_two [OF assms(3)])
  show thesis
  proof (rule that [where r = b])
    show "batch_reachable ?single ctx parallel [r1, r2] 0
        \<lparr>bt_unsent = [], bt_chan = [], bt_closed = True, bt_workers = [Exited, Exited], bt_array = [Some b, None], bt_len = 1,
         bt_returned = True, bt_state = 2, bt_log = [r1, r2], bt_produced = [a, b]\<rparr>"
      using racing_exec [where single = ?single and ctx = ctx, OF a(1) b(1) app two]
      unfolding batch_exec_run batch_reachable_def reachable_def two by blast
  qed (simp_all add: batch_responses_def b)
qed

lemma distinct_single: "distinct xs \<Longrightarrow> set xs = {x} \<Longrightarrow> xs = [x]"
  by (cases xs rule: remdups_adj.cases) auto

lemma ex_both_facts:
  "\<forall>r \<in> set ex_both. net_uuid ex_net (uuid_String (rq_ID (fst r))) = Some (rq_ID (fst r))"
  "distinct (map (rq_ID \<circ> fst) ex_both)" "ex_both \<noteq> []" "length ex_both = 2"
  "map (client_base \<circ> fst) ex_both = [client_base (fst (ex_both ! 0)), client_base (fst (ex_both ! 1))]"
  by (simp_all add: ex_both_def NewRequestWithID_def ex_net_def)

theorem parallel_batch_callbacks_witness:
  "\<exists>s calls. batch_reachable (interrupted (Server_doSingleBatch (peer_http ex_peer) (peer_dec ex_peer)) (\<lambda>k. ()))
       (client_ctx (JArr (map (enc_request \<circ> fst) ex_both))) 10 (map (client_base \<circ> fst) ex_both) 0 s \<and>
     Batch (cj_rpc (fst ex_client)) (over_batch ex_peer () (batch_responses s) ex_net) insertion_order reversed_order (\<lambda>k. None)
       ex_both = Some calls \<and> map fst calls = [8]"
proof -
  have p: "errorHandler (peer_http ex_peer) = None" "srv_maxBatchSize (peer_server ex_peer) = 100"
      "srv_maxParallelBatch (peer_server ex_peer) = 10"
    by (simp_all add: ex_peer_def ex_http_def NewServerSettings_http_def new_Server_def defaultMaxBatchSize_def
        defaultMaxParallelBatch_def)
  have n: "int (length ex_both) \<le> sint (srv_maxBatchSize (peer_server ex_peer))"
      "0 < sint (srv_maxParallelBatch (peer_server ex_peer))" "2 \<le> sint (srv_maxParallelBatch (peer_server ex_peer))"
    by (simp_all add: p ex_both_facts(4))
  have "rpc_ID (client_base (fst (ex_both ! 0))) \<noteq> None" "rpc_ID (client_base (fst (ex_both ! 1))) \<noteq> None"
    by (simp_all add: id_json_def)
  then obtain s r where s: "batch_reachable (interrupted (Server_doSingleBatch (peer_http ex_peer) (peer_dec ex_peer)) (\<lambda>k. ()))
       (client_ctx (JArr (map (enc_request \<circ> fst) ex_both))) (srv_maxParallelBatch (peer_server ex_peer))
       (map (client_base \<circ> fst) ex_both) 0 s" "bt_returned s"
      and r: "batch_responses s = [r]" "rpc_ID r = rpc_ID (client_base (fst (ex_both ! 1)))"
    unfolding ex_both_facts(5) using interrupted_racing_reachable [OF _ _ n(3)] by metis
  obtain calls where calls: "Batch (cj_rpc (fst ex_client)) (over_batch ex_peer () (batch_responses s) ex_net) insertion_order
        reversed_order (\<lambda>k. None) ex_both = Some calls" "distinct (map fst calls)"
    and own: "\<forall>(i, h, err, response) \<in> set calls. err = None \<and>
       (\<exists>request answer. (request, Some h) \<in> set ex_both \<and> rq_ID request = i \<and>
          response_to (Server_doSingleBatch (peer_http ex_peer) (peer_dec ex_peer))
            (client_ctx (JArr (map (enc_request \<circ> fst) ex_both))) (client_base request) answer \<and>
          response = client_response (peer_err ex_peer) i answer)"
    and kept: "\<forall>request h. (request, Some h) \<in> set ex_both \<longrightarrow>
       (rq_ID request \<in> fst ` set calls \<longleftrightarrow> rpc_ID (client_base request) \<in> rpc_ID ` set (batch_responses s))"
    using parallel_batch_callbacks [OF ex_plain_client p(1) ex_both_facts(1-3) n(1,2) s, of "()" insertion_order reversed_order
        "\<lambda>k. None"] by (elim exE conjE)
  have "fst ` set calls \<subseteq> {7, 8}"
    using own by (auto simp: ex_both_def NewRequestWithID_def)
  moreover have "7 \<notin> fst ` set calls" "8 \<in> fst ` set calls"
    using kept [rule_format, of "fst (ex_both ! 0)" "''first''"] kept [rule_format, of "fst (ex_both ! 1)" "''second''"] r
    by (simp_all add: ex_both_def NewRequestWithID_def inj_eq [OF id_json_inj])
  ultimately have "set (map fst calls) = {8}" by auto
  from distinct_single [OF calls(2) this] calls(1) s(1) p(3) show ?thesis by metis
qed

end
