(* ===== verification/ClientFallback.thy ===== *)
theory ClientFallback
  imports ClientServer
begin

text \<open>
  The circuit breaker and the cache behind the methods of the generated client
  (\<^verbatim>\<open>proceedResponse\<close> of \<^verbatim>\<open>pkg/clients/udpGameServer/jsonrpc.go\<close>).
\<close>

section \<open>The breaker and the cache\<close>

lemma Execute_open_fallback:
  assumes "snd (fst (beforeRequest now cb)) = Some ErrOpenState"
  shows "fst (Execute now req later [IsSuccessful success, Fallback (\<lambda>err. Some (f err))] cb) =
    (case f (Some ErrOpenState) of None \<Rightarrow> Some None | Some _ \<Rightarrow> Some (Some ErrOpenState))"
  using assms
  by (simp add: Execute_def prepareOpts_def IsSuccessful_def Fallback_def case_prod_unfold Let_def split: option.splits)

lemma proceedResponse_open:
  assumes "snd (fst (beforeRequest now (cs_breaker st))) = Some ErrOpenState"
  shows "\<exists>cb. proceedResponse cli bad half now later httpErr key check rpcResponse dec zero st =
    (case Option.bind (usable_cache cli key) (\<lambda>c. case GetTTL c (cache_key key) (cs_cache st) zero of Inl _ \<Rightarrow> None | Inr v \<Rightarrow> Some v) of
       None \<Rightarrow> (Some (Some ErrOpenState), zero, st\<lparr>cs_breaker := cb\<rparr>)
     | Some v \<Rightarrow> (Some None, v, st\<lparr>cs_breaker := cb\<rparr>))"
  using assms
  by (auto simp: proceedResponse_def decode_request_def cache_fallback_def case_prod_unfold Let_def Execute_open_fallback
      split: option.splits sum.splits)

text \<open>
  C34: an open breaker does not stop a call. The request is made before the breaker is asked, and
  the breaker only decides what becomes of the answer: the caller gets the cached response or
  "circuit breaker is open" whatever the server did with the request.
\<close>

theorem open_breaker_discards_answer:
  assumes "snd (fst (beforeRequest (env_now env) (cs_breaker cst))) = Some ErrOpenState"
  shows "\<exists>cb. call_method cli env method params key check dec zero cst =
    (Some (case Option.bind (usable_cache cli key)
             (\<lambda>c. case GetTTL c (cache_key key) (cs_cache cst) zero of Inl _ \<Rightarrow> None | Inr v \<Rightarrow> Some v) of
             None \<Rightarrow> Inl ErrOpenState | Some v \<Rightarrow> Inr v),
     cst\<lparr>cs_breaker := cb,
         cs_sent := cs_sent cst @ [NewRequestWithID (env_newID env) method [GoValue Struct params]]\<rparr>)"
proof -
  let ?cst = "cst\<lparr>cs_sent := cs_sent cst @ [NewRequestWithID (env_newID env) method [GoValue Struct params]]\<rparr>"
  let ?call = "Call (cj_rpc cli) (env_net env) (env_custom env) (env_ctx env) (env_newID env) method [GoValue Struct params]"
  let ?hit = "Option.bind (usable_cache cli key)
    (\<lambda>c. case GetTTL c (cache_key key) (cs_cache cst) zero of Inl _ \<Rightarrow> None | Inr v \<Rightarrow> Some v)"
  have "snd (fst (beforeRequest (env_now env) (cs_breaker ?cst))) = Some ErrOpenState"
    using assms by simp
  then obtain cb where "proceedResponse cli (env_bad env) (env_half env) (env_now env) (env_later env)
      (response_error cli env (fst ?call) (snd ?call)) key (map_option check (cj_fallback cli)) (fst ?call) dec zero ?cst =
      (case ?hit of None \<Rightarrow> (Some (Some ErrOpenState), zero, ?cst\<lparr>cs_breaker := cb\<rparr>) | Some v \<Rightarrow> (Some None, v, ?cst\<lparr>cs_breaker := cb\<rparr>))"
    using proceedResponse_open [of "env_now env" ?cst cli] by fastforce
  then show ?thesis
    by (intro exI [of _ cb]) (simp add: call_method_def case_prod_unfold Let_def split: option.splits)
qed

definition ex_cache :: "(string \<times> method_response option) list cache_ops" where
  "ex_cache = \<lparr>SetTTL = (\<lambda>k v ttl content. AList.update k v content),
     GetTTL = (\<lambda>k content old. case map_of content k of
        None \<Rightarrow> Inl ''missing'' | Some None \<Rightarrow> Inr old | Some (Some v) \<Rightarrow> Inr v)\<rparr>"

definition open_breaker :: CircuitBreaker where
  "open_breaker = (NewCircuitBreaker 5 ''breaker'' zero_cb_Settings)\<lparr>cb_state := StateOpen, expiry := 100\<rparr>"

abbreviation "ex_cached_client \<equiv> new_Client ''bad'' 5 ''http://localhost:8081'' [Cache ex_cache] [(''3'', Some (RespExists True))]"

lemma open_breaker_rejects: "snd (fst (beforeRequest 10 open_breaker)) = Some ErrOpenState"
  by (simp add: beforeRequest_def currentState_def open_breaker_def Before_def Let_def)

lemma key_text: "cache_key 3 = ''3''"
  by code_simp

theorem open_breaker_discards_answer_witness:
  "\<exists>st. client_HealthCheck (fst ex_cached_client) ex_env 3 ''alice'' (snd ex_cached_client\<lparr>cs_breaker := open_breaker\<rparr>) =
     (Some (Inr (RespExists True)), st) \<and> length (cs_sent st) = 1"
proof -
  have "snd (fst (beforeRequest (env_now ex_env) (cs_breaker (snd ex_cached_client\<lparr>cs_breaker := open_breaker\<rparr>)))) =
      Some ErrOpenState"
    by (simp add: ex_env_def open_breaker_rejects)
  from open_breaker_discards_answer [OF this, of "fst ex_cached_client" "''serversettings.healthcheck''" "enc_token ''alice''" 3
      fb_HealthCheck dec_exists "RespExists False"]
  show ?thesis
    by (auto simp: client_HealthCheck_def new_Client_def Let_def usable_cache_def Cache_def ex_cache_def key_text)
qed

text \<open>
  The cache stands in for the server. After a call that succeeded, a call with the same cache
  key that fails, or that an open breaker refuses, returns the response of the first call
  without an error: when no fallback checks are set, and as long as the cache gives back what
  was stored last under a key.
\<close>

theorem cached_response_after_failure:
  assumes "cj_cache cli = Some c" and "key \<noteq> 0"
    and law: "\<And>k v ttl content old. GetTTL c k (SetTTL c k (Some v) ttl content) old = Inr v"
    and "admits now (cs_breaker cst)" and "rs_Result r = Some js" and "js \<noteq> JNull" and "dec js zero = Some v"
    and first: "proceedResponse cli bad half now later None key None (Some r) dec zero cst = (res, response, cst1)"
    and "snd (fst (beforeRequest now' (cs_breaker cst1))) \<in> {None, Some ErrOpenState}"
    and second: "proceedResponse cli bad half now' later' (Some e) key None rpcResponse dec zero cst1 = (res', response', cst2)"
  shows "res = Some None \<and> response = v \<and> res' = Some None \<and> response' = v"
proof -
  have u: "usable_cache cli key = Some c" using assms(1,2) by (simp add: usable_cache_def)
  have 1: "res = Some None" "response = v" "cs_cache cst1 = SetTTL c (cache_key key) (Some v) (cj_fallbackTTL cli) (cs_cache cst)"
    using first assms(4-7) u
    by (auto simp: proceedResponse_def decode_request_def GetObject_def case_prod_unfold Let_def success_check_def admits_def
        Execute_def prepareOpts_def IsSuccessful_def Fallback_def)
  have "res' = Some None" "response' = v"
    using second assms(9) u 1(3)
    by (auto simp: proceedResponse_def decode_request_def case_prod_unfold Let_def success_check_def cache_fallback_def law
        Execute_def prepareOpts_def IsSuccessful_def Fallback_def)
  with 1 show ?thesis by simp
qed

lemma afterRequest_success_closed:
  "cb_state cb = StateClosed \<Longrightarrow> cb_state (afterRequest g True now cb) = StateClosed"
  by (simp add: afterRequest_def currentState_def onSuccess_def Let_def)

lemma beforeRequest_closed: "cb_state cb = StateClosed \<Longrightarrow> cb_state (snd (beforeRequest now cb)) = StateClosed"
  by (simp add: beforeRequest_def currentState_def Let_def)

text \<open>A success leaves a closed breaker closed.\<close>

lemma proceedResponse_closed:
  assumes "cb_state (cs_breaker st) = StateClosed" and "rs_Result r = Some js" and "js \<noteq> JNull" and "dec js zero = Some v"
  shows "cb_state (cs_breaker (snd (snd (proceedResponse cli bad half now later None key None (Some r) dec zero st)))) = StateClosed"
  using assms closed_admits [OF assms(1), of now]
  by (simp add: proceedResponse_def decode_request_def GetObject_def case_prod_unfold Let_def success_check_def admits_def
      Execute_def prepareOpts_def IsSuccessful_def Fallback_def afterRequest_success_closed beforeRequest_closed)

theorem cached_response_after_failure_witness:
  "\<exists>cst1 cst2. proceedResponse (fst ex_cached_client) ''bad'' (\<lambda>v r. r) 10 11 None 7 None
       (Some \<lparr>rs_ID = 7, rs_JSONRPC = ''2.0'', rs_Error = None, rs_Result = Some (JObj [(''exists'', JBool True)])\<rparr>)
       dec_exists (RespExists False) (snd ex_cached_client) = (Some None, RespExists True, cst1) \<and>
     proceedResponse (fst ex_cached_client) ''bad'' (\<lambda>v r. r) 12 13 (Some (AppError ''refused'')) 7 None None
       dec_exists (RespExists False) cst1 = (Some None, RespExists True, cst2)"
proof -
  let ?cli = "fst ex_cached_client"
  let ?r = "\<lparr>rs_ID = 7, rs_JSONRPC = ''2.0'', rs_Error = None, rs_Result = Some (JObj [(''exists'', JBool True)])\<rparr>"
  obtain res response cst1 where 1: "proceedResponse ?cli ''bad'' (\<lambda>v r. r) 10 11 None 7 None (Some ?r) dec_exists (RespExists False)
      (snd ex_cached_client) = (res, response, cst1)" by (metis prod_cases3)
  obtain res' response' cst2 where 2: "proceedResponse ?cli ''bad'' (\<lambda>v r. r) 12 13 (Some (AppError ''refused'')) 7 None None dec_exists
      (RespExists False) cst1 = (res', response', cst2)" by (metis prod_cases3)
  have cb: "cb_state (cs_breaker (snd ex_cached_client)) = StateClosed"
    by (simp add: new_Client_def Let_def new_breaker_closed)
  have "cb_state (cs_breaker cst1) = StateClosed"
    using arg_cong [OF 1, of "\<lambda>x. cb_state (cs_breaker (snd (snd x)))"]
    by (simp add: proceedResponse_closed [OF cb] dec_exists_def field_names)
  then have "snd (fst (beforeRequest 12 (cs_breaker cst1))) \<in> {None, Some ErrOpenState}"
    using closed_admits by (simp add: admits_def)
  then have "res = Some None \<and> response = RespExists True \<and> res' = Some None \<and> response' = RespExists True"
    by (intro cached_response_after_failure [where cli = ?cli and c = ex_cache and js = "JObj [(''exists'', JBool True)]",
          OF _ _ _ closed_admits [OF cb] _ _ _ 1 _ 2])
      (simp_all add: new_Client_def Let_def Cache_def ex_cache_def dec_exists_def field_names)
  with 1 2 show ?thesis by blast
qed

lemma fallback_check_never_caches:
  "cj_fallback cli = Some f \<Longrightarrow> cs_cache (snd (call_method cli env method params key check dec zero cst)) = cs_cache cst"
  by (simp add: call_method_def proceedResponse_def case_prod_unfold Let_def split: option.splits)

end
