(* ===== verification/Hasher.thy ===== *)
theory Hasher
  imports GoPrelude
begin

unbundle bit_operations_syntax

text \<open>
  The structural hash of \<^verbatim>\<open>pkg/clients/udpGameServer/hasher\<close> that gives the client its cache keys: the
  options, the walk over a value, and how the hashes of parts are combined. A value is what
  \<^verbatim>\<open>reflect\<close> shows of it (\<open>gval\<close>). Methods that a user's type may have are part of the value: they
  are given by their results.
\<close>

section \<open>FNV-1\<close>

text \<open>\<^verbatim>\<open>hash/fnv\<close>, 64 bits: multiply, then XOR the byte. The walker resets the hash before every use.\<close>

type_synonym byte = "8 word"

definition offset64 :: uint64 where "offset64 = 0xcbf29ce484222325"
definition prime64 :: uint64 where "prime64 = 0x100000001b3"

definition Sum64 :: "byte list \<Rightarrow> uint64" where
  "Sum64 bs = fold (\<lambda>b h. (h * prime64) XOR ucast b) bs offset64"

text \<open>\<^verbatim>\<open>binary.Write\<close> in little endian, \<open>n\<close> bytes.\<close>

definition le_bytes :: "nat \<Rightarrow> 'a::len word \<Rightarrow> byte list" where
  "le_bytes n w = map (\<lambda>i. ucast (drop_bit (8 * i) w)) [0..<n]"

definition string_bytes :: "string \<Rightarrow> byte list" where
  "string_bytes s = map (\<lambda>c. word_of_nat (of_char c)) s"

definition hashUpdateOrdered :: "uint64 \<Rightarrow> uint64 \<Rightarrow> uint64" where
  "hashUpdateOrdered a b = Sum64 (le_bytes 8 a @ le_bytes 8 b)"

definition hashUpdateUnordered :: "uint64 \<Rightarrow> uint64 \<Rightarrow> uint64" where
  "hashUpdateUnordered a b = a XOR b"

definition hashFinishUnordered :: "uint64 \<Rightarrow> uint64" where
  "hashFinishUnordered a = Sum64 (le_bytes 8 a)"

section \<open>Values\<close>

datatype hash_error = ErrNotStringer string | UnknownKind string | UserError string

text \<open>
  \<open>hasher\<close> is the result of a method \<^verbatim>\<open>Hash\<close>, \<open>inc\<close> that of \<^verbatim>\<open>HashInclude\<close> by field name, each for a method
  of the value and for one of its pointer; \<open>incMap\<close> is \<^verbatim>\<open>HashIncludeMap\<close> by field name and number of
  a map entry.
\<close>

record struct_methods =
  hasher :: "(hash_error + uint64) option"
  ptr_hasher :: "(hash_error + uint64) option"
  inc :: "(string \<Rightarrow> hash_error + bool) option"
  ptr_inc :: "(string \<Rightarrow> hash_error + bool) option"
  incMap :: "(string \<Rightarrow> nat \<Rightarrow> hash_error + bool) option"

text \<open>A field: unexported fields have a package path; \<open>stringer\<close> is the result of a method \<^verbatim>\<open>String\<close>.\<close>

record field_info =
  fi_Name :: string
  fi_PkgPath :: string
  fi_Tag :: string
  fi_IsZero :: bool
  fi_stringer :: "string option"

text \<open>
  Floating-point numbers are their bits. \<open>GPtr z target\<close> is a pointer whose element type has the zero
  value \<open>z\<close>; the entries of a map are numbered, in the order in which \<^verbatim>\<open>MapKeys\<close> lists them. \<open>GTime\<close>
  holds the outcome of \<^verbatim>\<open>MarshalBinary\<close>. \<open>GOther\<close> stands for channels, functions and unsafe pointers,
  \<open>GInvalid\<close> for nil. A \<open>gval\<close> is a finite tree: values that reach themselves through pointers, slices or maps, on
  which \<^verbatim>\<open>walker.visit\<close> never returns, are not among them.
\<close>

datatype gval =
    GInvalid
  | GBool bool
  | GInt "64 word" | GInt8 "8 word" | GInt16 "16 word" | GInt32 "32 word" | GInt64 "64 word"
  | GUint uint64 | GUint8 "8 word" | GUint16 "16 word" | GUint32 "32 word" | GUint64 uint64
  | GUintptr uint64
  | GFloat32 "32 word" | GFloat64 "64 word" | GComplex64 "32 word" "32 word" | GComplex128 "64 word" "64 word"
  | GString string
  | GTime "hash_error + byte list"
  | GArray "gval list"
  | GSlice "gval list"
  | GMap "(nat \<times> gval \<times> gval) list"
  | GStruct struct_methods string "(field_info \<times> gval) list"
  | GPtr gval "gval option"
  | GIface "gval option"
  | GOther string

section \<open>Options\<close>

record hash_options =
  zeroNil :: bool
  useStringer :: bool
  slicesAsSets :: bool
  ignoreZeroValue :: bool

definition hash_prepareOpts :: "(hash_options \<Rightarrow> hash_options) list \<Rightarrow> hash_options" where
  "hash_prepareOpts opts = fold (\<lambda>op ops. op ops) opts
     \<lparr>zeroNil = False, useStringer = False, slicesAsSets = False, ignoreZeroValue = False\<rparr>"

definition ZeroNil :: "hash_options \<Rightarrow> hash_options" where "ZeroNil ops = ops\<lparr>zeroNil := True\<rparr>"
definition UseStringer :: "hash_options \<Rightarrow> hash_options" where "UseStringer ops = ops\<lparr>useStringer := True\<rparr>"
definition SlicesAsSets :: "hash_options \<Rightarrow> hash_options" where "SlicesAsSets ops = ops\<lparr>slicesAsSets := True\<rparr>"
definition IgnoreZeroValue :: "hash_options \<Rightarrow> hash_options" where "IgnoreZeroValue ops = ops\<lparr>ignoreZeroValue := True\<rparr>"

section \<open>The walk\<close>

text \<open>
  The loop that looks through interfaces and pointers. \<open>t\<close> is the zero value of the type that
  stands in for nil; the result tells whether the value it ends at is addressable.
\<close>

fun strip :: "bool \<Rightarrow> gval \<Rightarrow> bool \<Rightarrow> gval \<Rightarrow> bool \<times> gval" where
  "strip zn t addr GInvalid = (False, t)"
| "strip zn t addr (GIface None) = (False, t)"
| "strip zn t addr (GIface (Some v)) = strip zn t False v"
| "strip zn t addr (GPtr z None) = (False, if zn then z else t)"
| "strip zn t addr (GPtr z (Some v)) = strip zn (if zn then z else t) True v"
| "strip zn t addr v = (addr, v)"

text \<open>What \<^verbatim>\<open>binary.Write\<close> writes for the kinds from \<^verbatim>\<open>Int\<close> to \<^verbatim>\<open>Complex64\<close>; it refuses a \<^verbatim>\<open>uintptr\<close>, and the error is ignored.\<close>

fun scalar_bytes :: "gval \<Rightarrow> byte list option" where
  "scalar_bytes (GBool b) = Some (le_bytes 1 (if b then 1 else 0 :: 8 word))"
| "scalar_bytes (GInt i) = Some (le_bytes 8 i)"
| "scalar_bytes (GInt8 i) = Some (le_bytes 1 i)"
| "scalar_bytes (GInt16 i) = Some (le_bytes 2 i)"
| "scalar_bytes (GInt32 i) = Some (le_bytes 4 i)"
| "scalar_bytes (GInt64 i) = Some (le_bytes 8 i)"
| "scalar_bytes (GUint i) = Some (le_bytes 8 i)"
| "scalar_bytes (GUint8 i) = Some (le_bytes 1 i)"
| "scalar_bytes (GUint16 i) = Some (le_bytes 2 i)"
| "scalar_bytes (GUint32 i) = Some (le_bytes 4 i)"
| "scalar_bytes (GUint64 i) = Some (le_bytes 8 i)"
| "scalar_bytes (GUintptr i) = Some []"
| "scalar_bytes (GFloat32 x) = Some (le_bytes 4 x)"
| "scalar_bytes (GFloat64 x) = Some (le_bytes 8 x)"
| "scalar_bytes (GComplex64 x y) = Some (le_bytes 4 x @ le_bytes 4 y)"
| "scalar_bytes v = None"

definition hash_string :: "string \<Rightarrow> uint64" where
  "hash_string s = Sum64 (string_bytes s)"

text \<open>\<^verbatim>\<open>visitFlagSet\<close> is \<^verbatim>\<open>iota << 1\<close> in the first line of its block.\<close>

definition visitFlagSet :: uint64 where
  "visitFlagSet = push_bit 1 0"

record visitOpts =
  vo_Flags :: uint64
  vo_incMap :: "(string \<Rightarrow> nat \<Rightarrow> hash_error + bool) option"
  vo_StructField :: string

text \<open>The value of a field after the handling of \<^verbatim>\<open>fmt.Stringer\<close>, and whether it is still the field itself.\<close>

definition field_value :: "hash_options \<Rightarrow> field_info \<Rightarrow> gval \<Rightarrow> hash_error + gval \<times> bool" where
  "field_value w fi v =
     (if fi_Tag fi = ''string'' \<or> useStringer w
      then (case fi_stringer fi of
              Some s \<Rightarrow> Inr (GString s, False)
            | None \<Rightarrow> if fi_Tag fi = ''string'' then Inl (ErrNotStringer (fi_Name fi)) else Inr (v, True))
      else Inr (v, True))"

definition field_skipped :: "hash_options \<Rightarrow> field_info \<Rightarrow> bool" where
  "field_skipped w fi \<longleftrightarrow> fi_PkgPath fi \<noteq> [] \<or> fi_Tag fi = ''ignore'' \<or> fi_Tag fi = ''-'' \<or>
     ignoreZeroValue w \<and> fi_IsZero fi"

text \<open>The flags a field's tag gives, and how its name and hash are mixed into the hash of the struct.\<close>

definition field_flags :: "field_info \<Rightarrow> uint64" where
  "field_flags fi = (if fi_Tag fi = ''set'' then 0 OR visitFlagSet else 0)"

definition field_update :: "uint64 \<Rightarrow> field_info \<Rightarrow> uint64 \<Rightarrow> uint64" where
  "field_update h fi vh =
     hashFinishUnordered (hashUpdateUnordered h (hashUpdateOrdered (hash_string (fi_Name fi)) vh))"

text \<open>The methods of a struct that count: those of its pointer only when it is addressable, and then first.\<close>

definition struct_include :: "bool \<Rightarrow> struct_methods \<Rightarrow> (string \<Rightarrow> hash_error + bool) option" where
  "struct_include addr m = (if addr \<and> ptr_inc m \<noteq> None then ptr_inc m else inc m)"

definition struct_hasher :: "bool \<Rightarrow> struct_methods \<Rightarrow> (hash_error + uint64) option" where
  "struct_hasher addr m = (if hasher m \<noteq> None then hasher m else if addr then ptr_hasher m else None)"

definition include_entry :: "visitOpts option \<Rightarrow> nat \<Rightarrow> hash_error + bool" where
  "include_entry opts n =
     (case opts of
        None \<Rightarrow> Inr True
      | Some vo \<Rightarrow> (case vo_incMap vo of None \<Rightarrow> Inr True | Some f \<Rightarrow> f (vo_StructField vo) n))"

definition slice_update :: "hash_options \<Rightarrow> visitOpts option \<Rightarrow> uint64 \<Rightarrow> uint64 \<Rightarrow> uint64" where
  "slice_update w opts h current =
     (let set = (case opts of None \<Rightarrow> False | Some vo \<Rightarrow> vo_Flags vo AND visitFlagSet \<noteq> 0)
      in if set \<or> slicesAsSets w then hashUpdateUnordered h current else hashUpdateOrdered h current)"

lemma size_strip: "size (snd (strip zn t addr v)) \<le> max (size t) (size v)"
  by (induction zn t addr v rule: strip.induct) auto

lemma size_strip_int: "(addr', v') = strip zn (GInt 0) addr v \<Longrightarrow> size v' \<le> size v"
  using size_strip [of zn "GInt 0" addr v] by (cases "strip zn (GInt 0) addr v") auto

lemma size_field_value: "field_value w fi v = Inr (innerV, own) \<Longrightarrow> size innerV \<le> size v"
  by (auto simp: field_value_def split: if_splits option.splits)

function visit :: "hash_options \<Rightarrow> bool \<Rightarrow> visitOpts option \<Rightarrow> gval \<Rightarrow> hash_error + uint64"
  and visit_flat :: "hash_options \<Rightarrow> bool \<Rightarrow> visitOpts option \<Rightarrow> gval \<Rightarrow> hash_error + uint64"
  and visit_elems :: "hash_options \<Rightarrow> bool \<Rightarrow> (uint64 \<Rightarrow> uint64 \<Rightarrow> uint64) \<Rightarrow> uint64 \<Rightarrow> gval list \<Rightarrow> hash_error + uint64"
  and visit_entries :: "hash_options \<Rightarrow> visitOpts option \<Rightarrow> uint64 \<Rightarrow> (nat \<times> gval \<times> gval) list \<Rightarrow> hash_error + uint64"
  and visit_fields :: "hash_options \<Rightarrow> bool \<Rightarrow> struct_methods \<Rightarrow> uint64 \<Rightarrow> (field_info \<times> gval) list \<Rightarrow> hash_error + uint64"
where
  "visit w addr opts v = (case strip (zeroNil w) (GInt 0) addr v of (addr', v') \<Rightarrow> visit_flat w addr' opts v')"
| "visit_flat w addr opts v =
     (case scalar_bytes v of
        Some bs \<Rightarrow> Inr (Sum64 bs)
      | None \<Rightarrow>
          (case v of
             GTime t \<Rightarrow> (case t of Inl e \<Rightarrow> Inl e | Inr bs \<Rightarrow> Inr (Sum64 bs))
           | GArray vs \<Rightarrow> visit_elems w addr hashUpdateOrdered 0 vs
           | GMap es \<Rightarrow>
               (case visit_entries w opts 0 es of Inl e \<Rightarrow> Inl e | Inr h \<Rightarrow> Inr (hashFinishUnordered h))
           | GStruct m name fs \<Rightarrow>
               (case struct_hasher addr m of
                  Some res \<Rightarrow> res
                | None \<Rightarrow> visit_fields w addr m (hash_string name) fs)
           | GSlice vs \<Rightarrow>
               (case visit_elems w True (slice_update w opts) 0 vs of
                  Inl e \<Rightarrow> Inl e | Inr h \<Rightarrow> Inr (hashFinishUnordered h))
           | GString s \<Rightarrow> Inr (hash_string s)
           | GComplex128 x y \<Rightarrow> Inl (UnknownKind ''complex128'')
           | GPtr z p \<Rightarrow> Inl (UnknownKind ''ptr'')
           | GIface p \<Rightarrow> Inl (UnknownKind ''interface'')
           | GOther k \<Rightarrow> Inl (UnknownKind k)
           | _ \<Rightarrow> Inl (UnknownKind ''invalid'')))"
| "visit_elems w addr upd h [] = Inr h"
| "visit_elems w addr upd h (v # vs) =
     (case visit w addr None v of
        Inl e \<Rightarrow> Inl e
      | Inr current \<Rightarrow> visit_elems w addr upd (upd h current) vs)"
| "visit_entries w opts h [] = Inr h"
| "visit_entries w opts h ((n, k, v) # es) =
     (case include_entry opts n of
        Inl e \<Rightarrow> Inl e
      | Inr incl \<Rightarrow>
          if \<not> incl then visit_entries w opts h es
          else (case visit w False None k of
                  Inl e \<Rightarrow> Inl e
                | Inr kh \<Rightarrow>
                    (case visit w False None v of
                       Inl e \<Rightarrow> Inl e
                     | Inr vh \<Rightarrow> visit_entries w opts (hashUpdateUnordered h (hashUpdateOrdered kh vh)) es)))"
| "visit_fields w addr m h [] = Inr h"
| "visit_fields w addr m h ((fi, v) # fs) =
     (if \<not> (addr \<or> fi_Name fi \<noteq> ''_'') then visit_fields w addr m (hashFinishUnordered h) fs
      else if field_skipped w fi then visit_fields w addr m h fs
      else
        (case field_value w fi v of
           Inl e \<Rightarrow> Inl e
         | Inr (innerV, own) \<Rightarrow>
             (case (case struct_include addr m of None \<Rightarrow> Inr True | Some f \<Rightarrow> f (fi_Name fi)) of
                Inl e \<Rightarrow> Inl e
              | Inr incl \<Rightarrow>
                  if \<not> incl then visit_fields w addr m h fs
                  else
                    (case visit w (addr \<and> own)
                       (Some \<lparr>vo_Flags = field_flags fi,
                              vo_incMap = incMap m, vo_StructField = fi_Name fi\<rparr>)
                       innerV of
                       Inl e \<Rightarrow> Inl e
                     | Inr vh \<Rightarrow>
                         visit_fields w addr m (field_update h fi vh) fs))))"
  by pat_completeness auto

termination
proof (relation "measure (\<lambda>x. case x of
    Inl (Inl (w, addr, opts, v)) \<Rightarrow> 2 * size v + 1
  | Inl (Inr (w, addr, opts, v)) \<Rightarrow> 2 * size v
  | Inr (Inl (w, addr, upd, h, vs)) \<Rightarrow> 2 * size_list size vs
  | Inr (Inr (Inl (w, opts, h, es))) \<Rightarrow> 2 * size_list (size_prod (\<lambda>_. 0) (size_prod size size)) es
  | Inr (Inr (Inr (w, addr, m, h, fs))) \<Rightarrow> 2 * size_list (size_prod (\<lambda>_. 0) size) fs)")
qed (auto dest: size_strip_int size_field_value)

declare visit.simps [simp del] visit_flat.simps [simp del] field_flags_def [simp] field_update_def [simp]

definition Hash :: "gval \<Rightarrow> (hash_options \<Rightarrow> hash_options) list \<Rightarrow> hash_error + uint64" where
  "Hash v opts = visit (hash_prepareOpts opts) False None v"

end
