(* ===== verification/HasherProps.thy ===== *)
theory HasherProps
  imports Hasher
begin

text \<open>
  Properties of the structural hash: it does not depend on the order of map entries, it exists for
  every value of the kinds it knows, and the tag for sets does nothing.
\<close>

section \<open>The order of map entries\<close>

inductive reordered :: "bool \<Rightarrow> gval \<Rightarrow> gval \<Rightarrow> bool" for sets :: bool where
  same: "reordered sets v v"
| ptr: "reordered sets v v' \<Longrightarrow> reordered sets (GPtr z (Some v)) (GPtr z (Some v'))"
| iface: "reordered sets v v' \<Longrightarrow> reordered sets (GIface (Some v)) (GIface (Some v'))"
| array: "list_all2 (reordered sets) vs vs' \<Longrightarrow> reordered sets (GArray vs) (GArray vs')"
| slice: "list_all2 (reordered sets) vs vs' \<Longrightarrow> (if sets then mset vs'' = mset vs' else vs'' = vs') \<Longrightarrow>
    reordered sets (GSlice vs) (GSlice vs'')"
| map: "list_all2 (\<lambda>a b. fst a = fst b \<and> reordered sets (fst (snd a)) (fst (snd b)) \<and> reordered sets (snd (snd a)) (snd (snd b))) es es' \<Longrightarrow>
    mset es'' = mset es' \<Longrightarrow> reordered sets (GMap es) (GMap es'')"
| struct: "list_all2 (\<lambda>a b. fst a = fst b \<and> reordered sets (snd a) (snd b)) fs fs' \<Longrightarrow>
    reordered sets (GStruct m name fs) (GStruct m name fs')"

text \<open>Two outcomes that agree on success.\<close>

definition agree :: "'e + 'a \<Rightarrow> 'e + 'a \<Rightarrow> bool" where
  "agree r r' \<longleftrightarrow> (\<forall>h. r = Inr h \<longleftrightarrow> r' = Inr h)"

lemma agree_refl [simp]: "agree r r"
  by (simp add: agree_def)

lemma agree_cases:
  assumes "agree r r'"
  obtains (ok) h where "r = Inr h" "r' = Inr h" | (failed) e e' where "r = Inl e" "r' = Inl e'"
  using assms by (cases r; cases r') (auto simp: agree_def)

lemma agree_bind: "agree r r' \<Longrightarrow> (\<And>x. agree (f x) (g x)) \<Longrightarrow>
    agree (case r of Inl e \<Rightarrow> Inl e | Inr x \<Rightarrow> f x) (case r' of Inl e \<Rightarrow> Inl e | Inr x \<Rightarrow> g x)"
  by (erule agree_cases) (simp_all add: agree_def)

definition visit_from :: "hash_options \<Rightarrow> gval \<Rightarrow> bool \<Rightarrow> visitOpts option \<Rightarrow> gval \<Rightarrow> hash_error + uint64" where
  "visit_from w t addr opts v = (case strip (zeroNil w) t addr v of (addr', v') \<Rightarrow> visit_flat w addr' opts v')"

lemma visit_eq: "visit w addr opts v = visit_from w (GInt 0) addr opts v"
  by (simp add: visit.simps visit_from_def)

definition same_hash :: "hash_options \<Rightarrow> gval \<Rightarrow> gval \<Rightarrow> bool" where
  "same_hash w v v' \<longleftrightarrow> (\<forall>t addr opts. agree (visit_from w t addr opts v) (visit_from w t addr opts v'))"

lemma same_hash_visit: "same_hash w v v' \<Longrightarrow> agree (visit w addr opts v) (visit w addr opts v')"
  by (simp add: same_hash_def visit_eq)

lemma elems_agree:
  "list_all2 (same_hash w) vs vs' \<Longrightarrow> agree (visit_elems w addr upd h vs) (visit_elems w addr upd h vs')"
  by (induction vs vs' arbitrary: h rule: list_all2_induct) (auto intro!: agree_bind same_hash_visit)

lemma entries_agree:
  "list_all2 (\<lambda>a b. fst a = fst b \<and> same_hash w (fst (snd a)) (fst (snd b)) \<and> same_hash w (snd (snd a)) (snd (snd b))) es es' \<Longrightarrow>
   agree (visit_entries w opts h es) (visit_entries w opts h es')"
proof (induction es es' arbitrary: h rule: list_all2_induct)
  case (Cons a es b es')
  then show ?case
    by (cases a; cases b) (auto intro!: agree_bind same_hash_visit)
qed simp

lemma field_value_rel:
  "(\<exists>e. field_value w fi v = Inl e \<and> field_value w fi v' = Inl e) \<or>
   (\<exists>x y own. field_value w fi v = Inr (x, own) \<and> field_value w fi v' = Inr (y, own) \<and> (x = y \<or> x = v \<and> y = v'))"
  by (cases "fi_stringer fi") (auto simp: field_value_def)

lemma fields_agree:
  "list_all2 (\<lambda>a b. fst a = fst b \<and> same_hash w (snd a) (snd b)) fs fs' \<Longrightarrow>
   agree (visit_fields w addr m h fs) (visit_fields w addr m h fs')"
proof (induction fs fs' arbitrary: h addr rule: list_all2_induct)
  case (Cons a fs b fs')
  obtain fi v v' where ab: "a = (fi, v)" "b = (fi, v')" "same_hash w v v'"
    using Cons.hyps by (cases a; cases b) auto
  have rest: "agree (visit_fields w addr m h' fs) (visit_fields w addr m h' fs')" for addr h'
    by (rule Cons.IH)
  have step: "agree (case visit w addr' opts x of Inl e \<Rightarrow> Inl e | Inr vh \<Rightarrow> visit_fields w addr m (g vh) fs)
      (case visit w addr' opts y of Inl e \<Rightarrow> Inl e | Inr vh \<Rightarrow> visit_fields w addr m (g vh) fs')"
    if "same_hash w x y" for addr addr' opts x y g
    by (rule agree_bind [OF same_hash_visit [OF that] rest])
  let ?inc = "case struct_include addr m of None \<Rightarrow> Inr True | Some f \<Rightarrow> f (fi_Name fi)"
  consider (failed) e where "field_value w fi v = Inl e" "field_value w fi v' = Inl e"
    | (found) x y own where "field_value w fi v = Inr (x, own)" "field_value w fi v' = Inr (y, own)" "same_hash w x y"
    using field_value_rel [of w fi v v'] ab(3) by (auto simp: same_hash_def)
  then show ?case
  proof cases
    case failed
    then show ?thesis using rest by (cases addr) (simp_all add: ab)
  next
    case found
    then show ?thesis using rest step by (cases addr; cases ?inc) (auto simp: ab)
  qed
qed simp


text \<open>XOR makes the order irrelevant.\<close>

lemma elems_ok:
  "visit_elems w addr upd h vs = Inr r \<longleftrightarrow>
     (\<forall>v \<in> set vs. \<exists>c. visit w addr None v = Inr c) \<and> r = fold (\<lambda>v h. upd h (projr (visit w addr None v))) vs h"
  by (induction vs arbitrary: h) (auto split: sum.splits)

definition entry_ok :: "hash_options \<Rightarrow> visitOpts option \<Rightarrow> nat \<times> gval \<times> gval \<Rightarrow> bool" where
  "entry_ok w opts e \<longleftrightarrow> (\<exists>incl. include_entry opts (fst e) = Inr incl \<and>
     (incl \<longrightarrow> (\<exists>kh vh. visit w False None (fst (snd e)) = Inr kh \<and> visit w False None (snd (snd e)) = Inr vh)))"

definition entry_step :: "hash_options \<Rightarrow> visitOpts option \<Rightarrow> nat \<times> gval \<times> gval \<Rightarrow> uint64 \<Rightarrow> uint64" where
  "entry_step w opts e h =
     (if projr (include_entry opts (fst e))
      then hashUpdateUnordered h (hashUpdateOrdered (projr (visit w False None (fst (snd e)))) (projr (visit w False None (snd (snd e)))))
      else h)"

lemma entries_ok:
  "visit_entries w opts h es = Inr r \<longleftrightarrow> (\<forall>e \<in> set es. entry_ok w opts e) \<and> r = fold (entry_step w opts) es h"
proof (induction es arbitrary: h)
  case (Cons e es)
  obtain n k v where e: "e = (n, k, v)" by (metis prod_cases3)
  show ?case unfolding e by (auto simp: entry_ok_def entry_step_def Cons.IH split: sum.splits)
qed auto

lemma elems_permuted:
  assumes "mset vs = mset vs'" and "\<And>h c d. upd (upd h c) d = upd (upd h d) c"
  shows "agree (visit_elems w addr upd h vs) (visit_elems w addr upd h vs')"
proof -
  have "fold (\<lambda>v h. upd h (projr (visit w addr None v))) vs = fold (\<lambda>v h. upd h (projr (visit w addr None v))) vs'"
    using assms by (intro fold_multiset_equiv) (auto simp: fun_eq_iff)
  then show ?thesis
    using mset_eq_setD [OF assms(1)] by (simp add: agree_def elems_ok)
qed

lemma entries_permuted:
  assumes "mset es = mset es'"
  shows "agree (visit_entries w opts h es) (visit_entries w opts h es')"
proof -
  have "fold (entry_step w opts) es = fold (entry_step w opts) es'"
    using assms by (intro fold_multiset_equiv) (auto simp: fun_eq_iff entry_step_def hashUpdateUnordered_def ac_simps)
  then show ?thesis
    using mset_eq_setD [OF assms] by (simp add: agree_def entries_ok)
qed

lemma agree_trans: "agree a b \<Longrightarrow> agree b c \<Longrightarrow> agree a c"
  by (simp add: agree_def)

lemma reordered_same_hash: "reordered (slicesAsSets w) v v' \<Longrightarrow> same_hash w v v'"
proof (induction v v' rule: reordered.induct)
  case (slice vs vs' vs'')
  have "agree (visit_elems w True (slice_update w opts) 0 vs) (visit_elems w True (slice_update w opts) 0 vs'')" for opts
  proof (rule agree_trans)
    show "agree (visit_elems w True (slice_update w opts) 0 vs) (visit_elems w True (slice_update w opts) 0 vs')"
      using slice.IH by (intro elems_agree) (auto elim: list_all2_mono)
    show "agree (visit_elems w True (slice_update w opts) 0 vs') (visit_elems w True (slice_update w opts) 0 vs'')"
      using slice.hyps by (cases "slicesAsSets w")
        (auto intro!: elems_permuted simp: slice_update_def hashUpdateUnordered_def ac_simps)
  qed
  then show ?case by (simp add: same_hash_def visit_from_def visit_flat.simps agree_bind)
next
  case (map es es' es'')
  have "agree (visit_entries w opts 0 es) (visit_entries w opts 0 es'')" for opts
  proof (rule agree_trans)
    show "agree (visit_entries w opts 0 es) (visit_entries w opts 0 es')"
      using map.IH by (intro entries_agree) (auto elim: list_all2_mono)
    show "agree (visit_entries w opts 0 es') (visit_entries w opts 0 es'')"
      by (rule entries_permuted) (simp add: map.hyps)
  qed
  then show ?case by (simp add: same_hash_def visit_from_def visit_flat.simps agree_bind)
next
  case (array vs vs')
  then have "list_all2 (same_hash w) vs vs'" by (auto elim: list_all2_mono)
  then show ?case by (simp add: same_hash_def [of w "GArray vs"] visit_from_def visit_flat.simps elems_agree)
next
  case (struct fs fs' m name)
  then have "list_all2 (\<lambda>a b. fst a = fst b \<and> same_hash w (snd a) (snd b)) fs fs'" by (auto elim: list_all2_mono)
  then show ?case
    by (simp add: same_hash_def [of w "GStruct m name fs"] visit_from_def visit_flat.simps fields_agree split: option.splits)
qed (simp_all add: same_hash_def visit_from_def)

text \<open>
  C36: the order in which Go lists the entries of a map does not change a hash, however deep the
  map lies in the value; with the option \<^verbatim>\<open>SlicesAsSets\<close> neither does the order of the elements of a
  slice. So equal requests have equal cache keys.
\<close>

theorem hash_ignores_order:
  assumes "reordered (slicesAsSets (hash_prepareOpts opts)) v v'"
  shows "Hash v opts = Inr h \<longleftrightarrow> Hash v' opts = Inr h"
  using same_hash_visit [OF reordered_same_hash [OF assms]] by (simp add: Hash_def agree_def)


definition no_methods :: struct_methods where
  "no_methods = \<lparr>hasher = None, ptr_hasher = None, inc = None, ptr_inc = None, incMap = None\<rparr>"

definition exported :: "string \<Rightarrow> field_info" where
  "exported name = \<lparr>fi_Name = name, fi_PkgPath = [], fi_Tag = [], fi_IsZero = False, fi_stringer = None\<rparr>"

theorem hash_ignores_order_witness:
  "Hash (GPtr (GMap []) (Some (GMap [(0, GString ''a'', GInt 1), (1, GString ''b'', GInt 2)]))) [] =
   Hash (GPtr (GMap []) (Some (GMap [(1, GString ''b'', GInt 2), (0, GString ''a'', GInt 1)]))) []"
proof -
  let ?es = "[(0, GString ''a'', GInt 1), (1, GString ''b'', GInt 2)]"
  have "reordered False (GPtr (GMap []) (Some (GMap ?es))) (GPtr (GMap []) (Some (GMap (rev ?es))))"
    by (intro reordered.ptr reordered.map [of _ _ ?es]) (auto intro: reordered.same)
  moreover have "\<exists>h. Hash (GPtr (GMap []) (Some (GMap ?es))) [] = Inr h"
    by (simp add: Hash_def visit.simps visit_flat.simps include_entry_def)
  ultimately show ?thesis
    using hash_ignores_order [of "[]" "GPtr (GMap []) (Some (GMap ?es))" "GPtr (GMap []) (Some (GMap (rev ?es)))"]
    by (auto simp: hash_prepareOpts_def)
qed

section \<open>Values that have a hash\<close>

definition methods_ok :: "struct_methods \<Rightarrow> bool" where
  "methods_ok m \<longleftrightarrow>
     (\<forall>r. hasher m = Some r \<or> ptr_hasher m = Some r \<longrightarrow> \<not> isl r) \<and>
     (\<forall>f s. inc m = Some f \<or> ptr_inc m = Some f \<longrightarrow> \<not> isl (f s)) \<and>
     (\<forall>f s n. incMap m = Some f \<longrightarrow> \<not> isl (f s n))"

fun plain_kind :: "gval \<Rightarrow> bool" where
  "plain_kind GInvalid = False"
| "plain_kind (GPtr z p) = False"
| "plain_kind (GIface p) = False"
| "plain_kind v = True"

fun hashable :: "bool \<Rightarrow> gval \<Rightarrow> bool" where
  "hashable zn (GComplex128 x y) = False"
| "hashable zn (GOther k) = False"
| "hashable zn (GTime t) = (\<not> isl t)"
| "hashable zn (GArray vs) = list_all (hashable zn) vs"
| "hashable zn (GSlice vs) = list_all (hashable zn) vs"
| "hashable zn (GMap es) = list_all (\<lambda>(n, k, v). hashable zn k \<and> hashable zn v) es"
| "hashable zn (GStruct m name fs) =
     (methods_ok m \<and> list_all (\<lambda>(fi, v). (fi_Tag fi = ''string'' \<longrightarrow> fi_stringer fi \<noteq> None) \<and> hashable zn v) fs)"
| "hashable zn (GPtr z p) =
     ((zn \<longrightarrow> plain_kind z \<and> hashable zn z) \<and> (case p of None \<Rightarrow> True | Some v \<Rightarrow> hashable zn v))"
| "hashable zn (GIface p) = (case p of None \<Rightarrow> True | Some v \<Rightarrow> hashable zn v)"
| "hashable zn v = True"

lemma strip_hashable:
  "hashable zn v \<Longrightarrow> hashable zn t \<Longrightarrow> plain_kind t \<Longrightarrow>
   hashable zn (snd (strip zn t addr v)) \<and> plain_kind (snd (strip zn t addr v))"
  by (induction zn t addr v rule: strip.induct) (auto split: if_splits)

definition opts_ok :: "visitOpts option \<Rightarrow> bool" where
  "opts_ok opts \<longleftrightarrow> (\<forall>vo f s n. opts = Some vo \<longrightarrow> vo_incMap vo = Some f \<longrightarrow> \<not> isl (f s n))"

lemma include_entry_ok: "opts_ok opts \<Longrightarrow> \<exists>b. include_entry opts n = Inr b"
  by (auto simp: include_entry_def opts_ok_def split: option.splits) (metis isl_def sum.exhaust)

lemma field_value_hashable:
  "field_value w fi v = Inr (x, own) \<Longrightarrow> hashable zn v \<Longrightarrow> hashable zn x"
  "fi_Tag fi = ''string'' \<longrightarrow> fi_stringer fi \<noteq> None \<Longrightarrow> \<exists>x own. field_value w fi v = Inr (x, own)"
  by (auto simp: field_value_def split: if_splits option.splits)

lemma scalar_or_composite:
  "scalar_bytes v = None \<Longrightarrow> plain_kind v \<Longrightarrow> hashable zn v \<Longrightarrow>
     (\<exists>bs. v = GTime (Inr bs)) \<or> (\<exists>s. v = GString s) \<or> (\<exists>vs. v = GArray vs) \<or> (\<exists>vs. v = GSlice vs) \<or> (\<exists>es. v = GMap es) \<or>
     (\<exists>m name fs. v = GStruct m name fs)"
  by (cases v) (auto simp: isl_def, metis sum.exhaust isl_def)


lemma methods_ok_results:
  assumes "methods_ok m"
  shows "struct_hasher addr m = Some r \<Longrightarrow> \<exists>h. r = Inr h"
    and "\<exists>b. (case struct_include addr m of None \<Rightarrow> Inr True | Some f \<Rightarrow> f s) = Inr b"
    and "opts_ok (Some \<lparr>vo_Flags = fl, vo_incMap = incMap m, vo_StructField = s'\<rparr>)"
proof -
  have *: "\<not> isl x \<Longrightarrow> \<exists>y. x = Inr y" for x :: "hash_error + 'z" by (cases x) auto
  show "struct_hasher addr m = Some r \<Longrightarrow> \<exists>h. r = Inr h"
    using assms by (intro *) (auto simp: methods_ok_def struct_hasher_def split: if_splits)
  show "\<exists>b. (case struct_include addr m of None \<Rightarrow> Inr True | Some f \<Rightarrow> f s) = Inr b"
    using assms by (intro *) (auto simp: methods_ok_def struct_include_def split: if_splits option.splits)
  show "opts_ok (Some \<lparr>vo_Flags = fl, vo_incMap = incMap m, vo_StructField = s'\<rparr>)"
    using assms by (simp add: methods_ok_def opts_ok_def)
qed

definition hashes :: "hash_options \<Rightarrow> gval \<Rightarrow> bool" where
  "hashes w v \<longleftrightarrow> (\<forall>addr opts. opts_ok opts \<longrightarrow> (\<exists>h. visit w addr opts v = Inr h))"

lemma hashesD: "hashes w v \<Longrightarrow> opts_ok opts \<Longrightarrow> \<exists>h. visit w addr opts v = Inr h"
  by (simp add: hashes_def)

lemma hashes_None: "hashes w v \<Longrightarrow> \<exists>h. visit w addr None v = Inr h"
  by (simp add: hashes_def opts_ok_def)

lemma hashes_field:
  "hashes w v \<Longrightarrow> field_value w fi v = Inr (x, own) \<Longrightarrow> hashes w x"
  by (auto simp: hashes_def field_value_def visit.simps visit_flat.simps split: if_splits option.splits)

lemma entries_total:
  assumes "opts_ok opts" and "\<forall>(n, k, v) \<in> set es. hashes w k \<and> hashes w v"
  shows "\<exists>h'. visit_entries w opts h es = Inr h'"
  unfolding entries_ok using assms(2) include_entry_ok [OF assms(1)] hashes_None
  by (auto simp: entry_ok_def)

lemma fields_total:
  assumes "methods_ok m"
    and "\<forall>(fi, v) \<in> set fs. (fi_Tag fi = ''string'' \<longrightarrow> fi_stringer fi \<noteq> None) \<and> hashes w v"
  shows "\<exists>h'. visit_fields w addr m h fs = Inr h'"
  using assms(2)
proof (induction fs arbitrary: h addr)
  case (Cons f fs)
  obtain fi v where f: "f = (fi, v)" by force
  then have v: "fi_Tag fi = ''string'' \<longrightarrow> fi_stringer fi \<noteq> None" "hashes w v"
    and rest: "\<exists>h'. visit_fields w a m g fs = Inr h'" for a g
    using Cons by auto
  obtain x own where fv: "field_value w fi v = Inr (x, own)" using field_value_hashable(2) [OF v(1)] by blast
  obtain vh where vh: "visit w (addr \<and> own) (Some \<lparr>vo_Flags = field_flags fi,
      vo_incMap = incMap m, vo_StructField = fi_Name fi\<rparr>) x = Inr vh"
    using hashesD [OF hashes_field [OF v(2) fv] methods_ok_results(3) [OF assms(1)]] by blast
  obtain b where "(case struct_include addr m of None \<Rightarrow> Inr True | Some f \<Rightarrow> f (fi_Name fi)) = Inr b"
    using methods_ok_results(2) [OF assms(1)] by blast
  then show ?case
    unfolding f visit_fields.simps fv sum.case prod.case vh using rest by (simp only: sum.case simp_thms split: if_split)
qed simp

lemma size_elem: "x \<in> set xs \<Longrightarrow> f x \<le> size_list f xs"
  by (induction xs) auto

lemma flat_total:
  assumes u: "hashable (zeroNil w) u" "plain_kind u" and o: "opts_ok opts"
    and sub: "\<And>x. hashable (zeroNil w) x \<Longrightarrow> size x < size u \<Longrightarrow> hashes w x"
  shows "\<exists>h. visit_flat w addr opts u = Inr h"
proof (cases "scalar_bytes u")
  case None
  from scalar_or_composite [OF this u(2,1)] consider
      (leaf) "(\<exists>bs. u = GTime (Inr bs)) \<or> (\<exists>s. u = GString s)"
    | (elems) vs where "u = GArray vs \<or> u = GSlice vs"
    | (entries) es where "u = GMap es"
    | (fields) m name fs where "u = GStruct m name fs" by blast
  then show ?thesis
  proof cases
    case leaf
    then show ?thesis by (auto simp: visit_flat.simps)
  next
    case elems
    then have "\<forall>x \<in> set vs. hashes w x"
      using u(1) size_elem [of _ vs size] by (auto simp: list_all_iff intro!: sub) (metis le_imp_less_Suc)+
    then have "\<exists>h'. visit_elems w a upd h vs = Inr h'" for a upd h
      unfolding elems_ok using hashes_None by blast
    then show ?thesis using elems by (auto simp: visit_flat.simps split: sum.splits) (metis Inr_not_Inl)+
  next
    case entries
    then have "\<forall>(n, k, v) \<in> set es. hashes w k \<and> hashes w v"
      using u(1) size_elem [of _ es "size_prod (\<lambda>_. 0) (size_prod size size)"] by (fastforce simp: list_all_iff intro!: sub)
    from entries_total [OF o this, of 0] show ?thesis by (auto simp: entries visit_flat.simps)
  next
    case fields
    then have "\<forall>(fi, v) \<in> set fs. (fi_Tag fi = ''string'' \<longrightarrow> fi_stringer fi \<noteq> None) \<and> hashes w v" "methods_ok m"
      using u(1) size_elem [of _ fs "size_prod (\<lambda>_. 0) size"] by (fastforce simp: list_all_iff intro!: sub)+
    then show ?thesis using fields_total methods_ok_results(1) by (auto simp: fields visit_flat.simps split: option.splits)
  qed
qed (simp add: visit_flat.simps)

lemma visit_total: "hashable (zeroNil w) v \<Longrightarrow> hashes w v"
proof (induction "size v" arbitrary: v rule: less_induct)
  case less
  have "\<exists>h. visit w addr opts v = Inr h" if o: "opts_ok opts" for addr opts
  proof -
    obtain addr' u where s: "strip (zeroNil w) (GInt 0) addr v = (addr', u)" by force
    with strip_hashable [OF less.prems, of "GInt 0" addr] size_strip_int [OF s [symmetric]]
    have u: "hashable (zeroNil w) u" "plain_kind u" "size u \<le> size v" by simp_all
    have sub: "hashes w x" if "hashable (zeroNil w) x" "size x < size u" for x
      using less.hyps [of x] that u(3) by simp
    have "\<exists>h. visit_flat w addr' opts u = Inr h" by (rule flat_total [OF u(1,2) o sub])
    with s show ?thesis by (simp add: visit.simps)
  qed
  then show ?case by (simp add: hashes_def)
qed

text \<open>
  C37: when a value is hashed without an error. \<^verbatim>\<open>Hash\<close> returns a hash, with any of the options, for every value
  without cycles whose parts are of kinds it knows (no \<^verbatim>\<open>complex128\<close>, channel or function), whose fields tagged \<^verbatim>\<open>string\<close>
  have a method \<^verbatim>\<open>String\<close> and whose own methods return no error; with \<^verbatim>\<open>ZeroNil\<close> moreover a pointer must not point to
  another pointer or to an interface (for a nil pointer of that kind the walk ends at a nil pointer and reports an
  unknown kind). That the walk ends is no claim here: a \<open>gval\<close> is a finite tree, and on a value that reaches itself
  \<^verbatim>\<open>walker.visit\<close> recurses without end.
\<close>

theorem hash_total:
  assumes "hashable (zeroNil (hash_prepareOpts opts)) v"
  shows "\<exists>h. Hash v opts = Inr h"
  using hashes_None [OF visit_total [OF assms]] by (simp add: Hash_def)

section \<open>The requests of the client\<close>

text \<open>
  What the methods of the client hash (\<^verbatim>\<open>serversettings-exchange.go\<close>), and the cache key they get: an
  error leaves it 0. A UUID is an array of 16 bytes.
\<close>

definition hash_token_request :: "string \<Rightarrow> string \<Rightarrow> gval" where
  "hash_token_request name tok = GStruct no_methods name [(exported ''Token'', GString tok)]"

definition hash_CreateRoom_request :: "string \<Rightarrow> duration \<Rightarrow> gval" where
  "hash_CreateRoom_request tok ttl = GStruct no_methods ''requestServerSettingsCreateRoom''
     [(exported ''Token'', GString tok),
      (exported ''CreateRoom'', GStruct no_methods ''CreateRoomRequest'' [(exported ''RoomTTl'', GInt64 ttl)])]"

definition hash_uuid :: "128 word \<Rightarrow> gval" where
  "hash_uuid u = GArray (map (\<lambda>i. GUint8 (ucast (drop_bit (8 * (15 - i)) u))) [0..<16])"

definition hash_GetDeletedRooms_request :: "string \<Rightarrow> (128 word \<times> 128 word) list \<Rightarrow> gval" where
  "hash_GetDeletedRooms_request tok ids = GStruct no_methods ''requestServerSettingsGetDeletedRooms''
     [(exported ''Token'', GString tok),
      (exported ''Ids'', GSlice (map (\<lambda>(g, r). GStruct no_methods ''GetDeletedRooms''
         [(exported ''GameID'', hash_uuid g), (exported ''RoomID'', hash_uuid r)]) ids))]"

definition cacheKey :: "gval \<Rightarrow> uint64" where
  "cacheKey request = (case Hash request [] of Inl _ \<Rightarrow> 0 | Inr h \<Rightarrow> h)"

lemma no_methods_ok [simp]: "methods_ok no_methods"
  by (simp add: methods_ok_def no_methods_def)

theorem hash_total_witness:
  "\<exists>h. Hash (hash_GetDeletedRooms_request ''alice'' [(1, 2), (3, 4)]) [] = Inr h"
  by (rule hash_total)
    (simp add: hash_GetDeletedRooms_request_def hash_uuid_def exported_def list_all_iff)

section \<open>Sets\<close>

lemma visit_fields_suffix:
  assumes "\<And>h. visit_fields w addr m h gs = visit_fields w addr m h gs'"
  shows "visit_fields w addr m h (fs @ gs) = visit_fields w addr m h (fs @ gs')"
proof (induction fs arbitrary: h)
  case (Cons f fs)
  obtain fi v where f: "f = (fi, v)" by force
  show ?case unfolding f append_Cons visit_fields.simps Cons.IH ..
qed (simp add: assms)

definition ex_set :: "gval list \<Rightarrow> gval" where
  "ex_set vs = GStruct no_methods ''T'' [((exported ''Ids'')\<lparr>fi_Tag := ''set''\<rparr>, GSlice vs)]"

text \<open>
  C38: the tag \<^verbatim>\<open>hash:"set"\<close> has no effect. The flag it sets is zero, so a field with the tag is hashed
  like a field without a tag, and the order of its elements counts.
\<close>

theorem set_tag_has_no_effect:
  "Hash (GStruct m name (fs @ (fi\<lparr>fi_Tag := ''set''\<rparr>, v) # gs)) opts =
     Hash (GStruct m name (fs @ (fi\<lparr>fi_Tag := []\<rparr>, v) # gs)) opts \<and>
   Hash (ex_set [GInt 1, GInt 2]) [] \<noteq> Hash (ex_set [GInt 2, GInt 1]) []"
proof
  have same: "fi_Name (fi\<lparr>fi_Tag := t\<rparr>) = fi_Name fi" "field_flags f = 0" "field_update h (fi\<lparr>fi_Tag := t\<rparr>) vh = field_update h fi vh"
    "field_skipped w (fi\<lparr>fi_Tag := ''set''\<rparr>) = field_skipped w (fi\<lparr>fi_Tag := []\<rparr>)"
    "field_value w (fi\<lparr>fi_Tag := ''set''\<rparr>) v = field_value w (fi\<lparr>fi_Tag := []\<rparr>) v" for t f w h vh
    by (simp_all add: field_skipped_def field_value_def visitFlagSet_def)
  have "visit_fields w addr m h ((fi\<lparr>fi_Tag := ''set''\<rparr>, v) # gs) = visit_fields w addr m h ((fi\<lparr>fi_Tag := []\<rparr>, v) # gs)" for w addr h
    unfolding visit_fields.simps same ..
  from visit_fields_suffix [OF this]
  show "Hash (GStruct m name (fs @ (fi\<lparr>fi_Tag := ''set''\<rparr>, v) # gs)) opts =
      Hash (GStruct m name (fs @ (fi\<lparr>fi_Tag := []\<rparr>, v) # gs)) opts"
    by (simp add: Hash_def visit.simps visit_flat.simps split: option.split)
  show "Hash (ex_set [GInt 1, GInt 2]) [] \<noteq> Hash (ex_set [GInt 2, GInt 1]) []"
    by code_simp
qed

end
