(* ===== verification/Token.thy ===== *)
theory Token
  imports Service "HOL-Library.Countable"
begin

text \<open>
  The token generator \<^verbatim>\<open>github.com/ascenmmo/token-generator\<close> (in \<^verbatim>\<open>vendor/\<close>) whose \<^verbatim>\<open>ParseToken\<close> the game
  service calls: the two token types, their texts and lifetimes, and where parsing panics.
  Encryption, the JSON texts of the claims and the signing of JWTs are arguments (\<open>crypto\<close>).
\<close>

section \<open>Texts\<close>

text \<open>\<^verbatim>\<open>strings.Split(s, "$_$")\<close>.\<close>

definition token_sep :: string where
  "token_sep = ''$_$''"

fun cut_sep :: "string \<Rightarrow> (string \<times> string) option" where
  "cut_sep [] = None"
| "cut_sep (c # cs) =
     (if take 3 (c # cs) = token_sep then Some ([], drop 3 (c # cs))
      else map_option (apfst (Cons c)) (cut_sep cs))"

lemma cut_sep_length: "cut_sep s = Some (a, b) \<Longrightarrow> length b < length s"
  by (induction s arbitrary: a) (auto split: if_splits)

function Split_sep :: "string \<Rightarrow> string list" where
  "Split_sep s = (case cut_sep s of None \<Rightarrow> [s] | Some (a, b) \<Rightarrow> a # Split_sep b)"
  by pat_completeness auto

termination
  by (relation "measure length") (auto dest: cut_sep_length)

declare Split_sep.simps [simp del]

text \<open>\<^verbatim>\<open>encoding/hex\<close>: upper and lower case digits are read, lower case ones are written.\<close>

definition hex_value :: "char \<Rightarrow> nat option" where
  "hex_value c =
     (let d = (of_char c :: nat)
      in if 48 \<le> d \<and> d \<le> 57 then Some (d - 48)
         else if 97 \<le> d \<and> d \<le> 102 then Some (d - 87)
         else if 65 \<le> d \<and> d \<le> 70 then Some (d - 55)
         else None)"

fun DecodeString :: "string \<Rightarrow> bytes option" where
  "DecodeString [] = Some []"
| "DecodeString [c] = None"
| "DecodeString (c # d # s) =
     (case (hex_value c, hex_value d, DecodeString s) of
        (Some x, Some y, Some bs) \<Rightarrow> Some (char_of (16 * x + y) # bs)
      | _ \<Rightarrow> None)"

fun EncodeToString :: "bytes \<Rightarrow> string" where
  "EncodeToString [] = []"
| "EncodeToString (b # bs) =
     hex_digits ! (of_char b div 16) # hex_digits ! (of_char b mod 16) # EncodeToString bs"

section \<open>Claims\<close>

definition Hour :: duration where
  "Hour = 3600000000000"

definition SetDefaultValueIfEmpty :: "Info \<Rightarrow> Info" where
  "SetDefaultValueIfEmpty i = (if TTL i = 0 then i\<lparr>TTL := Hour\<rparr> else i)"

text \<open>\<^verbatim>\<open>Unix()\<close>: whole seconds since 1970; times count nanoseconds since the year 1. The result is an \<^verbatim>\<open>int64\<close>.\<close>

definition Unix :: "time \<Rightarrow> 64 word" where
  "Unix t = word_of_int (t div 1000000000 - 62135596800)"

record aesgmClaims =
  claims_TTL :: "64 word"
  claims_Info :: Info

text \<open>
  What the generator calls: AES-GCM with the size of its nonce, JSON for the claims, and JWTs. An error
  of \<^verbatim>\<open>aes.NewCipher\<close> or \<^verbatim>\<open>cipher.NewGCM\<close> depends on the key only. A parsed JWT has its claims and
  the field \<^verbatim>\<open>Valid\<close>.
\<close>

record crypto =
  cipher_err :: "bytes \<Rightarrow> error option"
  NonceSize :: nat
  Seal :: "bytes \<Rightarrow> bytes \<Rightarrow> bytes \<Rightarrow> bytes"
  Open :: "bytes \<Rightarrow> bytes \<Rightarrow> bytes \<Rightarrow> error + bytes"
  Marshal_claims :: "aesgmClaims \<Rightarrow> error + bytes"
  Unmarshal_claims :: "bytes \<Rightarrow> error + aesgmClaims"
  SignedString :: "bytes \<Rightarrow> 64 word \<Rightarrow> Info \<Rightarrow> error + string"
  ParseWithClaims :: "bytes \<Rightarrow> time \<Rightarrow> string \<Rightarrow> error + Info \<times> bool"
  hex_err :: "string \<Rightarrow> error"

section \<open>AES-GCM tokens\<close>

text \<open>\<^verbatim>\<open>generate\<close>; \<open>nonce\<close> is what the random source gives. \<^verbatim>\<open>Seal\<close> appends to the nonce.\<close>

definition aesgm_generate :: "crypto \<Rightarrow> bytes \<Rightarrow> error + bytes \<Rightarrow> time \<Rightarrow> Info \<Rightarrow> error + string" where
  "aesgm_generate cr key nonce now info =
     (case cipher_err cr key of
        Some err \<Rightarrow> Inl err
      | None \<Rightarrow>
          (case nonce of
             Inl err \<Rightarrow> Inl err
           | Inr n \<Rightarrow>
               (case Marshal_claims cr \<lparr>claims_TTL = Unix (now + sint (TTL info)), claims_Info = info\<rparr> of
                  Inl err \<Rightarrow> Inl err
                | Inr marshal \<Rightarrow> Inr (EncodeToString (n @ Seal cr key n marshal)))))"

text \<open>
  \<^verbatim>\<open>parse\<close>. The slices \<^verbatim>\<open>ciphertext[:nonceSize]\<close> and \<^verbatim>\<open>ciphertext[nonceSize:]\<close> panic (\<open>None\<close>) when the text is
  shorter.
\<close>

definition aesgm_parse :: "crypto \<Rightarrow> bytes \<Rightarrow> time \<Rightarrow> string \<Rightarrow> (error + Info) option" where
  "aesgm_parse cr key now tok =
     (case DecodeString tok of
        None \<Rightarrow> Some (Inl (hex_err cr tok))
      | Some ciphertext \<Rightarrow>
          (case cipher_err cr key of
             Some err \<Rightarrow> Some (Inl err)
           | None \<Rightarrow>
               if length ciphertext < NonceSize cr then None
               else
                 (case Open cr key (take (NonceSize cr) ciphertext) (drop (NonceSize cr) ciphertext) of
                    Inl err \<Rightarrow> Some (Inl err)
                  | Inr plaintext \<Rightarrow>
                      (case Unmarshal_claims cr plaintext of
                         Inl err \<Rightarrow> Some (Inl err)
                       | Inr claims \<Rightarrow>
                           if claims_TTL claims <s Unix now then Some (Inl (ErrExternal ''token expired''))
                           else Some (Inr (claims_Info claims))))))"

section \<open>JWTs\<close>

definition jwt_generate :: "crypto \<Rightarrow> bytes \<Rightarrow> time \<Rightarrow> Info \<Rightarrow> error + string" where
  "jwt_generate cr key now info = SignedString cr key (Unix (now + sint (TTL info))) info"

definition jwt_parse :: "crypto \<Rightarrow> bytes \<Rightarrow> time \<Rightarrow> string \<Rightarrow> error + Info" where
  "jwt_parse cr key now tok =
     (case ParseWithClaims cr key now tok of
        Inl err \<Rightarrow> Inl err
      | Inr (info, valid) \<Rightarrow> if valid then Inr info else Inl (ErrExternal ''invalid jwt token''))"

section \<open>Both types\<close>

definition AESGCM :: string where "AESGCM = ''a''"
definition JWT :: string where "JWT = ''j''"

definition getTokenAndType :: "string \<Rightarrow> string \<times> string" where
  "getTokenAndType tokenWithType =
     (case Split_sep tokenWithType of [tok, tokenType] \<Rightarrow> (tokenType, tok) | _ \<Rightarrow> ([], []))"

definition setTokenAndType :: "string \<Rightarrow> string \<Rightarrow> string" where
  "setTokenAndType tok tokenType = tok @ token_sep @ tokenType"

definition GenerateToken ::
    "crypto \<Rightarrow> bytes \<Rightarrow> error + bytes \<Rightarrow> time \<Rightarrow> Info \<Rightarrow> string \<Rightarrow> error + string" where
  "GenerateToken cr key nonce now info tokenType =
     (let info' = SetDefaultValueIfEmpty info;
          typed = (\<lambda>r. case r of Inl err \<Rightarrow> Inl err | Inr tok \<Rightarrow> Inr (setTokenAndType tok tokenType))
      in if tokenType = AESGCM then typed (aesgm_generate cr key nonce now info')
         else if tokenType = JWT then typed (jwt_generate cr key now info')
         else Inl (ErrExternal ''invalid token type''))"

definition ParseToken :: "crypto \<Rightarrow> bytes \<Rightarrow> time \<Rightarrow> string \<Rightarrow> (error + Info) option" where
  "ParseToken cr key now tokenWithType =
     (let (tokenType, tok) = getTokenAndType tokenWithType
      in if tokenType = AESGCM then aesgm_parse cr key now tok
         else if tokenType = JWT then Some (jwt_parse cr key now tok)
         else Some (Inl (ErrExternal ''invalid token type'')))"

definition NewTokenGenerator :: "string \<Rightarrow> error + bytes" where
  "NewTokenGenerator key =
     (if length key \<noteq> 32 then Inl (ErrExternal ''invalid key length mast be 32 bytes'') else Inr key)"

section \<open>Round trip\<close>

lemma hex_value_digit: "n < 16 \<Longrightarrow> hex_value (hex_digits ! n) = Some n"
proof -
  have "\<forall>n \<in> {..<16}. hex_value (hex_digits ! n) = Some n" by code_simp
  then show "n < 16 \<Longrightarrow> ?thesis" by blast
qed

lemma Decode_Encode: "DecodeString (EncodeToString bs) = Some bs"
proof (induction bs)
  case (Cons b bs)
  have b: "(of_char b :: nat) < 256" by simp
  then have "(of_char b :: nat) div 16 < 16" by (simp add: less_mult_imp_div_less)
  then show ?case using Cons by (simp add: hex_value_digit)
qed simp

lemma hex_value_no_dollar: "hex_value CHR ''$'' = None"
  by code_simp

lemma Decode_no_dollar: "DecodeString s = Some bs \<Longrightarrow> CHR ''$'' \<notin> set s"
  by (induction s arbitrary: bs rule: DecodeString.induct) (auto simp: hex_value_no_dollar split: option.splits)

lemma cut_sep_plain: "CHR ''$'' \<notin> set s \<Longrightarrow> cut_sep s = None"
  by (induction s) (auto simp: token_sep_def)

lemma cut_sep_first: "CHR ''$'' \<notin> set s \<Longrightarrow> cut_sep (s @ token_sep @ t) = Some (s, t)"
  by (induction s) (auto simp: token_sep_def)

lemma cut_sep_Some: "cut_sep s = Some (a, b) \<Longrightarrow> s = a @ token_sep @ b"
proof (induction s arbitrary: a)
  case (Cons c cs)
  show ?case
  proof (cases "take 3 (c # cs) = token_sep")
    case True
    with Cons.prems show ?thesis using append_take_drop_id [of 3 "c # cs"] by (simp del: take_Suc_Cons)
  next
    case False
    with Cons show ?thesis by auto
  qed
qed simp

lemma Split_typed:
  "CHR ''$'' \<notin> set tok \<Longrightarrow> CHR ''$'' \<notin> set ty \<Longrightarrow> getTokenAndType (setTokenAndType tok ty) = (ty, tok)"
  by (simp add: getTokenAndType_def setTokenAndType_def Split_sep.simps cut_sep_first cut_sep_plain)

lemma getTokenAndType_eq:
  "getTokenAndType s = (ty, tok) \<Longrightarrow> ty \<noteq> [] \<Longrightarrow> s = setTokenAndType tok ty"
  by (auto simp: getTokenAndType_def setTokenAndType_def Split_sep.simps [of s] split: list.splits option.splits
      dest!: cut_sep_Some) (auto simp: Split_sep.simps split: option.splits list.splits)

text \<open>
  What the libraries document: \<^verbatim>\<open>Open\<close> undoes \<^verbatim>\<open>Seal\<close> under the same usable key and a nonce of the right size,
  and JSON gives the claims back.
\<close>

definition codec_ok :: "crypto \<Rightarrow> bool" where
  "codec_ok cr \<longleftrightarrow>
     (\<forall>k n p. cipher_err cr k = None \<longrightarrow> length n = NonceSize cr \<longrightarrow> Open cr k n (Seal cr k n p) = Inr p) \<and>
     (\<forall>c. \<exists>b. Marshal_claims cr c = Inr b \<and> Unmarshal_claims cr b = Inr c)"

lemma generated_token:
  assumes "codec_ok cr" and "cipher_err cr key = None" and "length nonce = NonceSize cr"
  obtains tok where "GenerateToken cr key (Inr nonce) now info AESGCM = Inr tok"
    and "\<And>t. ParseToken cr key t tok =
       Some (if Unix t \<le>s Unix (now + sint (TTL (SetDefaultValueIfEmpty info))) then Inr (SetDefaultValueIfEmpty info)
             else Inl (ErrExternal ''token expired''))"
proof -
  let ?i = "SetDefaultValueIfEmpty info"
  let ?c = "\<lparr>claims_TTL = Unix (now + sint (TTL ?i)), claims_Info = ?i\<rparr>"
  obtain b where b: "Marshal_claims cr ?c = Inr b" "Unmarshal_claims cr b = Inr ?c"
    using assms(1) unfolding codec_ok_def by blast
  let ?bs = "nonce @ Seal cr key nonce b"
  have gen: "GenerateToken cr key (Inr nonce) now info AESGCM = Inr (setTokenAndType (EncodeToString ?bs) AESGCM)"
    using assms b by (simp add: GenerateToken_def aesgm_generate_def AESGCM_def Let_def)
  have "getTokenAndType (setTokenAndType (EncodeToString ?bs) AESGCM) = (AESGCM, EncodeToString ?bs)"
    using Decode_no_dollar [OF Decode_Encode [of ?bs]] by (intro Split_typed) (simp_all add: AESGCM_def)
  then have "ParseToken cr key t (setTokenAndType (EncodeToString ?bs) AESGCM) =
      Some (if Unix t \<le>s Unix (now + sint (TTL ?i)) then Inr ?i else Inl (ErrExternal ''token expired''))" for t
    using assms b by (simp add: ParseToken_def aesgm_parse_def Decode_Encode codec_ok_def word_sless_alt word_sle_eq not_le)
  with gen show thesis by (rule that)
qed

text \<open>
  C17: a token comes back. A token of type \<^verbatim>\<open>a\<close> that was generated for a client is parsed, at any later time, to the
  information of that client (with a lifetime of one hour if none was given) as long as the second of
  its end has not passed, and is refused as expired afterwards; parsing it never panics.
\<close>

theorem token_roundtrip:
  assumes "codec_ok cr" and "cipher_err cr key = None" and "length nonce = NonceSize cr"
  shows "\<exists>tok. GenerateToken cr key (Inr nonce) now info AESGCM = Inr tok \<and>
    (\<forall>t. ParseToken cr key t tok =
       Some (if Unix t \<le>s Unix (now + sint (TTL (SetDefaultValueIfEmpty info))) then Inr (SetDefaultValueIfEmpty info)
             else Inl (ErrExternal ''token expired'')))"
  using generated_token [OF assms, of now info] by blast

text \<open>An instance: a cipher that writes the key in front, and claims numbered by one natural number.\<close>

definition claims_number :: "aesgmClaims \<Rightarrow> nat" where
  "claims_number c =
     (let i = claims_Info c
      in prod_encode (unat (claims_TTL c),
           prod_encode (prod_encode (unat (GameID i), unat (RoomID i)), prod_encode (unat (UserID i), unat (TTL i)))))"

definition number_claims :: "nat \<Rightarrow> aesgmClaims" where
  "number_claims n =
     (let (e, m) = prod_decode n; (gr, ut) = prod_decode m; (g, r) = prod_decode gr; (u, t) = prod_decode ut
      in \<lparr>claims_TTL = of_nat e,
          claims_Info = \<lparr>GameID = of_nat g, RoomID = of_nat r, UserID = of_nat u, TTL = of_nat t\<rparr>\<rparr>)"

definition sample_crypto :: crypto where
  "sample_crypto =
     \<lparr>cipher_err = (\<lambda>k. if length k = 32 then None else Some (ErrExternal ''invalid key size'')), NonceSize = 12,
      Seal = (\<lambda>k n p. k @ p),
      Open = (\<lambda>k n c. if take (length k) c = k then Inr (drop (length k) c) else Inl (ErrExternal ''authentication failed'')),
      Marshal_claims = (\<lambda>c. Inr (Itoa (claims_number c))), Unmarshal_claims = (\<lambda>b. Inr (number_claims (Atoi b))),
      SignedString = (\<lambda>k e i. Inl (ErrExternal ''unused'')), ParseWithClaims = (\<lambda>k t s. Inl (ErrExternal ''unused'')),
      hex_err = (\<lambda>s. ErrExternal ''invalid byte'')\<rparr>"

lemma number_claims_number: "number_claims (claims_number c) = c"
  by (simp add: number_claims_def claims_number_def Let_def)

lemma sample_codec_ok: "codec_ok sample_crypto"
  by (simp add: codec_ok_def sample_crypto_def number_claims_number Atoi_Itoa del: Atoi.simps)

definition sample_key :: bytes where
  "sample_key = replicate 32 CHR ''k''"

lemma sample_key_ok: "cipher_err sample_crypto sample_key = None" "NonceSize sample_crypto = 12"
  by (simp_all add: sample_crypto_def sample_key_def)

definition sample_info :: Info where
  "sample_info = \<lparr>GameID = 1, RoomID = 2, UserID = 3, TTL = 0\<rparr>"

theorem token_roundtrip_witness:
  "\<exists>tok. GenerateToken sample_crypto sample_key (Inr (replicate 12 CHR ''n'')) 0 sample_info AESGCM = Inr tok \<and>
     ParseToken sample_crypto sample_key 3600999999999 tok = Some (Inr (sample_info\<lparr>TTL := Hour\<rparr>)) \<and>
     ParseToken sample_crypto sample_key 3601000000000 tok = Some (Inl (ErrExternal ''token expired''))"
  using token_roundtrip [OF sample_codec_ok sample_key_ok(1), of "replicate 12 CHR ''n''" 0 sample_info]
  by (auto simp: sample_key_ok(2) SetDefaultValueIfEmpty_def sample_info_def Hour_def Unix_def)

section \<open>Panics\<close>

text \<open>
  Which texts make the parser panic. With a usable key these are exactly the hexadecimal texts of fewer
  bytes than a nonce that are followed by \<^verbatim>\<open>$_$a\<close>, whatever the cipher and the time.
\<close>

lemma ParseToken_panics_iff:
  assumes "cipher_err cr key = None"
  shows "ParseToken cr key now s = None \<longleftrightarrow>
    (\<exists>h bs. s = h @ ''$_$a'' \<and> DecodeString h = Some bs \<and> length bs < NonceSize cr)"
proof
  assume N: "ParseToken cr key now s = None"
  obtain ty tok where g: "getTokenAndType s = (ty, tok)" by force
  with N have a: "ty = AESGCM" "aesgm_parse cr key now tok = None"
    by (auto simp: ParseToken_def split: if_splits)
  then have "s = tok @ ''$_$a''" using getTokenAndType_eq [OF g] by (simp add: AESGCM_def setTokenAndType_def token_sep_def)
  moreover obtain bs where "DecodeString tok = Some bs" "length bs < NonceSize cr"
    using a(2) assms by (auto simp: aesgm_parse_def split: option.splits if_splits sum.splits)
  ultimately show "\<exists>h bs. s = h @ ''$_$a'' \<and> DecodeString h = Some bs \<and> length bs < NonceSize cr" by blast
next
  assume "\<exists>h bs. s = h @ ''$_$a'' \<and> DecodeString h = Some bs \<and> length bs < NonceSize cr"
  then obtain h bs where h: "s = setTokenAndType h AESGCM" "DecodeString h = Some bs" "length bs < NonceSize cr"
    by (auto simp: AESGCM_def setTokenAndType_def token_sep_def)
  then show "ParseToken cr key now s = None"
    using Split_typed [OF Decode_no_dollar [OF h(2)], of AESGCM] assms by (simp add: ParseToken_def aesgm_parse_def AESGCM_def)
qed

end
