(* ===== verification/TokenHash.thy ===== *)
theory TokenHash
  imports Token
begin

text \<open>
  The other functions of the token generator (\<^verbatim>\<open>hash.go\<close> and \<^verbatim>\<open>password.go\<close> of the vendored package): encrypted texts and
  password hashes. The cipher is that of \<open>Token\<close>; \<open>sha256\<close> is an argument.
\<close>

definition generateHash :: "crypto \<Rightarrow> bytes \<Rightarrow> error + bytes \<Rightarrow> string \<Rightarrow> error + string" where
  "generateHash cr key nonce txt =
     (case cipher_err cr key of
        Some err \<Rightarrow> Inl err
      | None \<Rightarrow>
          (case nonce of
             Inl err \<Rightarrow> Inl err
           | Inr n \<Rightarrow> Inr (EncodeToString (n @ Seal cr key n txt))))"

text \<open>\<^verbatim>\<open>parseHash\<close>: the slices at the nonce size panic (\<open>None\<close>) on a shorter text, as in \<^verbatim>\<open>parse\<close>.\<close>

definition parseHash :: "crypto \<Rightarrow> bytes \<Rightarrow> string \<Rightarrow> (error + string) option" where
  "parseHash cr key hashData =
     (case DecodeString hashData of
        None \<Rightarrow> Some (Inl (hex_err cr hashData))
      | Some ciphertext \<Rightarrow>
          (case cipher_err cr key of
             Some err \<Rightarrow> Some (Inl err)
           | None \<Rightarrow>
               if length ciphertext < NonceSize cr then None
               else Some (Open cr key (take (NonceSize cr) ciphertext) (drop (NonceSize cr) ciphertext))))"

text \<open>
  \<^verbatim>\<open>generatePasswordHash\<close>: \<^verbatim>\<open>hash.Sum(p.key)\<close> appends the digest of what was written to its argument, and \<^verbatim>\<open>%x\<close> writes
  bytes as lower case hexadecimal digits.
\<close>

definition generatePasswordHash :: "(bytes \<Rightarrow> bytes) \<Rightarrow> bytes \<Rightarrow> string \<Rightarrow> string" where
  "generatePasswordHash sha256 key password = EncodeToString (key @ sha256 password)"

text \<open>
  A hash comes back: a text encrypted under a usable key is decrypted to itself without a panic, and the texts that make the
  decryption panic are exactly those of fewer bytes than a nonce.
\<close>

theorem hash_roundtrip:
  assumes "codec_ok cr" and "cipher_err cr key = None" and "length nonce = NonceSize cr"
  shows "(\<exists>h. generateHash cr key (Inr nonce) txt = Inr h \<and> parseHash cr key h = Some (Inr txt)) \<and>
    (parseHash cr key x = None \<longleftrightarrow> (\<exists>bs. DecodeString x = Some bs \<and> length bs < NonceSize cr))"
proof -
  have "Open cr key nonce (Seal cr key nonce txt) = Inr txt" using assms by (simp add: codec_ok_def)
  then show ?thesis
    using assms(2,3) by (auto simp: generateHash_def parseHash_def Decode_Encode split: option.splits)
qed

theorem hash_roundtrip_witness:
  "\<exists>h. generateHash sample_crypto sample_key (Inr (replicate 12 CHR ''n'')) ''text'' = Inr h \<and>
     parseHash sample_crypto sample_key h = Some (Inr ''text'') \<and> parseHash sample_crypto sample_key [] = None"
  using hash_roundtrip [OF sample_codec_ok sample_key_ok(1), of "replicate 12 CHR ''n''" "''text''" "[]"]
  by (auto simp: sample_key_ok(2))

lemma EncodeToString_append: "EncodeToString (a @ b) = EncodeToString a @ EncodeToString b"
  by (induction a) auto

lemma EncodeToString_length: "length (EncodeToString a) = 2 * length a"
  by (induction a) auto

text \<open>
  A password hash shows the key. It begins with the hexadecimal digits of the key of the generator, the same for
  every password, from which the key is read back; only the rest depends on the password.
\<close>

theorem password_hash_discloses_key:
  "DecodeString (take (2 * length key) (generatePasswordHash sha256 key password)) = Some key \<and>
   drop (2 * length key) (generatePasswordHash sha256 key password) = EncodeToString (sha256 password)"
  by (simp add: generatePasswordHash_def EncodeToString_append EncodeToString_length Decode_Encode)

end
