(* ===== verification/Viewer.thy ===== *)
theory Viewer
  imports Identity
begin

text \<open>
  The pretty printer of \<^verbatim>\<open>pkg/transport/viewer\<close> that writes requests and responses to the log:
  masking of fields by tags (\<^verbatim>\<open>option.go\<close>, \<^verbatim>\<open>tags.go\<close>), number texts (\<^verbatim>\<open>common.go\<close>), the walk over a
  value (\<^verbatim>\<open>format.go\<close>) and \<^verbatim>\<open>Sprintf\<close> (\<^verbatim>\<open>print.go\<close>). A value is what \<^verbatim>\<open>reflect\<close> shows of it;
  pointers are addresses in a heap, so that shared and cyclic values can be written down.
\<close>

section \<open>Masking\<close>

text \<open>How a call ends: with a result, a panic, or not at all within the given fuel.\<close>

datatype 'a outcome = Done 'a | Panic | Hang

text \<open>\<^verbatim>\<open>strings.Split\<close> at one character.\<close>

fun Split :: "char \<Rightarrow> string \<Rightarrow> string list" where
  "Split c [] = [[]]"
| "Split c (x # xs) = (if x = c then [] # Split c xs else (x # hd (Split c xs)) # tl (Split c xs))"

text \<open>\<^verbatim>\<open>strconv.ParseInt(s, 10, 32)\<close> without its error: 0 for bad syntax, the nearest bound for a number out of range.\<close>

fun parse_digits :: "string \<Rightarrow> nat \<Rightarrow> nat option" where
  "parse_digits [] n = Some n"
| "parse_digits (c # cs) n =
     (let d = (of_char c :: nat)
      in if d < 48 \<or> 57 < d then None
         else let n' = 10 * n + (d - 48) in if 2 ^ 32 \<le> n' then Some (2 ^ 32 - 1) else parse_digits cs n')"

definition ParseInt32 :: "string \<Rightarrow> int" where
  "ParseInt32 s =
     (let neg = (s \<noteq> [] \<and> hd s = CHR ''-''); ds = (if s \<noteq> [] \<and> (hd s = CHR ''-'' \<or> hd s = CHR ''+'') then tl s else s)
      in if ds = [] then 0
         else case parse_digits ds 0 of
                None \<Rightarrow> 0
              | Some n \<Rightarrow> if neg then - int (min n (2 ^ 31)) else int (min n (2 ^ 31 - 1)))"

definition stars :: "nat \<Rightarrow> string" where
  "stars n = replicate n CHR ''*''"

text \<open>
  \<^verbatim>\<open>hide\<close>. The bounds of the slices and the count of \<^verbatim>\<open>strings.Repeat\<close> are checked at run time. A nil
  result is the empty text.
\<close>

definition hide_range :: "string \<Rightarrow> nat \<Rightarrow> int \<times> int" where
  "hide_range formula n =
     (if formula = ''fh'' then (0, int n div 2)
      else if formula = ''lh'' then (int n div 2, 0)
      else if formula = ''md'' then (int n div 3, int n - int n div 3)
      else if CHR '':'' \<in> set formula
      then (case Split CHR '':'' formula of
              [p, q] \<Rightarrow> (ParseInt32 p, ParseInt32 q)
            | _ \<Rightarrow> (0, 0))
      else (0, 0))"

definition hide :: "string \<Rightarrow> string \<Rightarrow> string outcome" where
  "hide formula bs =
     (let (f, t) = hide_range formula (length bs)
      in if formula = ''-'' then Done []
         else if f < 0 \<or> int (length bs) < f then Panic
         else
           (let view = take (nat f) bs @ stars (length bs - nat f)
            in if t = 0 then Done view
               else if t < 0 \<or> int (length bs) < t then Panic
               else Done (take (nat t) view @ drop (nat t) bs)))"

type_synonym view_option = "string \<Rightarrow> string outcome"

text \<open>An option may be nil (\<open>None\<close>).\<close>

fun applyOptions :: "string \<Rightarrow> view_option option list \<Rightarrow> string outcome" where
  "applyOptions bs [] = Done bs"
| "applyOptions bs (None # opts) = applyOptions bs opts"
| "applyOptions bs (Some opt # opts) =
     (case opt bs of Done view \<Rightarrow> applyOptions view opts | Panic \<Rightarrow> Panic | Hang \<Rightarrow> Hang)"

definition tagToOption :: "string \<Rightarrow> view_option option" where
  "tagToOption tag =
     (case Split CHR '','' tag of
        [name, arg] \<Rightarrow> if name = ''hide'' then Some (hide arg) else None
      | _ \<Rightarrow> None)"

section \<open>Texts of scalars\<close>

definition intBytes :: "64 word \<Rightarrow> string" where
  "intBytes i = (if sint i < 0 then ''-'' @ Itoa (nat (- sint i)) else Itoa (nat (sint i)))"

definition uintBytes :: "uint64 \<Rightarrow> string" where
  "uintBytes i = Itoa (unat i)"

definition printBool :: "bool \<Rightarrow> string" where
  "printBool b = (if b then ''true'' else ''false'')"

text \<open>\<^verbatim>\<open>printComplex\<close> on the texts of its parts and whether the imaginary part is at least 0.\<close>

definition printComplex :: "string \<Rightarrow> string \<Rightarrow> bool \<Rightarrow> string" where
  "printComplex r i nonneg = ''('' @ r @ (if nonneg then ''+'' else []) @ i @ ''i)''"

definition hexDigits :: string where
  "hexDigits = ''0123456789abcdef''"

text \<open>\<^verbatim>\<open>printHexPtr\<close> fills a buffer of 18 bytes from its end; \<open>None\<close> is an index out of range.\<close>

fun hex_fill :: "nat \<Rightarrow> nat \<Rightarrow> string \<Rightarrow> (nat \<times> string) option" where
  "hex_fill num i buf =
     (if length buf \<le> i then None
      else if num < 16 then Some (i, buf[i := hexDigits ! num])
      else if i = 0 then None
      else hex_fill (num div 16) (i - 1) (buf[i := hexDigits ! (num mod 16)]))"

declare hex_fill.simps [simp del]

definition printHexPtr :: "uint64 \<Rightarrow> string outcome" where
  "printHexPtr p =
     (if p = 0 then Done ''<nil>''
      else case hex_fill (unat p) 17 (replicate 18 (char_of (0 :: nat))) of
             None \<Rightarrow> Panic
           | Some (i, buf) \<Rightarrow> if i < 2 then Panic else Done (drop (i - 2) (buf[i - 1 := CHR ''x'', i - 2 := CHR ''0''])))"

section \<open>Values\<close>

text \<open>What a call of a method without arguments and with one string result gives.\<close>

datatype method_call = Gives string | CallPanics

record value_info =
  vi_Type :: string
  vi_String :: "method_call option"
  vi_Dump :: "method_call option"

text \<open>
  Floating-point numbers are given by the texts of \<^verbatim>\<open>strconv.FormatFloat\<close>, a \<^verbatim>\<open>time.Time\<close> by its text in
  RFC 3339, a pointer by its address (\<open>None\<close> is nil), channels, functions and unsafe pointers by
  their address too. The fields of a struct have a name and the tag \<^verbatim>\<open>dumper\<close>; the entries of a map
  come in the order of \<^verbatim>\<open>MapKeys\<close>.
\<close>

datatype rval = RInvalid | RVal value_info rkind
  and rkind =
    KBool bool
  | KInt "64 word"
  | KUint uint64
  | KFloat string
  | KComplex string string bool
  | KString string
  | KSlice "rval list option"
  | KArray "rval list"
  | KIface "rval option"
  | KMap "(rval \<times> rval) list option"
  | KTime string
  | KStruct "(string \<times> string \<times> rval) list"
  | KUintptr uint64
  | KHandle uint64
  | KPtr "nat option"

definition string_value :: "string \<Rightarrow> rval" where
  "string_value s = RVal \<lparr>vi_Type = ''string'', vi_String = None, vi_Dump = None\<rparr> (KString s)"

section \<open>The walk\<close>

text \<open>The flags of the \<^verbatim>\<open>fmt.State\<close>, the configured depth and the heap; and what the walk changes.\<close>

record format_env =
  flag_sharp :: bool
  flag_plus :: bool
  MaxDepth :: int
  heap :: "nat \<Rightarrow> rval option"

record formatState =
  f_depth :: int
  f_pointers :: "(nat \<times> int) list"
  f_ignoreNextType :: bool
  f_out :: string

definition Write :: "string \<Rightarrow> formatState \<Rightarrow> formatState" where
  "Write s st = st\<lparr>f_out := f_out st @ s\<rparr>"

definition set_ignore :: "bool \<Rightarrow> formatState \<Rightarrow> formatState" where
  "set_ignore b st = st\<lparr>f_ignoreNextType := b\<rparr>"

definition deeper :: "int \<Rightarrow> formatState \<Rightarrow> formatState" where
  "deeper d st = st\<lparr>f_depth := f_depth st + d\<rparr>"

definition write_outcome :: "string outcome \<Rightarrow> formatState \<Rightarrow> formatState outcome" where
  "write_outcome r st = (case r of Done s \<Rightarrow> Done (Write s st) | Panic \<Rightarrow> Panic | Hang \<Rightarrow> Hang)"

definition bind_outcome :: "'a outcome \<Rightarrow> ('a \<Rightarrow> 'b outcome) \<Rightarrow> 'b outcome" where
  "bind_outcome r f = (case r of Done x \<Rightarrow> f x | Panic \<Rightarrow> Panic | Hang \<Rightarrow> Hang)"

fun each :: "('a \<Rightarrow> formatState \<Rightarrow> formatState outcome) \<Rightarrow> 'a list \<Rightarrow> formatState \<Rightarrow> formatState outcome" where
  "each f [] st = Done st"
| "each f (x # xs) st = bind_outcome (f x st) (each f xs)"

fun unpackValue :: "rval \<Rightarrow> formatState \<Rightarrow> rval \<times> formatState" where
  "unpackValue (RVal info (KIface p)) st =
     ((case p of None \<Rightarrow> RVal info (KIface None) | Some v \<Rightarrow> v), set_ignore False st)"
| "unpackValue v st = (v, st)"

fun type_text :: "rval \<Rightarrow> string" where
  "type_text RInvalid = []"
| "type_text (RVal info k) = vi_Type info"

text \<open>
  The loop of \<^verbatim>\<open>formatPtr\<close> over a chain of pointers. The result is where it ends, the number of
  pointers followed, why it ended, and the addresses noted with their depth.
\<close>

datatype chain_end = Reached | NilFound | CycleFound

fun follow ::
    "nat \<Rightarrow> format_env \<Rightarrow> int \<Rightarrow> rval \<Rightarrow> nat \<Rightarrow> (nat \<times> int) list \<Rightarrow> (rval \<times> nat \<times> chain_end \<times> (nat \<times> int) list) outcome" where
  "follow 0 env depth ve indirect ps = Hang"
| "follow (Suc n) env depth ve indirect ps =
     (case ve of
        RVal info (KPtr None) \<Rightarrow> Done (ve, indirect, NilFound, ps)
      | RVal info (KPtr (Some addr)) \<Rightarrow>
          if (case map_of ps addr of None \<Rightarrow> False | Some pd \<Rightarrow> pd < depth)
          then Done (ve, indirect, CycleFound, ps)
          else
            (let ps' = AList.update addr depth ps
             in case heap env addr of
                  None \<Rightarrow> Panic
                | Some target \<Rightarrow>
                    (case target of
                       RVal info' (KIface None) \<Rightarrow> Done (target, indirect + 1, NilFound, ps')
                     | RVal info' (KIface (Some v)) \<Rightarrow> follow n env depth v (indirect + 1) ps'
                     | _ \<Rightarrow> follow n env depth target (indirect + 1) ps'))
      | _ \<Rightarrow> Done (ve, indirect, Reached, ps))"

text \<open>
  \<^verbatim>\<open>formatPtr\<close> on a pointer; \<open>go\<close> is \<^verbatim>\<open>format\<close>. (The count of pointers in the other branch of the type
  text is not used by the code.)
\<close>

definition formatPtr ::
    "nat \<Rightarrow> format_env \<Rightarrow> (rval \<Rightarrow> formatState \<Rightarrow> formatState outcome) \<Rightarrow> rval \<Rightarrow> bool \<Rightarrow> formatState \<Rightarrow> formatState outcome" where
  "formatPtr n env go v isNil st =
     (if isNil \<and> (\<not> flag_sharp env \<or> f_ignoreNextType st) then Done (Write ''<nil>'' st)
      else
        (let ps = filter (\<lambda>(k, d). d < f_depth st) (f_pointers st)
         in case follow n env (f_depth st) v 0 ps of
              Panic \<Rightarrow> Panic
            | Hang \<Rightarrow> Hang
            | Done (ve, indirect, e, ps') \<Rightarrow>
                (let st1 = st\<lparr>f_pointers := ps'\<rparr>;
                     st2 = (if flag_sharp env \<and> \<not> f_ignoreNextType st1
                            then Write (''('' @ replicate indirect CHR ''*'' @ type_text ve @ '')'') st1 else st1)
                 in case e of
                      NilFound \<Rightarrow> Done (Write ''<nil>'' st2)
                    | CycleFound \<Rightarrow> Done (Write ''<shown>'' st2)
                    | Reached \<Rightarrow> go ve (set_ignore True st2))))"

text \<open>Elements with their index: a space before all but the first.\<close>

definition spaced :: "nat \<Rightarrow> formatState \<Rightarrow> formatState" where
  "spaced i st = (if 0 < i then Write '' '' st else st)"

definition element ::
    "(rval \<Rightarrow> formatState \<Rightarrow> formatState outcome) \<Rightarrow> nat \<times> rval \<Rightarrow> formatState \<Rightarrow> formatState outcome" where
  "element go iv st = (let (v, st1) = unpackValue (snd iv) (set_ignore True (spaced (fst iv) st)) in go v st1)"

definition entry ::
    "(rval \<Rightarrow> formatState \<Rightarrow> formatState outcome) \<Rightarrow> nat \<times> rval \<times> rval \<Rightarrow> formatState \<Rightarrow> formatState outcome" where
  "entry go e st =
     (let (k, st1) = unpackValue (fst (snd e)) (set_ignore True (spaced (fst e) st))
      in bind_outcome (go k st1)
           (\<lambda>st2. let (v, st3) = unpackValue (snd (snd e)) (set_ignore True (Write '':'' st2)) in go v st3))"

definition field_text ::
    "format_env \<Rightarrow> (view_option option list \<Rightarrow> rval \<Rightarrow> formatState \<Rightarrow> formatState outcome) \<Rightarrow>
     nat \<times> string \<times> string \<times> rval \<Rightarrow> formatState \<Rightarrow> formatState outcome" where
  "field_text env go fd st =
     (let (i, name, tag, v) = fd;
          st1 = spaced i st;
          st2 = (if flag_plus env \<or> flag_sharp env then Write '':'' (Write name st1) else st1);
          (v', st3) = unpackValue v st2
      in go [tagToOption tag] v' st3)"

text \<open>
  The body of a slice or an array. Above 16 entries only the first and the last four are shown,
  and a \<^verbatim>\<open>break\<close> leaves the whole switch: the depth stays and the bracket is not closed.
\<close>

definition format_list ::
    "format_env \<Rightarrow> (rval \<Rightarrow> formatState \<Rightarrow> formatState outcome) \<Rightarrow> rval list \<Rightarrow> formatState \<Rightarrow> formatState outcome" where
  "format_list env go vs st =
     (let st1 = deeper 1 (Write ''['' st); n = length vs; ivs = List.enumerate 0 vs;
          close = (\<lambda>st. Done (Write '']'' (deeper (- 1) st)))
      in if MaxDepth env \<noteq> 0 \<and> MaxDepth env < f_depth st1 then close (Write ''<max>'' st1)
         else if 16 < n
         then bind_outcome (each (element go) (take 4 ivs) st1)
                (\<lambda>st2. bind_outcome (go (string_value ('' <-['' @ Itoa n @ '']->'')) st2)
                   (each (element go) (drop (n - 4) ivs)))
         else bind_outcome (each (element go) ivs st1) close)"

text \<open>
  \<^verbatim>\<open>format\<close>, with fuel for the depth of the recursion. \<^verbatim>\<open>MethodByName\<close> panics on an invalid value and a
  method of a nil interface cannot be called.
\<close>

fun format :: "nat \<Rightarrow> format_env \<Rightarrow> view_option option list \<Rightarrow> rval \<Rightarrow> formatState \<Rightarrow> formatState outcome" where
  "format 0 env opts v st = Hang"
| "format (Suc n) env opts RInvalid st = Panic"
| "format (Suc n) env opts (RVal info k) st =
     (let go = format n env [];
          kind_body =
            (\<lambda>st. case k of
               KBool b \<Rightarrow> Done (Write (printBool b) st)
             | KInt i \<Rightarrow> write_outcome (applyOptions (intBytes i) opts) st
             | KUint i \<Rightarrow> write_outcome (applyOptions (uintBytes i) opts) st
             | KFloat s \<Rightarrow> write_outcome (applyOptions s opts) st
             | KComplex r i b \<Rightarrow> Done (Write (printComplex r i b) st)
             | KString s \<Rightarrow> write_outcome (applyOptions s opts) st
             | KSlice None \<Rightarrow> Done (Write ''<nil>'' st)
             | KSlice (Some vs) \<Rightarrow> format_list env go vs st
             | KArray vs \<Rightarrow> format_list env go vs st
             | KIface p \<Rightarrow> Done (if p = None then Write ''<nil>'' st else st)
             | KMap None \<Rightarrow> Done (Write ''<nil>'' st)
             | KMap (Some es) \<Rightarrow>
                 (let st1 = deeper 1 (Write ''map['' st)
                  in bind_outcome
                       (if MaxDepth env \<noteq> 0 \<and> MaxDepth env < f_depth st1 then Done (Write ''<max>'' st1)
                        else each (entry go) (List.enumerate 0 es) st1)
                       (\<lambda>st. Done (Write '']'' (deeper (- 1) st))))
             | KTime s \<Rightarrow> Done (Write s st)
             | KStruct fs \<Rightarrow>
                 (let st1 = deeper 1 (Write ''{'' st)
                  in bind_outcome
                       (if MaxDepth env \<noteq> 0 \<and> MaxDepth env < f_depth st1 then Done (Write ''<max>'' st1)
                        else each (field_text env (format n env)) (List.enumerate 0 fs) st1)
                       (\<lambda>st. Done (Write ''}'' (deeper (- 1) st))))
             | KUintptr p \<Rightarrow> write_outcome (printHexPtr p) st
             | KHandle p \<Rightarrow> write_outcome (printHexPtr p) st
             | KPtr p \<Rightarrow> Done st);
          typed =
            (let st1 = (if \<not> f_ignoreNextType st \<and> flag_sharp env then Write (''('' @ vi_Type info @ '')'') st else st);
                 st2 = set_ignore False st1
             in case vi_Dump info of
                  Some call \<Rightarrow>
                    (if k = KIface None then Panic
                     else case call of Gives s \<Rightarrow> Done (Write s st2) | CallPanics \<Rightarrow> Panic)
                | None \<Rightarrow> kind_body st2)
      in case vi_String info of
           Some call \<Rightarrow>
             (if k = KPtr None then Done (Write ''nil'' st)
              else if k = KIface None then Panic
              else case call of
                     Gives s \<Rightarrow> write_outcome (applyOptions s opts) st
                   | CallPanics \<Rightarrow> Panic)
         | None \<Rightarrow>
             (case k of
                KPtr p \<Rightarrow> formatPtr n env go (RVal info k) (p = None) st
              | _ \<Rightarrow> typed))"

section \<open>Printing\<close>

text \<open>The flags \<^verbatim>\<open>0-+# \<close>, width and precision of a verb, and the formats rebuilt from them.\<close>

record verb_state =
  vs_flags :: "char list"
  vs_Width :: "nat option"
  vs_Precision :: "nat option"

definition supportedFlags :: string where
  "supportedFlags = ''0-+# ''"

definition buildDefaultFormat :: "verb_state \<Rightarrow> string" where
  "buildDefaultFormat fs = ''%'' @ filter (\<lambda>c. c \<in> set (vs_flags fs)) supportedFlags @ ''v''"

definition constructOrigFormat :: "verb_state \<Rightarrow> char \<Rightarrow> string" where
  "constructOrigFormat fs verb =
     ''%'' @ filter (\<lambda>c. c \<in> set (vs_flags fs)) supportedFlags @
     (case vs_Width fs of None \<Rightarrow> [] | Some w \<Rightarrow> Itoa w) @
     (case vs_Precision fs of None \<Rightarrow> [] | Some p \<Rightarrow> ''.'' @ Itoa p) @ [verb]"

text \<open>\<^verbatim>\<open>Format\<close>: another verb than \<^verbatim>\<open>v\<close> is left to \<^verbatim>\<open>fmt.Fprintf\<close> (\<open>fprintf\<close>), and nil (\<open>None\<close>) has no value to walk over.\<close>

definition new_formatState :: formatState where
  "new_formatState = \<lparr>f_depth = 0, f_pointers = [], f_ignoreNextType = False, f_out = []\<rparr>"

definition Format ::
    "nat \<Rightarrow> (nat \<Rightarrow> rval option) \<Rightarrow> int \<Rightarrow> (string \<Rightarrow> string) \<Rightarrow> rval option \<Rightarrow> verb_state \<Rightarrow> char \<Rightarrow> string outcome" where
  "Format n h maxDepth fprintf v fs verb =
     (if verb \<noteq> CHR ''v'' then Done (fprintf (constructOrigFormat fs verb))
      else case v of
             None \<Rightarrow> Done ((if CHR ''#'' \<in> set (vs_flags fs) then ''(interface {})'' else []) @ ''<nil>'')
           | Some x \<Rightarrow>
               bind_outcome
                 (format n \<lparr>flag_sharp = CHR ''#'' \<in> set (vs_flags fs), flag_plus = CHR ''+'' \<in> set (vs_flags fs),
                    MaxDepth = maxDepth, heap = h\<rparr> [] x new_formatState)
                 (\<lambda>st. Done (f_out st)))"

text \<open>
  \<^verbatim>\<open>Sprintf("%+v", x)\<close> with the package's configuration, as the logging middleware calls it. \<^verbatim>\<open>fmt\<close>
  recovers from a panic of \<^verbatim>\<open>Format\<close> and writes a note about it; \<open>note x\<close> is the text that results.
\<close>

definition Config_MaxDepth :: int where
  "Config_MaxDepth = 0"

definition Sprintf_plus :: "nat \<Rightarrow> (nat \<Rightarrow> rval option) \<Rightarrow> (rval \<Rightarrow> string) \<Rightarrow> rval \<Rightarrow> string outcome" where
  "Sprintf_plus n h note x =
     (case Format n h Config_MaxDepth id (Some x) \<lparr>vs_flags = ''+'', vs_Width = None, vs_Precision = None\<rparr> CHR ''v'' of
        Panic \<Rightarrow> Done (note x)
      | r \<Rightarrow> r)"

end
