(* ===== verification/Middleware.thy ===== *)
theory Middleware
  imports JsonRpc Viewer
begin

text \<open>
  What stands around the service and the endpoints in \<^verbatim>\<open>pkg/transport\<close>: the logging and tracing
  middleware of the service (\<^verbatim>\<open>serversettings-logger.go\<close>, \<^verbatim>\<open>serversettings-trace.go\<close>), the wrapping of its
  methods (\<^verbatim>\<open>serversettings-server.go\<close>, \<^verbatim>\<open>serversettings-http.go\<close>, \<^verbatim>\<open>server.go\<close>), and the handlers every
  request passes first (\<^verbatim>\<open>fiber.go\<close>, \<^verbatim>\<open>header.go\<close>).

  The events a logger writes are values, and so are the tags of the current span. The tracer, the
  parser of log levels and the texts of durations are arguments.
\<close>

section \<open>Loggers and spans\<close>

text \<open>
  A \<^verbatim>\<open>zerolog.Logger\<close>: whether it writes anywhere, its level and the fields of its context. An event
  below the level is not written.
\<close>

record logger =
  lg_out :: bool
  lg_level :: int
  lg_fields :: "(string \<times> string) list"

definition InfoLevel :: int where "InfoLevel = 1"
definition ErrorLevel :: int where "ErrorLevel = 3"
definition DisabledLevel :: int where "DisabledLevel = 7"

definition disabledLogger :: logger where
  "disabledLogger = \<lparr>lg_out = False, lg_level = DisabledLevel, lg_fields = []\<rparr>"

record log_event =
  ev_level :: int
  ev_fields :: "(string \<times> string) list"
  ev_error :: "string option"
  ev_msg :: string

text \<open>
  The state of a service together with what can be observed of a request: the logger in its
  context, the events written so far, and the tags of its span.
\<close>

record 'st observed =
  ob_base :: 'st
  ob_logger :: "logger option"
  ob_log :: "log_event list"
  ob_tags :: "(string \<times> string) list"

definition Ctx :: "logger option \<Rightarrow> logger" where
  "Ctx l = (case l of None \<Rightarrow> disabledLogger | Some lg \<Rightarrow> lg)"

text \<open>\<^verbatim>\<open>WithContext\<close> attaches a logger, but not a disabled one to a context without a logger.\<close>

definition WithContext :: "logger \<Rightarrow> 'st observed \<Rightarrow> 'st observed" where
  "WithContext lg s = (if ob_logger s = None \<and> lg_level lg = DisabledLevel then s else s\<lparr>ob_logger := Some lg\<rparr>)"

definition write_event :: "logger \<Rightarrow> int \<Rightarrow> (string \<times> string) list \<Rightarrow> string option \<Rightarrow> string \<Rightarrow> 'st observed \<Rightarrow> 'st observed" where
  "write_event lg level kvs err msg s =
     (if lg_out lg \<and> lg_level lg \<le> level
      then s\<lparr>ob_log := ob_log s @ [\<lparr>ev_level = level, ev_fields = lg_fields lg @ kvs, ev_error = err, ev_msg = msg\<rparr>]\<rparr>
      else s)"

definition SetTag :: "string \<Rightarrow> string \<Rightarrow> 'st observed \<Rightarrow> 'st observed" where
  "SetTag k v s = s\<lparr>ob_tags := AList.update k v (ob_tags s)\<rparr>"

section \<open>What is logged\<close>

text \<open>
  The requests and responses as \<^verbatim>\<open>reflect\<close> shows them to the pretty printer. None of the exchange
  types has the tag \<^verbatim>\<open>dumper\<close>. A UUID and a duration have a method \<^verbatim>\<open>String\<close>.
\<close>

record log_env =
  le_note :: "rval \<Rightarrow> string"
  le_took :: string
  le_duration :: "duration \<Rightarrow> string"
  le_nil_ids :: bool

definition plain_info :: "string \<Rightarrow> value_info" where
  "plain_info ty = \<lparr>vi_Type = ty, vi_String = None, vi_Dump = None\<rparr>"

definition struct_value :: "string \<Rightarrow> (string \<times> rval) list \<Rightarrow> rval" where
  "struct_value ty fs = RVal (plain_info ty) (KStruct (map (\<lambda>(name, v). (name, [], v)) fs))"

definition int_value :: "go_int \<Rightarrow> rval" where
  "int_value i = RVal (plain_info ''int'') (KInt i)"

definition bool_value :: "bool \<Rightarrow> rval" where
  "bool_value b = RVal (plain_info ''bool'') (KBool b)"

definition uuid_value :: "uuid \<Rightarrow> rval" where
  "uuid_value u =
     RVal \<lparr>vi_Type = ''uuid.UUID'', vi_String = Some (Gives (uuid_String u)), vi_Dump = None\<rparr>
       (KArray (map (\<lambda>k. RVal (plain_info ''uint8'') (KUint (ucast (take_bit 8 (drop_bit (8 * k) u))))) (rev [0..<16])))"

definition duration_value :: "log_env \<Rightarrow> duration \<Rightarrow> rval" where
  "duration_value env d =
     RVal \<lparr>vi_Type = ''time.Duration'', vi_String = Some (Gives (le_duration env d)), vi_Dump = None\<rparr> (KInt d)"

definition token_request_value :: "string \<Rightarrow> string \<Rightarrow> rval" where
  "token_request_value ty tok = struct_value ty [(''Token'', string_value tok)]"

definition settings_value :: "Settings \<Rightarrow> rval" where
  "settings_value s = struct_value ''types.Settings''
     [(''ServerType'', string_value (set_ServerType s)), (''ServerPort'', string_value (set_ServerPort s)),
      (''ConnectionPort'', string_value (set_ConnectionPort s)), (''ServerAddress'', string_value (set_ServerAddress s)),
      (''MaxConnections'', int_value (set_MaxConnections s)), (''MaxRequestPerSecond'', int_value (set_MaxRequestPerSecond s))]"

definition zero_Settings :: Settings where
  "zero_Settings = \<lparr>set_ServerType = [], set_ServerPort = [], set_ConnectionPort = [], set_ServerAddress = [],
     set_MaxConnections = 0, set_MaxRequestPerSecond = 0\<rparr>"

definition room_id_value :: "GetDeletedRooms_id \<Rightarrow> rval" where
  "room_id_value d = struct_value ''types.GetDeletedRooms''
     [(''GameID'', uuid_value (del_GameID d)), (''RoomID'', uuid_value (del_RoomID d))]"

text \<open>A slice of ids; whether an empty one is nil is told by \<open>nil\<close>.\<close>

definition ids_value :: "bool \<Rightarrow> GetDeletedRooms_id list \<Rightarrow> rval" where
  "ids_value nil ids =
     RVal (plain_info ''[]types.GetDeletedRooms'') (KSlice (if ids = [] \<and> nil then None else Some (map room_id_value ids)))"

text \<open>
  \<^verbatim>\<open>viewer.Sprintf("%+v", x)\<close>. The values above have no pointers and a depth below eight, so this
  fuel is enough (theory MiddlewareProps).
\<close>

definition viewer_fuel :: nat where "viewer_fuel = 8"

definition viewer_text :: "log_env \<Rightarrow> rval \<Rightarrow> string" where
  "viewer_text env x = (case Sprintf_plus viewer_fuel Map.empty (le_note env) x of Done s \<Rightarrow> s | _ \<Rightarrow> [])"

section \<open>Logging\<close>

text \<open>
  The five methods of \<^verbatim>\<open>loggerServerSettings\<close> have one shape: take the logger of the context, call the
  next service, and in the deferred function write the event. On an error the results are zero.
\<close>

definition logged ::
    "log_env \<Rightarrow> string \<Rightarrow> rval \<Rightarrow> ('r \<Rightarrow> rval) \<Rightarrow> ('r \<Rightarrow> error option) \<Rightarrow>
     ('st observed \<Rightarrow> 'r \<times> 'st observed) \<Rightarrow> 'st observed \<Rightarrow> 'r \<times> 'st observed" where
  "logged env method request response err_of call s =
     (let lg = Ctx (ob_logger s);
          lg' = lg\<lparr>lg_fields := lg_fields lg @ [(''service'', ''ServerSettings''), (''method'', method)]\<rparr>;
          (r, s') = call s;
          kvs = [(''request'', viewer_text env request), (''response'', viewer_text env (response r)),
                    (''took'', le_took env)]
      in (r, case err_of r of
               Some err \<Rightarrow> write_event lg' ErrorLevel kvs (Some (Error err)) (''call '' @ method) s'
             | None \<Rightarrow> write_event lg' InfoLevel kvs None (''call '' @ method) s'))"

definition left :: "'a + 'b \<Rightarrow> 'a option" where
  "left r = (case r of Inl e \<Rightarrow> Some e | Inr _ \<Rightarrow> None)"

definition right_or :: "'b \<Rightarrow> 'a + 'b \<Rightarrow> 'b" where
  "right_or d r = (case r of Inl _ \<Rightarrow> d | Inr x \<Rightarrow> x)"

definition logger_GetConnectionsNum ::
    "log_env \<Rightarrow> 'st observed api_ServerSettings \<Rightarrow> string \<Rightarrow> 'st observed \<Rightarrow> (error + go_int \<times> bool) \<times> 'st observed" where
  "logger_GetConnectionsNum env nxt tok =
     logged env ''getConnectionsNum'' (token_request_value ''transport.requestServerSettingsGetConnectionsNum'' tok)
       (\<lambda>r. let (countConn, exists) = right_or (0, False) r
            in struct_value ''transport.responseServerSettingsGetConnectionsNum''
                 [(''CountConn'', int_value countConn), (''Exists'', bool_value exists)])
       left (api_GetConnectionsNum nxt tok)"

definition logger_HealthCheck ::
    "log_env \<Rightarrow> 'st observed api_ServerSettings \<Rightarrow> string \<Rightarrow> 'st observed \<Rightarrow> (error + bool) \<times> 'st observed" where
  "logger_HealthCheck env nxt tok =
     logged env ''healthCheck'' (token_request_value ''transport.requestServerSettingsHealthCheck'' tok)
       (\<lambda>r. struct_value ''transport.responseServerSettingsHealthCheck'' [(''Exists'', bool_value (right_or False r))])
       left (api_HealthCheck nxt tok)"

definition logger_GetServerSettings ::
    "log_env \<Rightarrow> 'st observed api_ServerSettings \<Rightarrow> string \<Rightarrow> 'st observed \<Rightarrow> (error + Settings) \<times> 'st observed" where
  "logger_GetServerSettings env nxt tok =
     logged env ''getServerSettings'' (token_request_value ''transport.requestServerSettingsGetServerSettings'' tok)
       (\<lambda>r. struct_value ''transport.responseServerSettingsGetServerSettings''
              [(''Settings'', settings_value (right_or zero_Settings r))])
       left (api_GetServerSettings nxt tok)"

definition logger_CreateRoom ::
    "log_env \<Rightarrow> 'st observed api_ServerSettings \<Rightarrow> string \<Rightarrow> duration \<Rightarrow> 'st observed \<Rightarrow> error option \<times> 'st observed" where
  "logger_CreateRoom env nxt tok roomTTl =
     logged env ''createRoom''
       (struct_value ''transport.requestServerSettingsCreateRoom''
          [(''Token'', string_value tok),
           (''CreateRoom'', struct_value ''types.CreateRoomRequest'' [(''RoomTTl'', duration_value env roomTTl)])])
       (\<lambda>r. struct_value ''transport.responseServerSettingsCreateRoom'' []) id (api_CreateRoom nxt tok roomTTl)"

definition logger_GetDeletedRooms ::
    "log_env \<Rightarrow> 'st observed api_ServerSettings \<Rightarrow> string \<Rightarrow> GetDeletedRooms_id list \<Rightarrow> 'st observed \<Rightarrow>
     (error + GetDeletedRooms_id list) \<times> 'st observed" where
  "logger_GetDeletedRooms env nxt tok ids =
     logged env ''getDeletedRooms''
       (struct_value ''transport.requestServerSettingsGetDeletedRooms''
          [(''Token'', string_value tok), (''Ids'', ids_value (le_nil_ids env) ids)])
       (\<lambda>r. struct_value ''transport.responseServerSettingsGetDeletedRooms'' [(''DeletedIds'', ids_value True (right_or [] r))])
       left (api_GetDeletedRooms nxt tok ids)"

definition loggerMiddlewareServerSettings ::
    "log_env \<Rightarrow> 'st observed api_ServerSettings \<Rightarrow> 'st observed api_ServerSettings" where
  "loggerMiddlewareServerSettings env nxt =
     \<lparr>api_GetConnectionsNum = logger_GetConnectionsNum env nxt, api_HealthCheck = logger_HealthCheck env nxt,
      api_GetServerSettings = logger_GetServerSettings env nxt, api_CreateRoom = logger_CreateRoom env nxt,
      api_GetDeletedRooms = logger_GetDeletedRooms env nxt\<rparr>"

section \<open>Tracing\<close>

text \<open>The span of the context is there: \<^verbatim>\<open>headersHandler\<close> put it.\<close>

definition trace_GetConnectionsNum ::
    "'st observed api_ServerSettings \<Rightarrow> string \<Rightarrow> 'st observed \<Rightarrow> (error + go_int \<times> bool) \<times> 'st observed" where
  "trace_GetConnectionsNum nxt tok s = api_GetConnectionsNum nxt tok (SetTag ''method'' ''GetConnectionsNum'' s)"

definition trace_HealthCheck ::
    "'st observed api_ServerSettings \<Rightarrow> string \<Rightarrow> 'st observed \<Rightarrow> (error + bool) \<times> 'st observed" where
  "trace_HealthCheck nxt tok s = api_HealthCheck nxt tok (SetTag ''method'' ''HealthCheck'' s)"

definition trace_GetServerSettings ::
    "'st observed api_ServerSettings \<Rightarrow> string \<Rightarrow> 'st observed \<Rightarrow> (error + Settings) \<times> 'st observed" where
  "trace_GetServerSettings nxt tok s = api_GetServerSettings nxt tok (SetTag ''method'' ''GetServerSettings'' s)"

definition trace_CreateRoom ::
    "'st observed api_ServerSettings \<Rightarrow> string \<Rightarrow> duration \<Rightarrow> 'st observed \<Rightarrow> error option \<times> 'st observed" where
  "trace_CreateRoom nxt tok roomTTl s = api_CreateRoom nxt tok roomTTl (SetTag ''method'' ''CreateRoom'' s)"

definition trace_GetDeletedRooms ::
    "'st observed api_ServerSettings \<Rightarrow> string \<Rightarrow> GetDeletedRooms_id list \<Rightarrow> 'st observed \<Rightarrow>
     (error + GetDeletedRooms_id list) \<times> 'st observed" where
  "trace_GetDeletedRooms nxt tok ids s = api_GetDeletedRooms nxt tok ids (SetTag ''method'' ''GetDeletedRooms'' s)"

definition traceMiddlewareServerSettings :: "'st observed api_ServerSettings \<Rightarrow> 'st observed api_ServerSettings" where
  "traceMiddlewareServerSettings nxt =
     \<lparr>api_GetConnectionsNum = trace_GetConnectionsNum nxt, api_HealthCheck = trace_HealthCheck nxt,
      api_GetServerSettings = trace_GetServerSettings nxt, api_CreateRoom = trace_CreateRoom nxt,
      api_GetDeletedRooms = trace_GetDeletedRooms nxt\<rparr>"

section \<open>Wrapping\<close>

definition WrapGetConnectionsNum ::
    "((string \<Rightarrow> 'st \<Rightarrow> (error + go_int \<times> bool) \<times> 'st) \<Rightarrow> string \<Rightarrow> 'st \<Rightarrow> (error + go_int \<times> bool) \<times> 'st) \<Rightarrow>
     'st serverServerSettings \<Rightarrow> 'st serverServerSettings" where
  "WrapGetConnectionsNum m srv = srv\<lparr>fn_getConnectionsNum := m (fn_getConnectionsNum srv)\<rparr>"

definition WrapHealthCheck ::
    "((string \<Rightarrow> 'st \<Rightarrow> (error + bool) \<times> 'st) \<Rightarrow> string \<Rightarrow> 'st \<Rightarrow> (error + bool) \<times> 'st) \<Rightarrow>
     'st serverServerSettings \<Rightarrow> 'st serverServerSettings" where
  "WrapHealthCheck m srv = srv\<lparr>fn_healthCheck := m (fn_healthCheck srv)\<rparr>"

definition WrapGetServerSettings ::
    "((string \<Rightarrow> 'st \<Rightarrow> (error + Settings) \<times> 'st) \<Rightarrow> string \<Rightarrow> 'st \<Rightarrow> (error + Settings) \<times> 'st) \<Rightarrow>
     'st serverServerSettings \<Rightarrow> 'st serverServerSettings" where
  "WrapGetServerSettings m srv = srv\<lparr>fn_getServerSettings := m (fn_getServerSettings srv)\<rparr>"

definition WrapCreateRoom ::
    "((string \<Rightarrow> duration \<Rightarrow> 'st \<Rightarrow> error option \<times> 'st) \<Rightarrow> string \<Rightarrow> duration \<Rightarrow> 'st \<Rightarrow> error option \<times> 'st) \<Rightarrow>
     'st serverServerSettings \<Rightarrow> 'st serverServerSettings" where
  "WrapCreateRoom m srv = srv\<lparr>fn_createRoom := m (fn_createRoom srv)\<rparr>"

definition WrapGetDeletedRooms ::
    "((string \<Rightarrow> GetDeletedRooms_id list \<Rightarrow> 'st \<Rightarrow> (error + GetDeletedRooms_id list) \<times> 'st) \<Rightarrow>
      string \<Rightarrow> GetDeletedRooms_id list \<Rightarrow> 'st \<Rightarrow> (error + GetDeletedRooms_id list) \<times> 'st) \<Rightarrow>
     'st serverServerSettings \<Rightarrow> 'st serverServerSettings" where
  "WrapGetDeletedRooms m srv = srv\<lparr>fn_getDeletedRooms := m (fn_getDeletedRooms srv)\<rparr>"

definition svc_WithTrace :: "'st observed serverServerSettings \<Rightarrow> 'st observed serverServerSettings" where
  "svc_WithTrace srv = Wrap traceMiddlewareServerSettings srv"

definition svc_WithLog :: "log_env \<Rightarrow> 'st observed serverServerSettings \<Rightarrow> 'st observed serverServerSettings" where
  "svc_WithLog env srv = Wrap (loggerMiddlewareServerSettings env) srv"

text \<open>The methods of \<^verbatim>\<open>httpServerSettings\<close> and of \<^verbatim>\<open>Server\<close>, which hold the same pointer.\<close>

definition http_WithLog :: "log_env \<Rightarrow> 'st observed httpServerSettings \<Rightarrow> 'st observed httpServerSettings" where
  "http_WithLog env h = h\<lparr>http_svc := svc_WithLog env (http_svc h)\<rparr>"

definition http_WithTrace :: "'st observed httpServerSettings \<Rightarrow> 'st observed httpServerSettings" where
  "http_WithTrace h = h\<lparr>http_svc := svc_WithTrace (http_svc h)\<rparr>"

definition WithErrorHandler :: "(error \<Rightarrow> error \<times> int option) option \<Rightarrow> 'st httpServerSettings \<Rightarrow> 'st httpServerSettings" where
  "WithErrorHandler handler h = h\<lparr>errorHandler := handler\<rparr>"

definition Server_WithLog :: "log_env \<Rightarrow> 'st observed Server \<Rightarrow> 'st observed Server" where
  "Server_WithLog env srv =
     (case srv_httpServerSettings srv of
        None \<Rightarrow> srv
      | Some h \<Rightarrow> srv\<lparr>srv_httpServerSettings := Some (http_WithLog env h)\<rparr>)"

definition Server_WithTrace :: "'st observed Server \<Rightarrow> 'st observed Server" where
  "Server_WithTrace srv =
     (case srv_httpServerSettings srv of
        None \<Rightarrow> srv
      | Some h \<Rightarrow> srv\<lparr>srv_httpServerSettings := Some (http_WithTrace h)\<rparr>)"

section \<open>The handlers of every request\<close>

text \<open>
  One exchange as \<^verbatim>\<open>fiber.Ctx\<close> holds it: the request, its headers and those of the response (by
  canonical name; the content type is left out), the response, and the state the handlers work on.
\<close>

record 's exchange =
  xc_method :: string
  xc_path :: string
  xc_body :: "json option"
  xc_request :: "(string \<times> string) list"
  xc_response :: "(string \<times> string) list"
  xc_http :: http_response
  xc_state :: 's

text \<open>A handler finishes, panics (with the text of the panic, in the state it had then), or waits for ever.\<close>

datatype 'a run = Finished 'a | Crashed 'a string | Stuck

type_synonym 's handler = "'s exchange \<Rightarrow> 's exchange run"

fun run_map :: "('a \<Rightarrow> 'b) \<Rightarrow> 'a run \<Rightarrow> 'b run" where
  "run_map f (Finished x) = Finished (f x)"
| "run_map f (Crashed x msg) = Crashed (f x) msg"
| "run_map f Stuck = Stuck"

text \<open>
  What comes from other packages: the canonical form of header names (\<^verbatim>\<open>fasthttp\<close>), the parser of log
  levels and the JSON texts of logged values (\<^verbatim>\<open>zerolog\<close>), and the headers the tracer injects.
\<close>

record fiber_env =
  fe_canon :: "string \<Rightarrow> string"
  fe_ParseLevel :: "string \<Rightarrow> int option"
  fe_marshal :: "header_src \<Rightarrow> string"
  fe_inject :: "(string \<times> string list) list"

definition Peek :: "(string \<Rightarrow> string) \<Rightarrow> string \<Rightarrow> (string \<times> string) list \<Rightarrow> string" where
  "Peek canon k hs = (case map_of hs (canon k) of None \<Rightarrow> [] | Some v \<Rightarrow> v)"

definition Set_header :: "(string \<Rightarrow> string) \<Rightarrow> string \<Rightarrow> string \<Rightarrow> (string \<times> string) list \<Rightarrow> (string \<times> string) list" where
  "Set_header canon k v hs = AList.update (canon k) v hs"

definition setLogger :: "logger \<Rightarrow> 'st observed handler \<Rightarrow> 'st observed handler" where
  "setLogger lg nxt e = nxt (e\<lparr>xc_state := WithContext lg (xc_state e)\<rparr>)"

definition logLevelHeader :: string where
  "logLevelHeader = ''X-Log-Level''"

definition logLevelHandler :: "fiber_env \<Rightarrow> 'st observed handler \<Rightarrow> 'st observed handler" where
  "logLevelHandler fe nxt e =
     (let levelName = Peek (fe_canon fe) logLevelHeader (xc_request e)
      in nxt (if levelName = [] then e
              else case fe_ParseLevel fe levelName of
                     None \<Rightarrow> e
                   | Some level \<Rightarrow>
                       e\<lparr>xc_state := WithContext ((Ctx (ob_logger (xc_state e)))\<lparr>lg_level := level\<rparr>) (xc_state e)\<rparr>))"

definition recoverHandler :: "'st observed handler \<Rightarrow> 'st observed handler" where
  "recoverHandler nxt e =
     (case nxt e of
        Crashed e' msg \<Rightarrow>
          Finished (e'\<lparr>xc_state := write_event (Ctx (ob_logger (xc_state e'))) ErrorLevel
                         [(''method'', xc_method e'), (''path'', xc_path e')] (Some (''recover: '' @ msg))
                         ''panic occurred'' (xc_state e'),
                       xc_http := (xc_http e')\<lparr>status := 500\<rparr>\<rparr>)
      | r \<Rightarrow> r)"

fun headerValue :: "header_src \<Rightarrow> string" where
  "headerValue (HString s) = s"
| "headerValue (HHeader s) = s"
| "headerValue (HStringer s) = s"
| "headerValue (HOther s) = s"

text \<open>One turn of the loop of \<^verbatim>\<open>headersHandler\<close>, and the deferred \<^verbatim>\<open>injectSpan\<close>, which runs on a panic too.\<close>

definition handle_header :: "fiber_env \<Rightarrow> string \<times> HeaderHandler \<Rightarrow> 'st observed exchange \<Rightarrow> 'st observed exchange" where
  "handle_header fe nh e =
     (let header = snd nh (Peek (fe_canon fe) (fst nh) (xc_request e));
          e1 = (case RequestValue header of
                  None \<Rightarrow> e
                | Some v \<Rightarrow> e\<lparr>xc_request := Set_header (fe_canon fe) (RequestKey header) (headerValue v) (xc_request e)\<rparr>);
          e2 = (case ResponseValue header of
                  None \<Rightarrow> e1
                | Some v \<Rightarrow> e1\<lparr>xc_response := Set_header (fe_canon fe) (ResponseKey header) (headerValue v) (xc_response e1)\<rparr>)
      in case LogValue header of
           None \<Rightarrow> e2
         | Some v \<Rightarrow>
             (let lg = Ctx (ob_logger (xc_state e2))
              in e2\<lparr>xc_state :=
                   WithContext (lg\<lparr>lg_fields := lg_fields lg @ [(LogKey header, fe_marshal fe v)]\<rparr>) (xc_state e2)\<rparr>))"

fun join_values :: "string \<Rightarrow> string list \<Rightarrow> string" where
  "join_values sep [] = []"
| "join_values sep [s] = s"
| "join_values sep (s # ss) = s @ sep @ join_values sep ss"

definition injectSpan :: "fiber_env \<Rightarrow> 's exchange \<Rightarrow> 's exchange" where
  "injectSpan fe e =
     e\<lparr>xc_response := fold (\<lambda>(key, values). Set_header (fe_canon fe) key (join_values '';'' values)) (fe_inject fe) (xc_response e)\<rparr>"

text \<open>\<^verbatim>\<open>makeSpan\<close>: of the new span of a request the model keeps its tags.\<close>

definition makeSpan :: "'st observed exchange \<Rightarrow> 'st observed exchange" where
  "makeSpan e = e\<lparr>xc_state := (xc_state e)\<lparr>ob_tags := [(''http.url'', xc_path e), (''http.method'', xc_method e)]\<rparr>\<rparr>"

declare makeSpan_def [simp]

definition headersHandler ::
    "fiber_env \<Rightarrow> (string \<times> HeaderHandler) range_order \<Rightarrow> (string \<times> HeaderHandler) list \<Rightarrow>
     'st observed handler \<Rightarrow> 'st observed handler" where
  "headersHandler fe order handlers nxt e =
     (let e1 = makeSpan e
      in run_map (injectSpan fe) (nxt (fold (handle_header fe) (range_in order handlers) e1)))"

text \<open>
  The handler of a route, for the service \<open>h\<close>, the batch limits of the server and the handlers of
  other services (\<open>other\<close>). The panic of
  \<^verbatim>\<open>doBatch\<close> is that of \<^verbatim>\<open>make\<close> on a channel of negative size, before any request is handled.
\<close>

definition exchange_ctx :: "(string \<Rightarrow> string) \<Rightarrow> 's exchange \<Rightarrow> fiber_ctx" where
  "exchange_ctx canon e =
     \<lparr>ctx_Method = xc_method e, ctx_Body = xc_body e, ctx_Token = Peek canon ''Token'' (xc_request e),
      ctx_SyncOn = Peek canon ''X-Sync-On'' (xc_request e)\<rparr>"

definition respond :: "'s exchange \<Rightarrow> http_response \<times> 's \<Rightarrow> 's exchange" where
  "respond e r = e\<lparr>xc_http := fst r, xc_state := snd r\<rparr>"

fun of_ends :: "'s exchange \<Rightarrow> (http_response \<times> 's) ends \<Rightarrow> 's exchange run" where
  "of_ends e (Returns r) = Finished (respond e r)"
| "of_ends e Blocks = Stuck"
| "of_ends e Panics = Crashed e ''makechan: size out of range''"

definition route_handler ::
    "(string \<Rightarrow> string) \<Rightarrow> (string \<Rightarrow> 's handler) \<Rightarrow> go_int \<Rightarrow> go_int \<Rightarrow> 's httpServerSettings \<Rightarrow> decoders \<Rightarrow>
     baseJsonRPC range_order \<Rightarrow> route \<Rightarrow> 's handler" where
  "route_handler canon other limit parallel h dec schedule r e =
     (let ctx = exchange_ctx canon e
      in case r of
           RootBatch \<Rightarrow> of_ends e (serve_batch limit parallel (Server_doSingleBatch h dec) dec schedule ctx (xc_state e))
         | SettingsBatch \<Rightarrow> of_ends e (serveBatch h dec schedule ctx (xc_state e))
         | SettingsMethod m \<Rightarrow>
             Finished (respond e
               (if m = ''getconnectionsnum'' then serveGetConnectionsNum h dec ctx (xc_state e)
                else if m = ''healthcheck'' then serveHealthCheck h dec ctx (xc_state e)
                else if m = ''getserversettings'' then serveGetServerSettings h dec ctx (xc_state e)
                else if m = ''createroom'' then serveCreateRoom h dec ctx (xc_state e)
                else serveGetDeletedRooms h dec ctx (xc_state e)))
         | OtherRoute path \<Rightarrow> other path e)"

text \<open>The chain that \<^verbatim>\<open>New\<close> registers before the routes.\<close>

definition app_handler ::
    "fiber_env \<Rightarrow> logger \<Rightarrow> (string \<times> HeaderHandler) range_order \<Rightarrow> (string \<times> HeaderHandler) list \<Rightarrow>
     'st observed handler \<Rightarrow> 'st observed handler" where
  "app_handler fe lg order handlers route =
     recoverHandler (setLogger lg (logLevelHandler fe (headersHandler fe order handlers route)))"

end
