(* ===== verification/ViewerProps.thy ===== *)
theory ViewerProps
  imports Viewer
begin

text \<open>
  What the pretty printer guarantees: masks hide what they say, addresses are printed in base 16,
  printing ends for values without cycles of pointers (and does not for a variable that holds its own
  address), and lists of strings.
\<close>

section \<open>Masking\<close>

text \<open>
  What a mask hides. \<^verbatim>\<open>hide\<close> keeps the length of the text and replaces exactly the bytes from \<open>f\<close>
  up to \<open>t\<close> by asterisks (up to the end when \<open>t\<close> is 0), and drops the text for the mask \<^verbatim>\<open>-\<close>; it
  panics exactly when a bound lies outside of the text.
\<close>

theorem hide_masks:
  "hide formula bs =
     (let (f, t) = hide_range formula (length bs); n = int (length bs)
      in if formula = ''-'' then Done []
         else if 0 \<le> f \<and> f \<le> n \<and> 0 \<le> t \<and> t \<le> n
         then Done (map (\<lambda>i. if f \<le> int i \<and> (t = 0 \<or> int i < t) then CHR ''*'' else bs ! i) [0..<length bs])
         else Panic)"
proof -
  obtain f t where ft: "hide_range formula (length bs) = (f, t)" by force
  have view: "take (nat f) bs @ stars (length bs - nat f) =
      map (\<lambda>i. if f \<le> int i then CHR ''*'' else bs ! i) [0..<length bs]" if "0 \<le> f" "f \<le> int (length bs)"
    using that by (intro nth_equalityI) (auto simp: stars_def nth_append)
  have cut: "take (nat t) (map (\<lambda>i. if f \<le> int i then CHR ''*'' else bs ! i) [0..<length bs]) @ drop (nat t) bs =
      map (\<lambda>i. if f \<le> int i \<and> int i < t then CHR ''*'' else bs ! i) [0..<length bs]" if "0 \<le> t" "t \<le> int (length bs)"
    using that by (intro nth_equalityI) (auto simp: nth_append min_def)
  show ?thesis
    by (cases "0 \<le> f \<and> f \<le> int (length bs)"; cases "0 \<le> t \<and> t \<le> int (length bs)")
      (auto simp: hide_def ft Let_def view cut)
qed

section \<open>Termination\<close>

fun below :: "nat \<Rightarrow> rval \<Rightarrow> bool" and below_kind :: "nat \<Rightarrow> rkind \<Rightarrow> bool" where
  "below a RInvalid = True"
| "below a (RVal info k) = below_kind a k"
| "below_kind a (KSlice p) = (case p of None \<Rightarrow> True | Some vs \<Rightarrow> list_all (below a) vs)"
| "below_kind a (KArray vs) = list_all (below a) vs"
| "below_kind a (KIface p) = (case p of None \<Rightarrow> True | Some v \<Rightarrow> below a v)"
| "below_kind a (KMap p) = (case p of None \<Rightarrow> True | Some es \<Rightarrow> list_all (\<lambda>(k, v). below a k \<and> below a v) es)"
| "below_kind a (KStruct fs) = list_all (\<lambda>(name, tag, v). below a v) fs"
| "below_kind a (KPtr p) = (case p of None \<Rightarrow> True | Some b \<Rightarrow> b < a)"
| "below_kind a k = True"

definition acyclic_heap :: "(nat \<Rightarrow> rval option) \<Rightarrow> bool" where
  "acyclic_heap h \<longleftrightarrow> (\<forall>a v. h a = Some v \<longrightarrow> below a v)"

definition fine :: "view_option option list \<Rightarrow> bool" where
  "fine opts \<longleftrightarrow> (\<forall>f s. Some f \<in> set opts \<longrightarrow> f s \<noteq> Hang)"

lemma hide_ends: "hide formula bs \<noteq> Hang"
  by (simp add: hide_def Let_def case_prod_unfold)

lemma fine_tag: "fine [tagToOption tag]" and fine_Nil: "fine []"
  by (auto simp: fine_def tagToOption_def hide_ends split: list.splits if_splits)

lemma applyOptions_ends: "fine opts \<Longrightarrow> applyOptions bs opts \<noteq> Hang"
  by (induction bs opts rule: applyOptions.induct) (auto simp: fine_def split: outcome.splits)

lemma printHexPtr_ends: "printHexPtr p \<noteq> Hang"
  by (auto simp: printHexPtr_def split: option.splits)

lemma write_Hang [simp]: "write_outcome r st = Hang \<longleftrightarrow> r = Hang"
  by (cases r) (simp_all add: write_outcome_def)

lemma bind_Hang [simp]: "bind_outcome r f = Hang \<longleftrightarrow> r = Hang \<or> (\<exists>x. r = Done x \<and> f x = Hang)"
  by (cases r) (simp_all add: bind_outcome_def)

lemma each_ends: "(\<And>x st. x \<in> set xs \<Longrightarrow> f x st \<noteq> Hang) \<Longrightarrow> each f xs st \<noteq> Hang"
  by (induction xs arbitrary: st) auto

text \<open>The walk over \<open>v\<close> ends with fuel \<open>n\<close> or more.\<close>

definition ends :: "format_env \<Rightarrow> nat \<Rightarrow> rval \<Rightarrow> bool" where
  "ends env n v \<longleftrightarrow> (\<forall>m \<ge> n. \<forall>opts st. fine opts \<longrightarrow> format m env opts v st \<noteq> Hang)"

lemma ends_mono: "ends env n v \<Longrightarrow> n \<le> n' \<Longrightarrow> ends env n' v"
  by (simp add: ends_def)

lemma ends_all:
  assumes "\<forall>v \<in> set vs. \<exists>n. ends env n v"
  shows "\<exists>n. \<forall>v \<in> set vs. ends env n v"
  using assms
proof (induction vs)
  case (Cons v vs)
  then obtain n n' where "ends env n v" "\<forall>v \<in> set vs. ends env n' v" by auto
  then show ?case by (intro exI [of _ "max n n'"]) (auto intro: ends_mono)
qed simp

definition unpacked :: "rval \<Rightarrow> rval" where
  "unpacked v = (case v of RVal info (KIface (Some u)) \<Rightarrow> u | _ \<Rightarrow> v)"

lemma unpackValue_fst: "fst (unpackValue v st) = unpacked v"
  by (induction v st rule: unpackValue.induct) (auto simp: unpacked_def split: option.splits)

lemma unpacked_below: "below a v \<Longrightarrow> below a (unpacked v)"
  by (auto simp: unpacked_def split: rval.splits rkind.splits option.splits)

lemma unpacked_size: "size (unpacked v) \<le> size v"
  by (auto simp: unpacked_def split: rval.splits rkind.splits option.splits)

lemma element_ends: "ends env m (unpacked v) \<Longrightarrow> m \<le> n \<Longrightarrow> element (format n env []) (i, v) st \<noteq> Hang"
  by (simp add: element_def ends_def fine_Nil case_prod_unfold Let_def unpackValue_fst)

lemma entry_ends:
  "ends env m (unpacked k) \<Longrightarrow> ends env m (unpacked v) \<Longrightarrow> m \<le> n \<Longrightarrow> entry (format n env []) (i, k, v) st \<noteq> Hang"
  by (simp add: entry_def ends_def fine_Nil case_prod_unfold Let_def unpackValue_fst)

lemma field_ends: "ends env m (unpacked v) \<Longrightarrow> m \<le> n \<Longrightarrow> field_text env (format n env) (i, name, tag, v) st \<noteq> Hang"
  by (simp add: field_text_def ends_def fine_tag case_prod_unfold Let_def unpackValue_fst)

lemma string_value_ends: "ends env 1 (string_value s)"
proof -
  have "format (Suc m) env opts (string_value s) st \<noteq> Hang" if "fine opts" for m opts st
    using applyOptions_ends [OF that] by (simp add: string_value_def Let_def)
  then show ?thesis unfolding ends_def by (metis Suc_le_D One_nat_def)
qed

lemma enumerated: "e \<in> set (List.enumerate j xs) \<Longrightarrow> snd e \<in> set xs"
  by (metis enumerate_eq_zip in_set_zipE prod.collapse)

lemma format_list_ends:
  assumes "\<forall>v \<in> set vs. ends env m (unpacked v)" and "m \<le> n" and "1 \<le> n"
  shows "format_list env (format n env []) vs st \<noteq> Hang"
proof -
  have el: "each (element (format n env [])) ivs st \<noteq> Hang" if "set ivs \<subseteq> set (List.enumerate 0 vs)" for ivs st
  proof (rule each_ends)
    fix iv st assume "iv \<in> set ivs"
    with that have "snd iv \<in> set vs" using enumerated by blast
    then show "element (format n env []) iv st \<noteq> Hang"
      using element_ends [of env m "snd iv" n "fst iv" st] assms by simp
  qed
  have "format n env [] (string_value s) st \<noteq> Hang" for s st
    using string_value_ends [of env s] assms(3) by (simp add: ends_def fine_Nil)
  then show ?thesis
    using el [of "List.enumerate 0 vs"] el [OF set_take_subset] el [OF set_drop_subset]
    by (simp add: format_list_def Let_def)
qed

lemma follow_step:
  assumes "heap env b = Some t"
  obtains (stops) u j e qs where "follow (Suc m) env depth (RVal info (KPtr (Some b))) i ps = Done (u, j, e, qs)" "e \<noteq> Reached"
    | (goes_on) j qs where "follow (Suc m) env depth (RVal info (KPtr (Some b))) i ps = follow m env depth (unpacked t) j qs"
proof -
  let ?F = "follow (Suc m) env depth (RVal info (KPtr (Some b))) i ps"
  have "(\<exists>u j e qs. ?F = Done (u, j, e, qs) \<and> e \<noteq> Reached) \<or> (\<exists>j qs. ?F = follow m env depth (unpacked t) j qs)"
    using assms by (auto simp: unpacked_def Let_def split: rval.splits rkind.splits option.splits)
  then show thesis using stops goes_on by blast
qed

lemma chain_ends:
  assumes "acyclic_heap (heap env)" and "below a ve" and "a < m"
  shows "follow m env depth ve i ps \<noteq> Hang \<and>
    (\<forall>u j ps'. follow m env depth ve i ps = Done (u, j, Reached, ps') \<longrightarrow> u = ve \<or> (\<exists>b < a. \<exists>t. heap env b = Some t \<and> u = unpacked t))"
  using assms(2,3)
proof (induction m arbitrary: a ve i ps)
  case (Suc m)
  show ?case
  proof (cases "\<exists>info b. ve = RVal info (KPtr (Some b))")
    case True
    then obtain info b where ve: "ve = RVal info (KPtr (Some b))" by blast
    with Suc.prems have b: "b < a" "b < m" by auto
    show ?thesis
    proof (cases "heap env b")
      case (Some t)
      then have t: "below b (unpacked t)" using assms(1) unpacked_below by (auto simp: acyclic_heap_def)
      note IH = Suc.IH [OF t b(2)]
      show ?thesis
        using Some
      proof (cases rule: follow_step [where m = m and depth = depth and info = info and i = i and ps = ps])
        case stops
        then show ?thesis by (simp add: ve del: follow.simps)
      next
        case goes_on
        with IH [of _ _] Some b(1) show ?thesis by (simp add: ve del: follow.simps) (meson less_trans)
      qed
    qed (simp add: ve)
  next
    case False
    then show ?thesis by (auto split: rval.splits rkind.splits option.splits)
  qed
qed simp

lemma follow_Reached: "follow m env d v i ps = Done (u, j, Reached, qs) \<Longrightarrow> \<not> (\<exists>info p. u = RVal info (KPtr p))"
proof (induction m arbitrary: v i ps)
  case (Suc m)
  show ?case
  proof (cases "\<exists>info b. v = RVal info (KPtr (Some b))")
    case True
    then obtain info b where v: "v = RVal info (KPtr (Some b))" by blast
    show ?thesis
    proof (cases "heap env b")
      case None
      then show ?thesis using Suc.prems by (simp add: v Let_def split: option.splits if_splits)
    next
      case (Some t)
      then show ?thesis
      proof (cases rule: follow_step [where m = m and depth = d and info = info and i = i and ps = ps])
        case goes_on
        then show ?thesis using Suc by (simp add: v del: follow.simps)
      qed (use Suc.prems in \<open>simp add: v del: follow.simps\<close>)
    qed
  next
    case False
    then show ?thesis using Suc.prems by (auto split: rval.splits rkind.splits option.splits)
  qed
qed simp

text \<open>Bounds for what the addresses below \<open>a\<close> hold give a bound for every value that points below \<open>a\<close>.\<close>

lemma formatPtr_ends:
  assumes "acyclic_heap (heap env)" and "below a v" and "a < n" and "m \<le> n"
    and "\<And>b t. b < a \<Longrightarrow> heap env b = Some t \<Longrightarrow> ends env m (unpacked t)"
    and "v = RVal info (KPtr p)"
  shows "formatPtr n env (format n env []) v (p = None) st \<noteq> Hang"
proof -
  have "follow n env d v 0 ps \<noteq> Hang" "\<And>u j ps'. follow n env d v 0 ps = Done (u, j, Reached, ps') \<Longrightarrow> format n env [] u st' \<noteq> Hang"
    for d ps st'
  proof -
    show "follow n env d v 0 ps \<noteq> Hang" using chain_ends [OF assms(1-3)] by blast
    fix u j ps' assume F: "follow n env d v 0 ps = Done (u, j, Reached, ps')"
    then have "u \<noteq> v" using follow_Reached assms(6) by blast
    then obtain b t where "b < a" "heap env b = Some t" "u = unpacked t" using chain_ends [OF assms(1-3)] F by blast
    with assms(4,5) show "format n env [] u st' \<noteq> Hang" by (simp add: ends_def fine_Nil)
  qed
  then show ?thesis
    by (auto simp: formatPtr_def Let_def split: outcome.splits chain_end.splits)
qed

lemma size_part: "x \<in> set xs \<Longrightarrow> f x < Suc (size_list f xs)"
  by (induction xs) auto

lemma kind_ends:
  assumes "acyclic_heap (heap env)" and "below_kind a k"
    and heap: "\<And>b t. b < a \<Longrightarrow> heap env b = Some t \<Longrightarrow> ends env m (unpacked t)"
    and parts: "\<And>u. size u < size k \<Longrightarrow> below a u \<Longrightarrow> ends env m (unpacked u)"
    and n: "m \<le> n" "a < n" "1 \<le> n" and opts: "fine opts"
  shows "format (Suc n) env opts (RVal info k) st \<noteq> Hang"
proof -
  have list: "format_list env (format n env []) vs st \<noteq> Hang" if "\<forall>v \<in> set vs. size v < size k \<and> below a v" for vs st
    using that parts n by (intro format_list_ends [of _ _ m]) auto
  have entries: "each (entry (format n env [])) (List.enumerate 0 es) st \<noteq> Hang"
    if "\<forall>(x, y) \<in> set es. size x < size k \<and> below a x \<and> size y < size k \<and> below a y" for es st
  proof (rule each_ends)
    fix e st assume "e \<in> set (List.enumerate 0 es)"
    from enumerated [OF this] obtain i x y where "e = (i, x, y)" "(x, y) \<in> set es" by (metis prod.collapse)
    with that parts entry_ends [OF _ _ n(1), of env x y i st] show "entry (format n env []) e st \<noteq> Hang" by fastforce
  qed
  have fields: "each (field_text env (format n env)) (List.enumerate 0 fs) st \<noteq> Hang"
    if "\<forall>(name, tag, v) \<in> set fs. size v < size k \<and> below a v" for fs st
  proof (rule each_ends)
    fix e st assume "e \<in> set (List.enumerate 0 fs)"
    from enumerated [OF this] obtain i name tag v where "e = (i, name, tag, v)" "(name, tag, v) \<in> set fs" by (metis prod.collapse)
    with that parts field_ends [OF _ n(1), of env v i name tag st] show "field_text env (format n env) e st \<noteq> Hang" by fastforce
  qed
  note ptr = formatPtr_ends [OF assms(1) _ n(2,1) heap]
  have parts_small: "k = KSlice (Some vs) \<or> k = KArray vs \<Longrightarrow> \<forall>v \<in> set vs. size v < size k \<and> below a v"
      "k = KMap (Some es) \<Longrightarrow> \<forall>(x, y) \<in> set es. size x < size k \<and> below a x \<and> size y < size k \<and> below a y"
      "k = KStruct fs \<Longrightarrow> \<forall>(name, tag, v) \<in> set fs. size v < size k \<and> below a v" for vs es fs
    using assms(2) size_part [of _ vs size] size_part [of _ es "size_prod size size"]
      size_part [of _ fs "size_prod (\<lambda>_. 0) (size_prod (\<lambda>_. 0) size)"]
    by (auto simp: list_all_iff, fastforce+)
  note ends_simps = Let_def applyOptions_ends [OF opts] printHexPtr_ends
  show ?thesis
  proof (cases k)
    case (KSlice p)
    then show ?thesis using list parts_small(1) by (cases p) (simp_all add: ends_simps split: option.split method_call.split)
  next
    case (KArray vs)
    then show ?thesis using list parts_small(1) by (simp add: ends_simps split: option.split method_call.split)
  next
    case (KMap p)
    then show ?thesis using entries parts_small(2) by (cases p) (simp_all add: ends_simps split: option.split method_call.split)
  next
    case (KStruct fs)
    then show ?thesis using fields parts_small(3) by (simp add: ends_simps split: option.split method_call.split)
  next
    case (KPtr p)
    then show ?thesis using ptr [of "RVal info k"] assms(2) by (simp add: ends_simps split: option.split method_call.split)
  qed (simp_all add: ends_simps split: option.split method_call.split)
qed

lemma value_ends:
  assumes "acyclic_heap (heap env)" and "\<forall>b < a. \<forall>t. heap env b = Some t \<longrightarrow> ends env m (unpacked t)"
  shows "below a v \<Longrightarrow> ends env (max m (a + 1) + Suc (size v)) v"
proof (induction "size v" arbitrary: v rule: less_induct)
  case less
  show ?case
  proof (cases v)
    case RInvalid
    have "format (Suc n) env opts RInvalid st \<noteq> Hang" for n opts st by simp
    then show ?thesis unfolding RInvalid ends_def by (metis Suc_le_D add_Suc_right)
  next
    case (RVal info k)
    let ?m = "max m (a + 1) + size k"
    have "format (Suc n) env opts (RVal info k) st \<noteq> Hang" if "?m \<le> n" "fine opts" for n opts st
    proof (rule kind_ends [OF assms(1), of a k ?m])
      show "ends env ?m (unpacked u)" if "size u < size k" "below a u" for u
      proof -
        have "ends env (max m (a + 1) + Suc (size (unpacked u))) (unpacked u)"
          using that unpacked_size [of u] unpacked_below RVal by (intro less.hyps) auto
        then show ?thesis by (rule ends_mono) (use that unpacked_size [of u] in simp)
      qed
      show "ends env ?m (unpacked t)" if "b < a" "heap env b = Some t" for b t
        by (rule ends_mono [of env m]) (use assms(2) that in auto)
    qed (use less.prems RVal that in auto)
    then have "format n env opts v st \<noteq> Hang" if "Suc ?m \<le> n" "fine opts" for n opts st
      using that by (cases n) (simp_all add: RVal del: format.simps)
    then show ?thesis by (simp add: RVal ends_def)
  qed
qed

text \<open>A bound for all addresses below \<open>a\<close>, and so for every value of an acyclic heap.\<close>

lemma addresses_end:
  assumes "acyclic_heap (heap env)"
  shows "\<exists>m. \<forall>b < a. \<forall>t. heap env b = Some t \<longrightarrow> ends env m (unpacked t)"
proof (induction a)
  case (Suc a)
  then obtain m where m: "\<forall>b < a. \<forall>t. heap env b = Some t \<longrightarrow> ends env m (unpacked t)" by blast
  show ?case
  proof (cases "heap env a")
    case None
    with m show ?thesis by (metis less_antisym option.distinct(1))
  next
    case (Some t)
    then have "below a (unpacked t)" using assms unpacked_below by (auto simp: acyclic_heap_def)
    then have a: "ends env (max m (a + 1) + Suc (size (unpacked t))) (unpacked t)" using value_ends [OF assms m] by blast
    show ?thesis
    proof (intro exI [of _ "max m (a + 1) + Suc (size (unpacked t))"] allI impI)
      fix b u assume bu: "b < Suc a" "heap env b = Some u"
      show "ends env (max m (a + 1) + Suc (size (unpacked t))) (unpacked u)"
      proof (cases "b = a")
        case False
        with bu m have "ends env m (unpacked u)" by (meson less_SucE)
        then show ?thesis by (rule ends_mono) simp
      qed (use bu a Some in simp)
    qed
  qed
qed simp

lemma below_mono: "below a v \<Longrightarrow> a \<le> b \<Longrightarrow> below b v" and "below_kind a k \<Longrightarrow> a \<le> b \<Longrightarrow> below_kind b k"
  by (induction a v and a k rule: below_below_kind.induct) (fastforce simp: list_all_iff split: option.splits)+

lemma below_all: "\<forall>v \<in> set vs. \<exists>a. below a v \<Longrightarrow> \<exists>a. \<forall>v \<in> set vs. below a v"
proof (induction vs)
  case (Cons v vs)
  then obtain a b where "below a v" "\<forall>v \<in> set vs. below b v" by auto
  then show ?case by (intro exI [of _ "max a b"]) (auto intro: below_mono)
qed simp

lemma below_some: "\<exists>a. below a v"
proof (induction "size v" arbitrary: v rule: less_induct)
  case less
  then have parts: "\<exists>a. \<forall>u \<in> set us. below a u" if "\<forall>u \<in> set us. size u < size v" for us
    using that by (intro below_all) blast
  show ?case
  proof (cases v)
    case (RVal info k)
    show ?thesis
    proof (cases k)
      case (KSlice p)
      then show ?thesis
        using RVal parts [of "the p"] size_part [of _ "the p" size] by (cases p) (fastforce simp: list_all_iff)+
    next
      case (KArray vs)
      then show ?thesis using RVal parts [of vs] size_part [of _ vs size] by (fastforce simp: list_all_iff)
    next
      case (KIface p)
      then show ?thesis using RVal less by (cases p) auto
    next
      case (KMap p)
      show ?thesis
      proof (cases p)
        case (Some es)
        have "\<forall>u \<in> set (map fst es @ map snd es). size u < size v"
          using size_part [of _ es "size_prod size size"] by (fastforce simp: RVal KMap Some)
        from parts [OF this] obtain a where "\<forall>u \<in> set (map fst es @ map snd es). below a u" by blast
        then have "below a v" by (force simp: RVal KMap Some list_all_iff)
        then show ?thesis by blast
      qed (simp add: RVal KMap)
    next
      case (KStruct fs)
      then show ?thesis
        using RVal parts [of "map (snd \<circ> snd) fs"] size_part [of _ fs "size_prod (\<lambda>_. 0) (size_prod (\<lambda>_. 0) size)"]
        by (fastforce simp: list_all_iff)
    next
      case (KPtr p)
      then show ?thesis using RVal by (cases p) auto
    qed (simp_all add: RVal)
  qed simp
qed

lemma acyclic_ends:
  assumes "acyclic_heap (heap env)"
  shows "\<exists>n. ends env n v"
proof -
  obtain a where a: "below a v" using below_some by blast
  obtain m where "\<forall>b < a. \<forall>t. heap env b = Some t \<longrightarrow> ends env m (unpacked t)"
    using addresses_end [OF assms] by blast
  from value_ends [OF assms this a] show ?thesis by blast
qed

text \<open>
  C39: printing ends. When no value on the heap refers to itself, through however many pointers,
  \<^verbatim>\<open>Sprintf("%+v", x)\<close> returns a text: from some fuel on the walk of every value ends, and a panic of it is
  recovered.
\<close>

theorem format_terminates:
  assumes "acyclic_heap h"
  shows "\<exists>n. \<forall>m \<ge> n. \<exists>s. Sprintf_plus m h note x = Done s"
proof -
  let ?env = "\<lparr>flag_sharp = False, flag_plus = True, MaxDepth = Config_MaxDepth, heap = h\<rparr>"
  obtain n where "ends ?env n x" using acyclic_ends [of ?env] assms by auto
  then have "format m ?env [] x new_formatState \<noteq> Hang" if "n \<le> m" for m
    using that by (simp add: ends_def fine_Nil)
  then have "\<exists>s. Sprintf_plus m h note x = Done s" if "n \<le> m" for m
    using that by (auto simp: Sprintf_plus_def Format_def bind_outcome_def split: outcome.splits)
  then show ?thesis by blast
qed

text \<open>A pointer to a slice that holds a pointer to a number and a nil pointer.\<close>

definition typed_value :: "string \<Rightarrow> rkind \<Rightarrow> rval" where
  "typed_value ty k = RVal \<lparr>vi_Type = ty, vi_String = None, vi_Dump = None\<rparr> k"

definition sample_heap :: "nat \<Rightarrow> rval option" where
  "sample_heap =
     [0 \<mapsto> typed_value ''int'' (KInt 7),
      1 \<mapsto> typed_value ''[]*int'' (KSlice (Some [typed_value ''*int'' (KPtr (Some 0)), typed_value ''*int'' (KPtr None)]))]"

theorem format_terminates_witness:
  "acyclic_heap sample_heap \<and>
   (\<exists>n. \<forall>m \<ge> n. \<exists>s. Sprintf_plus m sample_heap (\<lambda>_. []) (typed_value ''*[]*int'' (KPtr (Some 1))) = Done s)"
proof -
  have "acyclic_heap sample_heap" by (simp add: acyclic_heap_def sample_heap_def typed_value_def)
  then show ?thesis using format_terminates by blast
qed

text \<open>
  A variable of type \<^verbatim>\<open>interface{}\<close> that holds its own address is followed for ever: the depth at
  which its address is noted is never below the depth of the walk.
\<close>

lemma self_pointer_hangs:
  "h a = Some (RVal info (KIface (Some (typed_value ty (KPtr (Some a)))))) \<Longrightarrow>
     Sprintf_plus n h note (typed_value ty (KPtr (Some a))) = Hang"
proof -
  assume h: "h a = Some (RVal info (KIface (Some (typed_value ty (KPtr (Some a))))))"
  have loops: "follow m \<lparr>flag_sharp = False, flag_plus = True, MaxDepth = Config_MaxDepth, heap = h\<rparr> 0
      (typed_value ty (KPtr (Some a))) i ps = Hang" if "\<forall>d. map_of ps a = Some d \<longrightarrow> d = 0" for m i ps
    using that
  proof (induction m arbitrary: i ps)
    case (Suc m)
    then show ?case by (auto simp: typed_value_def h update_conv' split: option.splits)
  qed simp
  show ?thesis
    using loops [of "[]"]
    by (cases n) (simp_all add: Sprintf_plus_def Format_def typed_value_def formatPtr_def bind_outcome_def new_formatState_def)
qed

section \<open>Lists of more than sixteen entries\<close>

definition spaced_texts :: "string list \<Rightarrow> string" where
  "spaced_texts ss = concat (map (\<lambda>s. '' '' @ s) ss)"

lemma Write_Write [simp]: "Write t (Write s st) = Write (s @ t) st"
  by (simp add: Write_def)

lemma string_format: "format (Suc n) env [] (string_value s) (st\<lparr>f_ignoreNextType := True\<rparr>) = Done ((Write s st)\<lparr>f_ignoreNextType := False\<rparr>)"
  by (simp add: string_value_def set_ignore_def Write_def write_outcome_def Let_def)

lemma take_enumerate: "take k (List.enumerate j xs) = List.enumerate j (take k xs)"
  by (induction xs arbitrary: j k) (simp_all add: take_Cons' )

lemma drop_enumerate: "drop k (List.enumerate j xs) = List.enumerate (j + k) (drop k xs)"
  by (induction xs arbitrary: j k) (simp_all add: drop_Cons split: nat.split)

lemma strings_later:
  "0 < j \<Longrightarrow> f_ignoreNextType st = False \<Longrightarrow>
     each (element (format (Suc n) env [])) (List.enumerate j (map string_value ss)) st = Done (Write (spaced_texts ss) st)"
proof (induction ss arbitrary: j st)
  case Nil
  then show ?case by (simp add: spaced_texts_def Write_def)
next
  case (Cons s ss)
  have "element (format (Suc n) env []) (j, string_value s) st = Done (Write ('' '' @ s) st)"
    using Cons.prems string_format [of n env s "Write '' '' st"]
    by (simp add: element_def spaced_def set_ignore_def string_value_def Write_def)
  then show ?case using Cons by (simp add: bind_outcome_def spaced_texts_def Write_def)
qed

lemma strings_first:
  "f_ignoreNextType st = False \<Longrightarrow> ss \<noteq> [] \<Longrightarrow>
     each (element (format (Suc n) env [])) (List.enumerate 0 (map string_value ss)) st = Done (Write (tl (spaced_texts ss)) st)"
proof (cases ss)
  case (Cons s rest)
  assume st: "f_ignoreNextType st = False"
  have "element (format (Suc n) env []) (0, string_value s) st = Done (Write s st)"
    using st string_format [of n env s st]
    by (simp add: element_def spaced_def set_ignore_def string_value_def Write_def)
  then show ?thesis
    using Cons strings_later [of 1 "Write s st" n env rest] st by (simp add: bind_outcome_def spaced_texts_def Write_def)
qed simp

text \<open>
  Lists of strings as \<^verbatim>\<open>%+v\<close> prints them, the list of rooms of \<^verbatim>\<open>GetDeletedRooms\<close> for one. Up to 16 entries
  stand in brackets with spaces between them; of more, the first and the last four are shown around
  their number, and the bracket is not closed.
\<close>

theorem list_of_strings_text:
  "Sprintf_plus (Suc (Suc n)) h note (typed_value ty (KSlice (Some (map string_value ss)))) =
     Done (if length ss \<le> 16 then ''['' @ tl (spaced_texts ss) @ '']''
           else ''['' @ tl (spaced_texts (take 4 ss)) @ '' <-['' @ Itoa (length ss) @ '']->'' @
             spaced_texts (drop (length ss - 4) ss))"
proof -
  let ?env = "\<lparr>flag_sharp = False, flag_plus = True, MaxDepth = 0, heap = h\<rparr>"
  let ?go = "format (Suc n) ?env []"
  have opened: "deeper 1 (Write ''['' new_formatState) = \<lparr>f_depth = 1, f_pointers = [], f_ignoreNextType = False, f_out = ''[''\<rparr>"
    (is "_ = ?st") by (simp add: deeper_def Write_def new_formatState_def)
  have all: "each (element ?go) (List.enumerate 0 (map string_value xs)) ?st = Done (Write (tl (spaced_texts xs)) ?st)" for xs
    by (cases "xs = []") (simp_all add: strings_first, simp add: spaced_texts_def Write_def)
  have mid: "?go (string_value s) (Write x ?st) = Done (Write (x @ s) ?st)" for s x
    by (simp add: string_value_def set_ignore_def Write_def write_outcome_def Let_def)
  have last: "each (element ?go) (List.enumerate j (map string_value xs)) (Write x ?st) = Done (Write (x @ spaced_texts xs) ?st)" if "0 < j" for j xs x
    using strings_later [OF that, of "Write x ?st"] by (simp add: Write_def)
  have "format_list ?env ?go (map string_value ss) new_formatState =
      Done (if length ss \<le> 16 then Write '']'' (deeper (- 1) (Write (tl (spaced_texts ss)) ?st))
            else Write (tl (spaced_texts (take 4 ss)) @ '' <-['' @ Itoa (length ss) @ '']->'' @ spaced_texts (drop (length ss - 4) ss)) ?st)"
    unfolding format_list_def Let_def opened
    by (simp add: all mid last take_enumerate drop_enumerate take_map drop_map bind_outcome_def)
  then show ?thesis
    by (simp add: Sprintf_plus_def Format_def Config_MaxDepth_def typed_value_def set_ignore_def new_formatState_def bind_outcome_def)
      (auto simp: Write_def deeper_def)
qed

section \<open>Addresses\<close>

text \<open>The reference definition of a text in base 16.\<close>

fun hex_text :: "nat \<Rightarrow> string" where
  "hex_text n = (if n < 16 then [hexDigits ! n] else hex_text (n div 16) @ [hexDigits ! (n mod 16)])"

declare hex_text.simps [simp del]

lemma hex_text_length: "n < 16 ^ Suc k \<Longrightarrow> length (hex_text n) \<le> Suc k"
proof (induction k arbitrary: n)
  case 0
  then show ?case by (subst hex_text.simps) simp
next
  case (Suc k)
  then have "n div 16 < 16 ^ Suc k" by (simp add: less_mult_imp_div_less)
  from Suc.IH [OF this] show ?case by (subst hex_text.simps) simp
qed

lemma hex_fill_text:
  "length (hex_text num) \<le> Suc i \<Longrightarrow> i < length buf \<Longrightarrow>
     hex_fill num i buf =
       Some (Suc i - length (hex_text num), take (Suc i - length (hex_text num)) buf @ hex_text num @ drop (Suc i) buf)"
proof (induction num arbitrary: i buf rule: hex_text.induct)
  case (1 n)
  show ?case
  proof (cases "n < 16")
    case True
    with "1.prems" show ?thesis by (subst hex_fill.simps) (simp add: hex_text.simps [of n] upd_conv_take_nth_drop)
  next
    case False
    from False have unfold: "hex_text n = hex_text (n div 16) @ [hexDigits ! (n mod 16)]" by (subst hex_text.simps) simp
    have pos: "0 < length (hex_text (n div 16))" by (subst hex_text.simps) simp
    with "1.prems" unfold obtain j where i: "i = Suc j" by (cases i) auto
    have "drop (Suc j) (buf[Suc j := x]) = x # drop (Suc (Suc j)) buf" for x
      using "1.prems" i by (metis Cons_nth_drop_Suc drop_update_cancel length_list_update lessI nth_list_update_eq)
    then show ?thesis
      using False "1.prems" "1.IH" [OF False, of j "buf[i := hexDigits ! (n mod 16)]"] pos
      by (subst hex_fill.simps) (simp add: i unfold)
  qed
qed

text \<open>
  The text of an address. The loop that fills a buffer of 18 bytes from its end never leaves the
  buffer and writes \<^verbatim>\<open>0x\<close> and the digits of the number in base 16, for every 64-bit number but 0.
\<close>

theorem printHexPtr_text: "printHexPtr p = Done (if p = 0 then ''<nil>'' else ''0x'' @ hex_text (unat p))"
proof -
  let ?d = "hex_text (unat p)"
  have "unat p < 16 ^ Suc 15" using unsigned_less [of p] by simp
  then have len: "length ?d \<le> 16" using hex_text_length by fastforce
  let ?i = "18 - length ?d" and ?buf = "replicate 18 (char_of (0 :: nat))"
  have fill: "hex_fill (unat p) 17 ?buf = Some (?i, take ?i ?buf @ ?d)"
    using hex_fill_text [of "unat p" 17 ?buf] len by simp
  have k: "?i = Suc (Suc (16 - length ?d))" using len by simp
  have tail: "drop k ((replicate (Suc (Suc k)) c @ ds)[Suc k := x, k := z]) = z # x # ds" for k c x z and ds :: string
    by (induction k) simp_all
  have "take ?i ?buf = replicate (Suc (Suc (16 - length ?d))) (char_of (0 :: nat))" using len by (simp add: min_def flip: k)
  then show ?thesis using fill k tail [of "16 - length ?d"] len by (simp add: printHexPtr_def del: replicate.simps)
qed

end
