(* ===== verification/MiddlewareProps.thy ===== *)
theory MiddlewareProps
  imports Middleware JsonRpcProps ViewerProps
begin

text \<open>
  What the handlers and middleware around the endpoints guarantee: logging and tracing change
  neither responses nor the state of the service (locale \<open>transparent\<close>, interpreted for both
  dispatchers and every method), what one logged call looks like, that request ids are echoed, and
  that a panic is answered.
\<close>

section \<open>Middleware does not change what a request does\<close>

text \<open>
  Two method handlers over different states, where \<open>erase\<close> forgets what only the second one keeps: they
  give the same responses and leave the same state behind. The endpoints built on them then do too.
\<close>

locale transparent =
  fixes single :: "'st methodJsonRPC" and single' :: "'t methodJsonRPC" and erase :: "'t \<Rightarrow> 'st"
  assumes commutes: "map_prod id erase (single' ctx request s) = single ctx request (erase s)"
begin

lemma answer_all_commutes:
  "map_prod id erase (answer_all single' ctx requests rs s) = answer_all single ctx requests rs (erase s)"
proof (induction requests arbitrary: rs s)
  case (Cons request requests)
  obtain r s' where "single' ctx request s = (r, s')" by force
  with commutes [of ctx request s] Cons show ?case by (auto split: prod.split)
qed simp

lemma do_batch_commutes:
  "map_ends (map_prod id erase) (do_batch limit parallel single' schedule ctx requests s) =
     do_batch limit parallel single schedule ctx requests (erase s)"
  by (simp add: do_batch_def Let_def answer_all_commutes)

lemma serve_batch_commutes:
  "map_ends (map_prod id erase) (serve_batch limit parallel single' dec schedule ctx s) =
     serve_batch limit parallel single dec schedule ctx (erase s)"
proof (cases "Option.bind (ctx_Body ctx) decode_requests")
  case None
  then show ?thesis
    by (auto simp: serve_batch_def simp flip: commutes split: option.splits prod.splits)
next
  case (Some requests)
  then show ?thesis
    using do_batch_commutes [of limit parallel schedule ctx requests s, symmetric]
    by (cases "do_batch limit parallel single' schedule ctx requests s") (auto simp: serve_batch_def)
qed

lemma serveMethod_commutes:
  "map_prod id erase (serveMethod dec name single' ctx s) = serveMethod dec name single ctx (erase s)"
  by (auto simp: serveMethod_def Let_def simp flip: commutes split: option.splits prod.splits)

end

text \<open>A service on the observed state, and stacks of middleware on it: logging (\<open>Some\<close>) and tracing (\<open>None\<close>) in any order.\<close>

definition on_base :: "('st \<Rightarrow> 'r \<times> 'st) \<Rightarrow> 'st observed \<Rightarrow> 'r \<times> 'st observed" where
  "on_base f s = map_prod id (\<lambda>b. s\<lparr>ob_base := b\<rparr>) (f (ob_base s))"

definition observed_api :: "'st api_ServerSettings \<Rightarrow> 'st observed api_ServerSettings" where
  "observed_api a =
     \<lparr>api_GetConnectionsNum = (\<lambda>tok. on_base (api_GetConnectionsNum a tok)),
      api_HealthCheck = (\<lambda>tok. on_base (api_HealthCheck a tok)),
      api_GetServerSettings = (\<lambda>tok. on_base (api_GetServerSettings a tok)),
      api_CreateRoom = (\<lambda>tok ttl. on_base (api_CreateRoom a tok ttl)),
      api_GetDeletedRooms = (\<lambda>tok ids. on_base (api_GetDeletedRooms a tok ids))\<rparr>"

fun stacked :: "log_env option list \<Rightarrow> 'st observed httpServerSettings \<Rightarrow> 'st observed httpServerSettings" where
  "stacked [] h = h"
| "stacked (None # ms) h = stacked ms (http_WithTrace h)"
| "stacked (Some env # ms) h = stacked ms (http_WithLog env h)"

definition settings_service ::
    "'st api_ServerSettings \<Rightarrow> go_int \<Rightarrow> go_int \<Rightarrow> (error \<Rightarrow> error \<times> int option) option \<Rightarrow> 'st httpServerSettings" where
  "settings_service a limit parallel eh =
     WithErrorHandler eh ((NewServerSettings_http a)\<lparr>maxBatchSize := limit, maxParallelBatch := parallel\<rparr>)"

definition same_call :: "('st observed \<Rightarrow> 'r \<times> 'st observed) \<Rightarrow> ('st \<Rightarrow> 'r \<times> 'st) \<Rightarrow> bool" where
  "same_call f g \<longleftrightarrow> (\<forall>s. map_prod id ob_base (f s) = g (ob_base s))"

definition same_api :: "'st observed api_ServerSettings \<Rightarrow> 'st api_ServerSettings \<Rightarrow> bool" where
  "same_api a' a \<longleftrightarrow>
     (\<forall>tok. same_call (api_GetConnectionsNum a' tok) (api_GetConnectionsNum a tok)) \<and>
     (\<forall>tok. same_call (api_HealthCheck a' tok) (api_HealthCheck a tok)) \<and>
     (\<forall>tok. same_call (api_GetServerSettings a' tok) (api_GetServerSettings a tok)) \<and>
     (\<forall>tok ttl. same_call (api_CreateRoom a' tok ttl) (api_CreateRoom a tok ttl)) \<and>
     (\<forall>tok ids. same_call (api_GetDeletedRooms a' tok ids) (api_GetDeletedRooms a tok ids))"

lemma ob_base_write_event [simp]: "ob_base (write_event lg level kvs err msg s) = ob_base s"
  by (simp add: write_event_def)

lemma same_logged: "same_call f g \<Longrightarrow> same_call (logged env name req resp err_of f) g"
  by (simp add: same_call_def logged_def Let_def case_prod_unfold map_prod_def split: option.split)

lemma same_tagged: "same_call f g \<Longrightarrow> same_call (\<lambda>s. f (SetTag k v s)) g"
  by (simp add: same_call_def SetTag_def)

lemma same_base: "same_call (on_base f) f"
  by (simp add: same_call_def on_base_def map_prod_def case_prod_unfold)

lemma same_api_base: "same_api (observed_api a) a"
  by (simp add: same_api_def observed_api_def same_base)

lemma same_api_logger: "same_api a' a \<Longrightarrow> same_api (loggerMiddlewareServerSettings env a') a"
  by (simp add: same_api_def loggerMiddlewareServerSettings_def logger_GetConnectionsNum_def logger_HealthCheck_def
      logger_GetServerSettings_def logger_CreateRoom_def logger_GetDeletedRooms_def same_logged)

lemma same_api_trace: "same_api a' a \<Longrightarrow> same_api (traceMiddlewareServerSettings a') a"
  by (simp add: same_api_def traceMiddlewareServerSettings_def trace_GetConnectionsNum_def [abs_def] trace_HealthCheck_def [abs_def]
      trace_GetServerSettings_def [abs_def] trace_CreateRoom_def [abs_def] trace_GetDeletedRooms_def [abs_def] same_tagged)

text \<open>A settings service whose methods are those of its wrapped service.\<close>

definition same_service :: "'st observed httpServerSettings \<Rightarrow> 'st api_ServerSettings \<Rightarrow> bool" where
  "same_service h a \<longleftrightarrow> same_api (svc (http_svc h)) a \<and> http_svc h = newServerServerSettings (svc (http_svc h))"

lemma same_service_Wrap:
  "http_svc h' = Wrap m (http_svc h) \<Longrightarrow> same_service h a \<Longrightarrow> (\<And>b. same_api b a \<Longrightarrow> same_api (m b) a) \<Longrightarrow> same_service h' a"
  by (simp add: same_service_def Wrap_def newServerServerSettings_def Let_def)

lemma stacked_service:
  "same_service h a \<Longrightarrow>
     same_service (stacked ms h) a \<and> errorHandler (stacked ms h) = errorHandler h \<and>
     maxBatchSize (stacked ms h) = maxBatchSize h \<and> maxParallelBatch (stacked ms h) = maxParallelBatch h"
proof (induction ms h rule: stacked.induct)
  case (2 ms h)
  then show ?case
    using same_service_Wrap [of "http_WithTrace h" traceMiddlewareServerSettings h a] same_api_trace
    by (auto simp: http_WithTrace_def svc_WithTrace_def)
next
  case (3 env ms h)
  then show ?case
    using same_service_Wrap [of "http_WithLog env h" "loggerMiddlewareServerSettings env" h a] same_api_logger
    by (auto simp: http_WithLog_def svc_WithLog_def)
qed simp

lemma handle_commutes:
  assumes "errorHandler h' = errorHandler h" and "\<And>r. same_call (call' r) (call r)"
  shows "same_call (handle h' dec ctx flds zero setToken call' request) (handle h dec ctx flds zero setToken call request)"
  using assms unfolding same_call_def handle_def
  by (auto simp: Let_def simp flip: assms(2) [unfolded same_call_def, rule_format] split: option.splits sum.splits prod.splits)

lemma encode_result_map: "encode_result enc (map_prod id b x) = map_prod id b (encode_result enc x)"
  by (auto simp: encode_result_def split: sum.splits prod.splits)

lemma encode_commutes: "same_call f g \<Longrightarrow> same_call (\<lambda>s. encode_result enc (f s)) (\<lambda>s. encode_result enc (g s))"
  by (simp add: same_call_def flip: encode_result_map)

lemma create_commutes:
  "same_call f g \<Longrightarrow>
     same_call (\<lambda>s. case f s of (Some err, s') \<Rightarrow> (Inl err, s') | (None, s') \<Rightarrow> (Inr x, s'))
       (\<lambda>s. case g s of (Some err, s') \<Rightarrow> (Inl err, s') | (None, s') \<Rightarrow> (Inr x, s'))"
  by (auto simp: same_call_def split: prod.splits option.splits) (metis Pair_inject map_prod_simp id_apply option.distinct(1) option.inject)+

lemma service_sel [simp]:
  "errorHandler (settings_service a l p eh) = eh" "maxBatchSize (settings_service a l p eh) = l"
  "maxParallelBatch (settings_service a l p eh) = p" "http_svc (settings_service a l p eh) = newServerServerSettings a"
  by (simp_all add: settings_service_def WithErrorHandler_def NewServerSettings_http_def)

lemma newServer_sel [simp]:
  "svc (newServerServerSettings a) = a"
  "fn_getConnectionsNum (newServerServerSettings a) = api_GetConnectionsNum a"
  "fn_healthCheck (newServerServerSettings a) = api_HealthCheck a"
  "fn_getServerSettings (newServerServerSettings a) = api_GetServerSettings a"
  "fn_createRoom (newServerServerSettings a) = api_CreateRoom a"
  "fn_getDeletedRooms (newServerServerSettings a) = api_GetDeletedRooms a"
  by (simp_all add: newServerServerSettings_def)

lemma stacked_settings:
  obtains b where "http_svc (stacked ms (settings_service (observed_api a) l p eh)) = newServerServerSettings b" and "same_api b a"
    and "errorHandler (stacked ms (settings_service (observed_api a) l p eh)) = eh"
proof -
  have "same_service (settings_service (observed_api a) l p eh) a"
    by (simp add: same_service_def same_api_base)
  from stacked_service [OF this, of ms] show thesis
    by (intro that) (auto simp: same_service_def)
qed

lemma methods_commute:
  fixes a :: "'st api_ServerSettings" and l p eh ms
  defines "h' \<equiv> stacked ms (settings_service (observed_api a) l p eh)" and "h \<equiv> settings_service a l p eh"
  shows "same_call (getConnectionsNum h' dec ctx request) (getConnectionsNum h dec ctx request)"
    and "same_call (healthCheck h' dec ctx request) (healthCheck h dec ctx request)"
    and "same_call (getServerSettings h' dec ctx request) (getServerSettings h dec ctx request)"
    and "same_call (createRoom h' dec ctx request) (createRoom h dec ctx request)"
    and "same_call (getDeletedRooms h' dec ctx request) (getDeletedRooms h dec ctx request)"
proof -
  obtain b where b: "http_svc h' = newServerServerSettings b" "same_api b a" "errorHandler h' = errorHandler h"
    using stacked_settings unfolding h'_def h_def by (metis service_sel(1))
  have hs: "http_svc h = newServerServerSettings a" by (simp add: h_def)
  show "same_call (getConnectionsNum h' dec ctx request) (getConnectionsNum h dec ctx request)"
    "same_call (healthCheck h' dec ctx request) (healthCheck h dec ctx request)"
    "same_call (getServerSettings h' dec ctx request) (getServerSettings h dec ctx request)"
    "same_call (createRoom h' dec ctx request) (createRoom h dec ctx request)"
    "same_call (getDeletedRooms h' dec ctx request) (getDeletedRooms h dec ctx request)"
    unfolding method_defs using b(2) [unfolded same_api_def]
    by (auto simp: b(1) hs intro!: handle_commutes [OF b(3)] encode_commutes create_commutes)
qed


lemma dispatch_commutes:
  fixes a :: "'st api_ServerSettings"
  shows "map_prod id ob_base (doSingleBatch (stacked ms (settings_service (observed_api a) l p eh)) dec ctx request s) =
      doSingleBatch (settings_service a l p eh) dec ctx request (ob_base s)"
    and "map_prod id ob_base (Server_doSingleBatch (stacked ms (settings_service (observed_api a) l p eh)) dec ctx request s) =
      Server_doSingleBatch (settings_service a l p eh) dec ctx request (ob_base s)"
  by (simp_all add: doSingleBatch_def Server_doSingleBatch_def Let_def methods_commute [unfolded same_call_def, rule_format])

text \<open>The contract holds for both dispatchers and for each method of a stacked service.\<close>

interpretation db: transparent
  "doSingleBatch (settings_service a l p eh) dec" "doSingleBatch (stacked ms (settings_service (observed_api a) l p eh)) dec" ob_base
  for a l p eh ms dec
  by unfold_locales (rule dispatch_commutes(1))

interpretation sdb: transparent
  "Server_doSingleBatch (settings_service a l p eh) dec"
  "Server_doSingleBatch (stacked ms (settings_service (observed_api a) l p eh)) dec" ob_base
  for a l p eh ms dec
  by unfold_locales (rule dispatch_commutes(2))

interpretation mcn: transparent
  "getConnectionsNum (settings_service a l p eh) dec" "getConnectionsNum (stacked ms (settings_service (observed_api a) l p eh)) dec" ob_base
  for a l p eh ms dec
  by unfold_locales (rule methods_commute(1) [unfolded same_call_def, rule_format])

interpretation mhc: transparent
  "healthCheck (settings_service a l p eh) dec" "healthCheck (stacked ms (settings_service (observed_api a) l p eh)) dec" ob_base
  for a l p eh ms dec
  by unfold_locales (rule methods_commute(2) [unfolded same_call_def, rule_format])

interpretation mgs: transparent
  "getServerSettings (settings_service a l p eh) dec" "getServerSettings (stacked ms (settings_service (observed_api a) l p eh)) dec" ob_base
  for a l p eh ms dec
  by unfold_locales (rule methods_commute(3) [unfolded same_call_def, rule_format])

interpretation mcr: transparent
  "createRoom (settings_service a l p eh) dec" "createRoom (stacked ms (settings_service (observed_api a) l p eh)) dec" ob_base
  for a l p eh ms dec
  by unfold_locales (rule methods_commute(4) [unfolded same_call_def, rule_format])

interpretation mdr: transparent
  "getDeletedRooms (settings_service a l p eh) dec" "getDeletedRooms (stacked ms (settings_service (observed_api a) l p eh)) dec" ob_base
  for a l p eh ms dec
  by unfold_locales (rule methods_commute(5) [unfolded same_call_def, rule_format])

lemmas method_route_commutes = mcn.serveMethod_commutes mhc.serveMethod_commutes mgs.serveMethod_commutes
  mcr.serveMethod_commutes mdr.serveMethod_commutes

definition erase_exchange :: "'st observed exchange \<Rightarrow> 'st exchange" where
  "erase_exchange e = \<lparr>xc_method = xc_method e, xc_path = xc_path e, xc_body = xc_body e, xc_request = xc_request e,
     xc_response = xc_response e, xc_http = xc_http e, xc_state = ob_base (xc_state e)\<rparr>"

lemma erase_respond: "erase_exchange (respond e r) = respond (erase_exchange e) (map_prod id ob_base r)"
  by (cases r) (simp add: erase_exchange_def respond_def)

lemma erase_of_ends: "run_map erase_exchange (of_ends e r) = of_ends (erase_exchange e) (map_ends (map_prod id ob_base) r)"
  by (cases r) (simp_all add: erase_respond)

text \<open>Every route of the server commutes with erasing what was observed.\<close>

lemma stacked_route_commutes:
  assumes "\<forall>path. r \<noteq> OtherRoute path"
  shows "run_map erase_exchange
      (route_handler canon other limit parallel (stacked ms (settings_service (observed_api a) l p eh)) dec schedule r e) =
     route_handler canon other' limit parallel (settings_service a l p eh) dec schedule r (erase_exchange e)"
proof -
  have sel: "exchange_ctx canon (erase_exchange e) = exchange_ctx canon e" "xc_state (erase_exchange e) = ob_base (xc_state e)"
    by (simp_all add: erase_exchange_def exchange_ctx_def)
  have lims: "maxBatchSize (stacked ms (settings_service (observed_api a) l p eh)) = l"
      "maxParallelBatch (stacked ms (settings_service (observed_api a) l p eh)) = p"
    using stacked_service [of "settings_service (observed_api a) l p eh" a ms]
    by (simp_all add: same_service_def same_api_base)
  show ?thesis
  proof (cases r)
    case RootBatch
    then show ?thesis by (simp add: route_handler_def Let_def sel erase_of_ends sdb.serve_batch_commutes)
  next
    case SettingsBatch
    then show ?thesis by (simp add: route_handler_def Let_def sel erase_of_ends serveBatch_def lims db.serve_batch_commutes)
  next
    case (SettingsMethod m)
    then show ?thesis
      by (simp add: route_handler_def Let_def sel erase_respond serveGetConnectionsNum_def serveHealthCheck_def
          serveGetServerSettings_def serveCreateRoom_def serveGetDeletedRooms_def method_route_commutes)
  qed (use assms in blast)
qed

text \<open>
  C35: logging and tracing are transparent. Whatever service stands behind the transport, and however
  often and in whichever order it is wrapped by the logging and the tracing middleware, every route of
  the server gives the same response and leaves the service in the same state as without them, for
  single requests, batches in any order of the requests, and invalid requests; and a batch that ends without a response (a limit
  of workers of zero or below) does so with and without them. The methods of the service return.
\<close>

theorem middleware_transparent:
  assumes "\<forall>path. r \<noteq> OtherRoute path"
  shows "run_map erase_exchange
      (route_handler canon other limit parallel (stacked ms (settings_service (observed_api a) l p eh)) dec schedule r e) =
     route_handler canon other' limit parallel (settings_service a l p eh) dec schedule r (erase_exchange e)"
  using assms by (rule stacked_route_commutes)

text \<open>A service that counts the rooms it creates and refuses an empty token.\<close>

definition counting_api :: "nat api_ServerSettings" where
  "counting_api =
     \<lparr>api_GetConnectionsNum = (\<lambda>tok n. (Inr (of_nat n, True), n)), api_HealthCheck = (\<lambda>tok n. (Inr True, n)),
      api_GetServerSettings = (\<lambda>tok n. (Inr (NewSettings 4 0), n)),
      api_CreateRoom = (\<lambda>tok ttl n. if tok = [] then (Some ErrTooManyRequests, n) else (None, Suc n)),
      api_GetDeletedRooms = (\<lambda>tok ids n. (Inr [], n))\<rparr>"

definition sample_log_env :: log_env where
  "sample_log_env = \<lparr>le_note = (\<lambda>_. ''panic''), le_took = ''1ms'', le_duration = (\<lambda>d. Itoa (unat d) @ ''ns''), le_nil_ids = True\<rparr>"

definition sample_logger :: logger where
  "sample_logger = \<lparr>lg_out = True, lg_level = 0, lg_fields = []\<rparr>"

definition sample_body :: json where
  "sample_body = JObj [(''id'', JInt 1), (''jsonrpc'', JStr ''2.0''), (''method'', JStr ''createRoom''),
     (''params'', JObj [(''token'', JStr ''t'')])]"

definition sample_exchange :: "json \<Rightarrow> nat observed exchange" where
  "sample_exchange body =
     \<lparr>xc_method = ''POST'', xc_path = ''/api/v1/udp/serverSettings'', xc_body = Some body, xc_request = [], xc_response = [],
      xc_http = new_response, xc_state = \<lparr>ob_base = 0, ob_logger = Some sample_logger, ob_log = [], ob_tags = []\<rparr>\<rparr>"

theorem middleware_transparent_witness:
  "(\<forall>path. SettingsBatch \<noteq> OtherRoute path) \<and>
   run_map erase_exchange
     (route_handler id (\<lambda>_ _. Stuck) 3 2 (stacked [None, Some sample_log_env] (settings_service (observed_api counting_api) 3 2 None))
       ex_dec reversed_order SettingsBatch (sample_exchange (JArr [sample_body, sample_body]))) =
   route_handler id (\<lambda>_ _. Stuck) 3 2 (settings_service counting_api 3 2 None) ex_dec reversed_order SettingsBatch
     (erase_exchange (sample_exchange (JArr [sample_body, sample_body])))"
  using middleware_transparent [of SettingsBatch id "\<lambda>_ _. Stuck" 3 2 "[None, Some sample_log_env]" counting_api 3 2 None ex_dec
      reversed_order "sample_exchange (JArr [sample_body, sample_body])" "\<lambda>_ _. Stuck"]
  by simp


section \<open>What is logged\<close>

text \<open>The fuel for the texts is enough: every logged value ends within it.\<close>

lemma ends_Suc: "(\<And>m opts st. n \<le> m \<Longrightarrow> fine opts \<Longrightarrow> format (Suc m) env opts v st \<noteq> Hang) \<Longrightarrow> ends env (Suc n) v"
  unfolding ends_def by (metis Suc_le_D Suc_le_mono)

lemma scalar_ends:
  "ends env 1 (int_value i)" "ends env 1 (bool_value b)" "ends env 1 (uuid_value u)" "ends env 1 (duration_value le d)"
  by (auto intro!: ends_Suc simp: One_nat_def int_value_def bool_value_def uuid_value_def duration_value_def plain_info_def
      applyOptions_ends)

lemma unpacked_values [simp]:
  "unpacked (int_value i) = int_value i" "unpacked (bool_value b) = bool_value b" "unpacked (uuid_value u) = uuid_value u"
  "unpacked (duration_value le d) = duration_value le d" "unpacked (string_value t) = string_value t"
  "unpacked (struct_value ty fs) = struct_value ty fs" "unpacked (ids_value nil ids) = ids_value nil ids"
  "unpacked (settings_value x) = settings_value x"
  by (simp_all add: unpacked_def int_value_def bool_value_def uuid_value_def duration_value_def string_value_def
      struct_value_def ids_value_def settings_value_def)

lemma struct_ends:
  assumes "\<forall>(name, v) \<in> set fs. ends env n v \<and> unpacked v = v" and "1 \<le> n"
  shows "ends env (Suc n) (struct_value ty fs)"
proof -
  have "format (Suc m) env opts (struct_value ty fs) st \<noteq> Hang" if "n \<le> m" "fine opts" for m opts st
  proof -
    have "each (field_text env (format m env)) (List.enumerate 0 (map (\<lambda>(name, v). (name, [] :: string, v)) fs)) st \<noteq> Hang" for st
    proof (rule each_ends)
      fix e st assume "e \<in> set (List.enumerate 0 (map (\<lambda>(name, v). (name, [] :: string, v)) fs))"
      from enumerated [OF this] obtain i name v where "e = (i, name, [], v)" "(name, v) \<in> set fs" by (cases e) auto
      with assms(1) that(1) field_ends [of env n v m i name "[]" st] show "field_text env (format m env) e st \<noteq> Hang" by auto
    qed
    then show ?thesis by (simp add: struct_value_def plain_info_def Let_def)
  qed
  then show ?thesis by (rule ends_Suc)
qed

lemma room_id_ends: "ends env 2 (room_id_value d)"
  using struct_ends [of "[(''GameID'', uuid_value (del_GameID d)), (''RoomID'', uuid_value (del_RoomID d))]" env 1] scalar_ends
  by (simp add: room_id_value_def numeral_2_eq_2)

lemma ids_ends: "ends env 3 (ids_value nil ids)"
proof -
  have "format_list env (format m env []) (map room_id_value ids) st \<noteq> Hang" if "2 \<le> m" for m st
    using that room_id_ends by (intro format_list_ends [of _ _ 2]) (auto simp: room_id_value_def)
  then have "ends env (Suc 2) (ids_value nil ids)"
    by (intro ends_Suc) (simp add: ids_value_def plain_info_def Let_def)
  then show ?thesis by simp
qed

lemma settings_ends: "ends env 2 (settings_value x)"
  using struct_ends [of _ env 1] scalar_ends string_value_ends by (simp add: settings_value_def numeral_2_eq_2)

lemma struct_text_ends:
  "\<forall>(name, v) \<in> set fs. ends env 6 v \<and> unpacked v = v \<Longrightarrow> ends env 7 (struct_value ty fs)"
  using struct_ends [of fs env 6] by simp

lemma parts_end: "ends env 6 (string_value t)" "ends env 6 (ids_value nil ids)" "ends env 6 (settings_value x)"
  by (simp_all add: ends_mono [OF string_value_ends] ends_mono [OF ids_ends] ends_mono [OF settings_ends])

lemma viewer_text_eq:
  assumes "\<And>env. ends env 7 x"
  shows "Sprintf_plus viewer_fuel Map.empty (le_note env) x = Done (viewer_text env x)"
proof -
  have "format 8 \<lparr>flag_sharp = False, flag_plus = True, MaxDepth = Config_MaxDepth, heap = Map.empty\<rparr> [] x new_formatState \<noteq> Hang"
    using assms by (simp add: ends_def fine_Nil)
  then show ?thesis
    by (auto simp: viewer_text_def viewer_fuel_def Sprintf_plus_def Format_def bind_outcome_def split: outcome.split)
qed

lemma logged_texts:
  "Sprintf_plus viewer_fuel Map.empty (le_note env) (token_request_value ty tok) = Done (viewer_text env (token_request_value ty tok))"
  "Sprintf_plus viewer_fuel Map.empty (le_note env) (struct_value ty [(''Token'', string_value tok), (''Ids'', ids_value nil ids)]) =
     Done (viewer_text env (struct_value ty [(''Token'', string_value tok), (''Ids'', ids_value nil ids)]))"
  "Sprintf_plus viewer_fuel Map.empty (le_note env) (struct_value ty [(''DeletedIds'', ids_value nil ids)]) =
     Done (viewer_text env (struct_value ty [(''DeletedIds'', ids_value nil ids)]))"
  "Sprintf_plus viewer_fuel Map.empty (le_note env) (struct_value ty [(''Settings'', settings_value x)]) =
     Done (viewer_text env (struct_value ty [(''Settings'', settings_value x)]))"
  by (auto intro!: viewer_text_eq struct_text_ends simp: token_request_value_def parts_end)

text \<open>
  The event of a call. With logging on, \<^verbatim>\<open>CreateRoom\<close> of any service writes exactly one event, after the
  call: at the level of errors with the error when the call fails and as information otherwise, with
  the token as it was sent, the lifetime and the empty response. Result and state are those of the
  service.
\<close>

theorem createRoom_log_entry:
  assumes "ob_logger s = Some lg" and "lg_out lg" and "lg_level lg \<le> InfoLevel"
    and "api_CreateRoom a tok ttl (ob_base s) = (err, b)"
  shows "api_CreateRoom (loggerMiddlewareServerSettings env (observed_api a)) tok ttl s =
     (err, s\<lparr>ob_base := b, ob_log := ob_log s @
        [\<lparr>ev_level = (if err = None then InfoLevel else ErrorLevel),
          ev_fields = lg_fields lg @ [(''service'', ''ServerSettings''), (''method'', ''createRoom''),
            (''request'', ''{Token:'' @ tok @ '' CreateRoom:{RoomTTl:'' @ le_duration env ttl @ ''}}''),
            (''response'', ''{}''), (''took'', le_took env)],
          ev_error = map_option Error err, ev_msg = ''call createRoom''\<rparr>]\<rparr>)"
proof -
  note text_simps = viewer_text_def viewer_fuel_def Sprintf_plus_def Format_def Config_MaxDepth_def struct_value_def
    plain_info_def string_value_def duration_value_def new_formatState_def deeper_def Write_def bind_outcome_def set_ignore_def
    write_outcome_def field_text_def spaced_def tagToOption_def eval_nat_numeral
  have request: "viewer_text env (struct_value ty
      [(''Token'', string_value tok), (''CreateRoom'', struct_value ty' [(''RoomTTl'', duration_value env ttl)])]) =
      ''{Token:'' @ tok @ '' CreateRoom:{RoomTTl:'' @ le_duration env ttl @ ''}}''" for ty ty'
    by (simp add: text_simps)
  have response: "viewer_text env (struct_value ty []) = ''{}''" for ty
    by (simp add: text_simps)
  show ?thesis
    using assms
    by (cases err) (simp_all add: loggerMiddlewareServerSettings_def logger_CreateRoom_def logged_def request response Ctx_def
        observed_api_def on_base_def write_event_def InfoLevel_def ErrorLevel_def)
qed

theorem createRoom_log_entry_witness:
  "api_CreateRoom (loggerMiddlewareServerSettings sample_log_env (observed_api counting_api)) ''t'' 60
     (xc_state (sample_exchange JNull)) =
   (None, \<lparr>ob_base = 1, ob_logger = Some sample_logger,
      ob_log = [\<lparr>ev_level = 1, ev_fields = [(''service'', ''ServerSettings''), (''method'', ''createRoom''),
            (''request'', ''{Token:t CreateRoom:{RoomTTl:'' @ Itoa 60 @ ''ns}}''), (''response'', ''{}''), (''took'', ''1ms'')],
          ev_error = None, ev_msg = ''call createRoom''\<rparr>], ob_tags = []\<rparr>)"
  using createRoom_log_entry [of "xc_state (sample_exchange JNull)" sample_logger counting_api "''t''" 60 None 1 sample_log_env]
  by (simp add: sample_exchange_def sample_logger_def sample_log_env_def counting_api_def InfoLevel_def)


section \<open>Request ids\<close>

lemma Peek_Set [simp]: "Peek canon k (Set_header canon k' v hs) = (if canon k = canon k' then v else Peek canon k hs)"
  by (simp add: Peek_def Set_header_def update_conv')

text \<open>A handler of another header that touches neither the request's nor the response's header \<open>name\<close>.\<close>

definition leaves_alone :: "(string \<Rightarrow> string) \<Rightarrow> string \<Rightarrow> HeaderHandler \<Rightarrow> bool" where
  "leaves_alone canon name handler \<longleftrightarrow>
     (\<forall>v. (RequestValue (handler v) = None \<or> canon (RequestKey (handler v)) \<noteq> canon name) \<and>
          (ResponseValue (handler v) = None \<or> canon (ResponseKey (handler v)) \<noteq> canon name))"

lemma handle_header_other:
  assumes "leaves_alone (fe_canon fe) name (snd nh)"
  shows "Peek (fe_canon fe) name (xc_request (handle_header fe nh e)) = Peek (fe_canon fe) name (xc_request e) \<and>
     Peek (fe_canon fe) name (xc_response (handle_header fe nh e)) = Peek (fe_canon fe) name (xc_response e)"
  using assms [unfolded leaves_alone_def, rule_format, of "Peek (fe_canon fe) (fst nh) (xc_request e)"]
  by (auto simp: handle_header_def Let_def split: option.split)

lemma handle_headers_other:
  "\<forall>nh \<in> set hs. leaves_alone (fe_canon fe) name (snd nh) \<Longrightarrow>
     Peek (fe_canon fe) name (xc_request (fold (handle_header fe) hs e)) = Peek (fe_canon fe) name (xc_request e) \<and>
     Peek (fe_canon fe) name (xc_response (fold (handle_header fe) hs e)) = Peek (fe_canon fe) name (xc_response e)"
  by (induction hs arbitrary: e) (simp_all add: handle_header_other)

definition request_id :: "uuid \<Rightarrow> string \<Rightarrow> string" where
  "request_id newID value = (if value = [] then uuid_String newID else value)"

lemma handle_request_id:
  "Peek (fe_canon fe) name (xc_response (handle_header fe (name, request_id_handler newID name) e)) =
     request_id newID (Peek (fe_canon fe) name (xc_request e))"
  by (simp add: handle_header_def request_id_handler_def request_id_def Let_def)

definition only_request_id :: "(string \<Rightarrow> string) \<Rightarrow> uuid \<Rightarrow> string \<Rightarrow> (string \<times> HeaderHandler) list \<Rightarrow> bool" where
  "only_request_id canon newID name handlers \<longleftrightarrow>
     distinct (map fst handlers) \<and> (name, request_id_handler newID name) \<in> set handlers \<and>
     (\<forall>(n, handler) \<in> set handlers. n \<noteq> name \<longrightarrow> leaves_alone canon name handler)"

lemma handle_headers_request_id:
  assumes "only_request_id (fe_canon fe) newID name handlers"
  shows "Peek (fe_canon fe) name (xc_response (fold (handle_header fe) (range_in order handlers) e)) =
    request_id newID (Peek (fe_canon fe) name (xc_request e))"
proof -
  let ?nh = "(name, request_id_handler newID name)"
  have "?nh \<in> set (range_in order handlers)" using assms by (simp add: only_request_id_def)
  then obtain xs ys where split: "range_in order handlers = xs @ ?nh # ys" by (meson split_list)
  have dist: "distinct (map fst (xs @ ?nh # ys))"
    using assms distinct_map_range_in [of fst order handlers] by (simp add: only_request_id_def split)
  have all: "set (xs @ ?nh # ys) = set handlers" using set_range_in [of order handlers] by (simp add: split)
  have other: "leaves_alone (fe_canon fe) name (snd nh)" if "nh \<in> set xs \<union> set ys" for nh
  proof -
    have "name \<notin> fst ` (set xs \<union> set ys)" using dist by auto
    with that have "fst nh \<noteq> name" by auto
    moreover have "nh \<in> set handlers" using all that by auto
    ultimately show ?thesis using assms by (auto simp: only_request_id_def)
  qed
  then have others: "\<forall>nh \<in> set xs. leaves_alone (fe_canon fe) name (snd nh)"
      "\<forall>nh \<in> set ys. leaves_alone (fe_canon fe) name (snd nh)" by simp_all
  show ?thesis
    by (simp add: split handle_headers_other [OF others(2)] handle_request_id handle_headers_other [OF others(1)])
qed

lemma inject_other:
  "\<forall>(k, vs) \<in> set (fe_inject fe). fe_canon fe k \<noteq> fe_canon fe name \<Longrightarrow>
     Peek (fe_canon fe) name (xc_response (injectSpan fe e)) = Peek (fe_canon fe) name (xc_response e)"
proof -
  have "\<forall>(k, vs) \<in> set kvs. fe_canon fe k \<noteq> fe_canon fe name \<Longrightarrow>
      Peek (fe_canon fe) name (fold (\<lambda>(key, values). Set_header (fe_canon fe) key (join_values '';'' values)) kvs hs) =
      Peek (fe_canon fe) name hs" for kvs hs
    by (induction kvs arbitrary: hs) (auto split: prod.splits)
  then show "\<forall>(k, vs) \<in> set (fe_inject fe). fe_canon fe k \<noteq> fe_canon fe name \<Longrightarrow> ?thesis"
    by (simp add: injectSpan_def)
qed

text \<open>With workers for its batches a route neither waits for ever nor panics, and leaves the headers of the response alone.\<close>

lemma serve_batch_returns: "0 <s parallel \<Longrightarrow> \<exists>r. serve_batch limit parallel single dec schedule ctx st = Returns r"
  by (auto simp: serve_batch_def do_batch_def word_sless_alt Let_def split: option.splits prod.splits)

lemma route_returns:
  assumes "0 <s parallel" and "0 <s maxParallelBatch h" and "\<forall>path. r \<noteq> OtherRoute path"
  shows "\<exists>x. route_handler canon other limit parallel h dec schedule r e = Finished (respond e x)"
proof (cases r)
  case RootBatch
  obtain x where "serve_batch limit parallel (Server_doSingleBatch h dec) dec schedule (exchange_ctx canon e) (xc_state e) = Returns x"
    using serve_batch_returns [OF assms(1), of limit "Server_doSingleBatch h dec" dec schedule "exchange_ctx canon e"] by blast
  with RootBatch show ?thesis by (intro exI [of _ x]) (simp add: route_handler_def Let_def)
next
  case SettingsBatch
  obtain x where "serveBatch h dec schedule (exchange_ctx canon e) (xc_state e) = Returns x"
    using serve_batch_returns [OF assms(2), of "maxBatchSize h" "doSingleBatch h dec" dec schedule "exchange_ctx canon e"]
    unfolding serveBatch_def by blast
  with SettingsBatch show ?thesis by (intro exI [of _ x]) (simp add: route_handler_def Let_def)
next
  case (SettingsMethod m)
  show ?thesis unfolding SettingsMethod route_handler_def Let_def by (simp only: route.case) (rule exI, rule refl)
qed (use assms(3) in blast)

lemma logger_handlers:
  "\<exists>e1. setLogger lg (logLevelHandler fe nxt) e = nxt e1 \<and> xc_request e1 = xc_request e \<and>
     xc_method e1 = xc_method e \<and> xc_path e1 = xc_path e \<and> xc_body e1 = xc_body e \<and> xc_http e1 = xc_http e \<and>
     ob_base (xc_state e1) = ob_base (xc_state e) \<and> ob_log (xc_state e1) = ob_log (xc_state e)"
  unfolding setLogger_def logLevelHandler_def Let_def
  by (rule exI, rule conjI, rule refl) (simp add: WithContext_def split: option.split)

text \<open>
  Request ids. When a request header \<open>name\<close> is given its handler by \<^verbatim>\<open>WithRequestID\<close> and no other handler
  (nor the tracer) writes that header, every request to a route of the server is answered, and the
  response carries the id that came with the request, or a new one if it came without. This
  holds in whichever order the map of handlers is traversed.
\<close>

theorem request_id_echoed:
  assumes "only_request_id (fe_canon fe) newID name handlers"
    and "\<forall>(k, vs) \<in> set (fe_inject fe). fe_canon fe k \<noteq> fe_canon fe name"
    and "0 <s parallel" and "0 <s maxParallelBatch h" and "\<forall>path. r \<noteq> OtherRoute path"
  shows "\<exists>e'. app_handler fe lg order handlers (route_handler (fe_canon fe) other limit parallel h dec schedule r) e = Finished e' \<and>
    Peek (fe_canon fe) name (xc_response e') = request_id newID (Peek (fe_canon fe) name (xc_request e))"
proof -
  let ?route = "route_handler (fe_canon fe) other limit parallel h dec schedule r"
  have "\<exists>e'. headersHandler fe order handlers ?route e0 = Finished e' \<and>
      Peek (fe_canon fe) name (xc_response e') = request_id newID (Peek (fe_canon fe) name (xc_request e0))" for e0
  proof -
    obtain x where x: "?route (fold (handle_header fe) (range_in order handlers)
        (e0\<lparr>xc_state := (xc_state e0)\<lparr>ob_tags := [(''http.url'', xc_path e0), (''http.method'', xc_method e0)]\<rparr>\<rparr>)) =
        Finished (respond (fold (handle_header fe) (range_in order handlers)
          (e0\<lparr>xc_state := (xc_state e0)\<lparr>ob_tags := [(''http.url'', xc_path e0), (''http.method'', xc_method e0)]\<rparr>\<rparr>)) x)"
      using route_returns [OF assms(3-5)] by blast
    then show ?thesis
      by (simp add: headersHandler_def Let_def inject_other [OF assms(2)])
        (simp add: respond_def handle_headers_request_id [OF assms(1)])
  qed
  moreover obtain e1 where "setLogger lg (logLevelHandler fe (headersHandler fe order handlers ?route)) e =
      headersHandler fe order handlers ?route e1" "xc_request e1 = xc_request e"
    using logger_handlers [of lg fe _ e] by blast
  moreover from calculation(1) [of e1] obtain e' where "headersHandler fe order handlers ?route e1 = Finished e'"
      "Peek (fe_canon fe) name (xc_response e') = request_id newID (Peek (fe_canon fe) name (xc_request e1))" by blast
  ultimately show ?thesis by (simp add: app_handler_def recoverHandler_def)
qed

definition sample_fiber_env :: fiber_env where
  "sample_fiber_env = \<lparr>fe_canon = id, fe_ParseLevel = (\<lambda>_. None), fe_marshal = headerValue, fe_inject = [(''Trace'', [''1''])]\<rparr>"

definition trace_header :: HeaderHandler where
  "trace_header v = \<lparr>SpanKey = [], SpanValue = None, RequestKey = ''B3'', RequestValue = Some (HString v),
     ResponseKey = ''B3'', ResponseValue = Some (HString v), LogKey = [], LogValue = None\<rparr>"

theorem request_id_echoed_witness:
  "\<exists>e'. app_handler sample_fiber_env sample_logger reversed_order [(''Id'', request_id_handler 7 ''Id''), (''B3'', trace_header)]
      (route_handler id (\<lambda>_ _. Stuck) 3 2 (settings_service (observed_api counting_api) 3 2 None) ex_dec insertion_order SettingsBatch)
      ((sample_exchange JNull)\<lparr>xc_request := [(''Id'', ''abc'')]\<rparr>) = Finished e' \<and>
    Peek id ''Id'' (xc_response e') = ''abc''"
  using request_id_echoed [of sample_fiber_env 7 "''Id''" "[(''Id'', request_id_handler 7 ''Id''), (''B3'', trace_header)]" 2
      "settings_service (observed_api counting_api) 3 2 None" SettingsBatch sample_logger reversed_order "\<lambda>_ _. Stuck" 3 ex_dec
      insertion_order "(sample_exchange JNull)\<lparr>xc_request := [(''Id'', ''abc'')]\<rparr>"]
  by (simp add: sample_fiber_env_def only_request_id_def leaves_alone_def trace_header_def request_id_def Peek_def
      word_sless_alt)


section \<open>Panics\<close>

text \<open>What the header handlers keep of an exchange.\<close>

definition kept :: "'st observed exchange \<Rightarrow> 'st observed exchange \<Rightarrow> bool" where
  "kept e e' \<longleftrightarrow>
     xc_method e' = xc_method e \<and> xc_path e' = xc_path e \<and> xc_body e' = xc_body e \<and> xc_http e' = xc_http e \<and>
     ob_base (xc_state e') = ob_base (xc_state e) \<and> ob_log (xc_state e') = ob_log (xc_state e) \<and>
     (\<forall>lg. ob_logger (xc_state e) = Some lg \<longrightarrow>
        (\<exists>fs. ob_logger (xc_state e') = Some (lg\<lparr>lg_fields := fs\<rparr>)))"

lemma logger_same [simp]: "\<exists>fs. lg = lg\<lparr>lg_fields := fs\<rparr>"
  by (cases lg) auto

lemma kept_refl: "kept e e"
  by (simp add: kept_def)

lemma kept_trans: "kept e e1 \<Longrightarrow> kept e1 e2 \<Longrightarrow> kept e e2"
  by (fastforce simp: kept_def)

lemma kept_handle_header: "kept e (handle_header fe nh e)"
  by (auto simp: kept_def handle_header_def Let_def WithContext_def Ctx_def split: option.split)

lemma kept_handle_headers: "kept e (fold (handle_header fe) hs e)"
  by (induction hs arbitrary: e) (auto intro: kept_refl kept_trans kept_handle_header)

text \<open>
  Panics are answered. With a negative number of workers (\<^verbatim>\<open>MaxBatchWorkers(-1)\<close>) a batch makes \<^verbatim>\<open>doBatch\<close>
  panic; the request is answered with status 500 and nothing written, the service is left as it was,
  and the panic is logged once, as an error with method and path.
\<close>

theorem negative_workers_recovered:
  assumes "sint (maxParallelBatch h) < 0"
    and "xc_method e = ''POST''" and "Option.bind (xc_body e) decode_requests = Some requests"
    and "int (length requests) \<le> sint (maxBatchSize h)"
    and "\<not> EqualFold (Peek (fe_canon fe) ''X-Sync-On'' (xc_request e)) ''true''"
    and "\<forall>nh \<in> set handlers. leaves_alone (fe_canon fe) ''X-Sync-On'' (snd nh)"
    and "lg_out lg" and "lg_level lg \<le> ErrorLevel" and "Peek (fe_canon fe) logLevelHeader (xc_request e) = []"
  shows "\<exists>e' fs. app_handler fe lg order handlers (route_handler (fe_canon fe) other limit parallel h dec schedule SettingsBatch) e =
      Finished e' \<and>
    xc_http e' = (xc_http e)\<lparr>status := 500\<rparr> \<and> ob_base (xc_state e') = ob_base (xc_state e) \<and>
    ob_log (xc_state e') = ob_log (xc_state e) @
      [\<lparr>ev_level = ErrorLevel, ev_fields = fs @ [(''method'', ''POST''), (''path'', xc_path e)],
        ev_error = Some ''recover: makechan: size out of range'', ev_msg = ''panic occurred''\<rparr>]"
proof -
  let ?e1 = "e\<lparr>xc_state := (xc_state e)\<lparr>ob_logger := Some lg, ob_tags := [(''http.url'', xc_path e), (''http.method'', xc_method e)]\<rparr>\<rparr>"
  let ?e2 = "fold (handle_header fe) (range_in order handlers) ?e1"
  have attach: "setLogger lg (logLevelHandler fe (headersHandler fe order handlers route)) e = run_map (injectSpan fe) (route ?e2)" for route
    using assms(8,9) by (simp add: setLogger_def logLevelHandler_def headersHandler_def WithContext_def ErrorLevel_def DisabledLevel_def Let_def)
  have e2: "kept ?e1 ?e2" by (rule kept_handle_headers)
  have sync: "Peek (fe_canon fe) ''X-Sync-On'' (xc_request ?e2) = Peek (fe_canon fe) ''X-Sync-On'' (xc_request e)"
    using handle_headers_other [of "range_in order handlers" fe "''X-Sync-On''" ?e1] assms(6) by simp
  have "serveBatch h dec schedule (exchange_ctx (fe_canon fe) ?e2) (xc_state ?e2) = Panics"
    using assms(1-5) e2 sync
    by (simp add: serveBatch_def serve_batch_def do_batch_def exchange_ctx_def kept_def Let_def)
  then have "route_handler (fe_canon fe) other limit parallel h dec schedule SettingsBatch ?e2 =
      Crashed ?e2 ''makechan: size out of range''"
    by (simp add: route_handler_def)
  moreover obtain fs where "ob_logger (xc_state ?e2) = Some (lg\<lparr>lg_fields := fs\<rparr>)"
    using e2 by (auto simp: kept_def)
  ultimately show ?thesis
    using assms(2,7,8) e2
    by (auto simp: app_handler_def recoverHandler_def attach injectSpan_def write_event_def Ctx_def kept_def)
qed

theorem negative_workers_recovered_witness:
  "\<exists>e'. app_handler sample_fiber_env sample_logger reversed_order []
      (route_handler id (\<lambda>_ _. Stuck) 3 2 (settings_service (observed_api counting_api) 3 (- 1) None) ex_dec insertion_order SettingsBatch)
      (sample_exchange (JArr [sample_body])) = Finished e' \<and> status (xc_http e') = 500"
proof -
  have "\<exists>requests. decode_requests (JArr [sample_body]) = Some requests \<and> length requests = 1"
    by (simp add: sample_body_def decode_base_def base_fields_def EqualFold_def ToLower_def to_lower_def decode_raw_def)
  then obtain requests where requests: "decode_requests (JArr [sample_body]) = Some requests" "length requests = 1" by blast
  show ?thesis
    using negative_workers_recovered [of "settings_service (observed_api counting_api) 3 (- 1) None"
        "sample_exchange (JArr [sample_body])" requests sample_fiber_env "[]" sample_logger reversed_order "\<lambda>_ _. Stuck" 3 2 ex_dec
        insertion_order] requests
    by (auto simp: sample_fiber_env_def sample_exchange_def sample_logger_def ErrorLevel_def Peek_def EqualFold_def ToLower_def
        new_response_def simp del: decode_requests.simps)
qed

section \<open>Middleware of one method\<close>

text \<open>
  \<^verbatim>\<open>Wrap\<close> takes every method anew from the wrapped service: middleware given to a single method before
  it is lost, so \<^verbatim>\<open>WithLog\<close> and \<^verbatim>\<open>WithTrace\<close> have to come first.
\<close>

lemma Wrap_drops_method_middleware:
  "Wrap m (WrapGetConnectionsNum m1 srv) = Wrap m srv" "Wrap m (WrapHealthCheck m2 srv) = Wrap m srv"
  "Wrap m (WrapGetServerSettings m3 srv) = Wrap m srv" "Wrap m (WrapCreateRoom m4 srv) = Wrap m srv"
  "Wrap m (WrapGetDeletedRooms m5 srv) = Wrap m srv"
  by (simp_all add: Wrap_def Let_def WrapGetConnectionsNum_def WrapHealthCheck_def WrapGetServerSettings_def
      WrapCreateRoom_def WrapGetDeletedRooms_def)

end
