(* ===== verification/UdpWorker.thy ===== *)
theory UdpWorker
  imports TcpHandler
begin

text \<open>
  The UDP side of \<^verbatim>\<open>internal/handler/udp/udp.go\<close>: a listener reads datagrams into one buffer and
  queues slices of it round robin on one channel per processor; a worker per channel takes a
  message, asks the service who gets it and writes it out. This theory models the functions;
  the theory \<open>ServerRun\<close> interleaves them.

  A queued request is the Go slice \<^verbatim>\<open>buffer[:n]\<close>: it shares the memory of the listener's buffer.
  The model keeps the buffer in the state and a queued request as its length \<open>n\<close>; a worker
  reads the buffer when it handles the message.
\<close>

section \<open>Data\<close>

definition bufferSize :: nat where
  "bufferSize = 4096"

record ChanUDPMessage =
  msg_client :: UDPConnection
  msg_request :: nat

text \<open>
  \<^verbatim>\<open>count\<close> is the index of a channel and so far below the range of \<^verbatim>\<open>int\<close>. A channel is the list of
  its messages, first in first out, with the capacity it was made with.
\<close>

record 'db WorkerUDP =
  wk_service :: "'db service"
  chMsg :: "ChanUDPMessage list list"
  chan_size :: nat
  wk_rateLimit :: "'db RateLimit"
  wk_count :: nat

text \<open>
  The state of the UDP side: the worker, the listener's buffer, the state shared with the
  handlers, and what was written to the socket.
\<close>

record 'db udp =
  worker :: "'db WorkerUDP"
  buffer :: bytes
  app :: "'db app"
  sent :: "(UDPConnection \<times> bytes) list"

section \<open>Construction\<close>

text \<open>
  \<^verbatim>\<open>NewWorkerUDP\<close>. \<^verbatim>\<open>make\<close> panics (\<open>None\<close>) for a negative number of channels or a negative
  capacity. The results of the two calls into \<^verbatim>\<open>net\<close> are arguments.
\<close>

definition NewWorkerUDP ::
    "go_int \<Rightarrow> error option \<Rightarrow> error option \<Rightarrow> 'db service \<Rightarrow> go_int \<Rightarrow> ('db, any) IMemoryDB \<Rightarrow>
     (error + 'db WorkerUDP) option" where
  "NewWorkerUDP numCPU resolveErr listenErr srv rateLimit limitDB =
     (if numCPU <s 0 \<or> 0 <s numCPU \<and> rateLimit <s 0 then None
      else
        (let w = \<lparr>wk_service = srv, chMsg = replicate (unat numCPU) [], chan_size = unat rateLimit,
                  wk_rateLimit = NewRateLimit rateLimit limitDB, wk_count = 0\<rparr>
         in case resolveErr of
              Some err \<Rightarrow> Some (Inl err)
            | None \<Rightarrow> (case listenErr of Some err \<Rightarrow> Some (Inl err) | None \<Rightarrow> Some (Inr w))))"

section \<open>The listener\<close>

text \<open>\<^verbatim>\<open>counterChen\<close>: without a channel the remainder divides by zero and panics.\<close>

definition counterChen :: "'db WorkerUDP \<Rightarrow> (nat \<times> 'db WorkerUDP) option" where
  "counterChen w =
     (if chMsg w = [] then None
      else let c = (wk_count w + 1) mod length (chMsg w) in Some (c, w\<lparr>wk_count := c\<rparr>))"

text \<open>
  \<^verbatim>\<open>handleConnection\<close> always returns nil: a panic is recovered, and a message for a full channel
  is dropped. (With capacity 0 Go hands a message over only to a worker that is waiting; the
  model drops it.)
\<close>

definition handleConnection :: "UDPAddr \<Rightarrow> nat \<Rightarrow> 'db WorkerUDP \<Rightarrow> 'db WorkerUDP" where
  "handleConnection clientAddr n w =
     (case counterChen w of
        None \<Rightarrow> w
      | Some (c, w1) \<Rightarrow>
          (let ds = \<lparr>ClientAddr = clientAddr\<rparr>; ch = chMsg w1 ! c
           in if length ch < chan_size w1
              then w1\<lparr>chMsg := (chMsg w1)[c := ch @ [\<lparr>msg_client = ds, msg_request = n\<rparr>]]\<rparr>
              else w1))"

text \<open>
  What \<^verbatim>\<open>ReadFromUDP\<close> does: it fails, or it copies a datagram into the front of the buffer (the
  part of a datagram that does not fit is lost) and returns the number of bytes.
\<close>

datatype udp_read = ReadErr | Datagram UDPAddr bytes

definition ReadFromUDP :: "bytes \<Rightarrow> bytes \<Rightarrow> nat \<times> bytes" where
  "ReadFromUDP d buf =
     (let n = min (length d) (length buf) in (n, take n d @ drop n buf))"

text \<open>One turn of the loop of \<^verbatim>\<open>Listener\<close>, from the read to the next \<^verbatim>\<open>select\<close>.\<close>

definition listen_once :: "time \<Rightarrow> udp_read \<Rightarrow> 'db udp \<Rightarrow> 'db udp" where
  "listen_once now rd s =
     (case rd of
        ReadErr \<Rightarrow> s
      | Datagram clientAddr d \<Rightarrow>
          (let (n, buf) = ReadFromUDP d (buffer s);
               s1 = s\<lparr>buffer := buf\<rparr>;
               (limited, st) = check_limit (wk_rateLimit (worker s1)) now (UDPAddr_String clientAddr) (app s1);
               s2 = s1\<lparr>app := st\<rparr>
           in if limited then s2
              else if n = 0 then s2
              else s2\<lparr>worker := handleConnection clientAddr n (worker s2)\<rparr>))"

section \<open>The workers\<close>

text \<open>
  The loop over the recipients: \<open>ok\<close> says which writes succeed; after a failed write the
  recipient is removed from the room of the client the message came from, and the error of
  that removal is only logged. \<open>None\<close> is a panic, which nothing recovers here. The removals are not
  interrupted; \<open>RemoveRace\<close> splits the loop of \<^verbatim>\<open>removeFromArray\<close> into its steps, for several workers.
\<close>

fun send_all ::
    "'db service \<Rightarrow> time \<Rightarrow> (User \<Rightarrow> bool) \<Rightarrow> UDPConnection \<Rightarrow> bytes \<Rightarrow> User list \<Rightarrow>
     'db world \<times> (UDPConnection \<times> bytes) list \<Rightarrow>
     ('db world \<times> (UDPConnection \<times> bytes) list) option" where
  "send_all srv now ok client msg [] (w, out) = Some (w, out)"
| "send_all srv now ok client msg (user # users) (w, out) =
     (if ok user then send_all srv now ok client msg users (w, out @ [(u_Connection user, msg)])
      else case RemoveUser srv now client (u_ID user) w of
             None \<Rightarrow> None
           | Some (err, w') \<Rightarrow> send_all srv now ok client msg users (w', out))"

text \<open>
  One turn of the loop of \<^verbatim>\<open>sendWorker\<close> on channel \<open>i\<close>, from the receive to the next \<^verbatim>\<open>select\<close>,
  that nothing interrupts. On an empty channel the worker waits. The token parser of the service returns: a turn in which it
  panics is \<open>turn_crashes\<close> in \<open>TokenServer\<close>.
\<close>

definition work_once ::
    "(uuid \<times> User) range_order \<Rightarrow> time \<Rightarrow> (User \<Rightarrow> bool) \<Rightarrow> nat \<Rightarrow> 'db udp \<Rightarrow> 'db udp option" where
  "work_once p now ok i s =
     (case chMsg (worker s) ! i of
        [] \<Rightarrow> Some s
      | m # ms \<Rightarrow>
          (let srv = wk_service (worker s);
               s1 = s\<lparr>worker := (worker s)\<lparr>chMsg := (chMsg (worker s))[i := ms]\<rparr>\<rparr>;
               request = take (msg_request m) (buffer s1);
               (res, w) = GetUsersAndMessage srv p now (msg_client m) request (world (app s1));
               s2 = s1\<lparr>app := (app s1)\<lparr>world := w\<rparr>\<rparr>
           in case res of
                Inl err \<Rightarrow> Some s2
              | Inr (users, msg) \<Rightarrow>
                  (if msg = [] \<or> users = [] then Some s2
                   else case send_all srv now ok (msg_client m) msg users (w, sent s2) of
                          None \<Rightarrow> None
                        | Some (w', out) \<Rightarrow> Some (s2\<lparr>app := (app s2)\<lparr>world := w'\<rparr>, sent := out\<rparr>))))"

text \<open>The number that \<^verbatim>\<open>printer\<close> logs: the messages waiting in all channels.\<close>

definition printer_counter :: "'db WorkerUDP \<Rightarrow> nat" where
  "printer_counter w = fold (\<lambda>v counter. counter + length v) (chMsg w) 0"

section \<open>Queues\<close>

text \<open>The well-formedness of the queues: the round-robin index names a channel, no channel is above its capacity.\<close>

definition queues_ok :: "'db WorkerUDP \<Rightarrow> bool" where
  "queues_ok w \<longleftrightarrow> wk_count w < length (chMsg w) \<and> (\<forall>q \<in> set (chMsg w). length q \<le> chan_size w) \<and>
     (\<forall>q \<in> set (chMsg w). \<forall>m \<in> set q. 0 < msg_request m \<and> msg_request m \<le> bufferSize)"

lemma in_set_list_update: "x \<in> set (xs[i := y]) \<Longrightarrow> x = y \<or> x \<in> set xs"
  using set_update_subset_insert [of xs i y] by auto

lemma handleConnection_frame [simp]:
  "wk_service (handleConnection a n w) = wk_service w"
  "wk_rateLimit (handleConnection a n w) = wk_rateLimit w"
  "chan_size (handleConnection a n w) = chan_size w"
  "length (chMsg (handleConnection a n w)) = length (chMsg w)"
  by (auto simp: handleConnection_def counterChen_def Let_def)

lemma handleConnection_count:
  "chMsg w \<noteq> [] \<Longrightarrow> wk_count (handleConnection a n w) = (wk_count w + 1) mod length (chMsg w)"
  by (auto simp: handleConnection_def counterChen_def Let_def)

lemma handleConnection_ok:
  assumes "queues_ok w" and "0 < n" and "n \<le> bufferSize"
  shows "queues_ok (handleConnection a n w)"
proof -
  have ne: "chMsg w \<noteq> []"
    using assms(1) by (auto simp: queues_ok_def)
  let ?c = "(wk_count w + 1) mod length (chMsg w)"
  have "?c < length (chMsg w)"
    using ne by simp
  then have "chMsg w ! ?c \<in> set (chMsg w)"
    by simp
  then have "\<forall>m \<in> set (chMsg w ! ?c). 0 < msg_request m \<and> msg_request m \<le> bufferSize"
    using assms(1) by (auto simp: queues_ok_def)
  with assms ne show ?thesis
    by (auto simp: queues_ok_def handleConnection_def counterChen_def Let_def dest!: in_set_list_update)
qed

text \<open>
  The message is queued on the channel whose turn it is, behind those already there, when that
  channel has room.
\<close>

lemma handleConnection_queues:
  assumes "chMsg w \<noteq> []" and "c = (wk_count w + 1) mod length (chMsg w)"
    and "length (chMsg w ! c) < chan_size w"
  shows "chMsg (handleConnection a n w) =
    (chMsg w)[c := chMsg w ! c @ [\<lparr>msg_client = \<lparr>ClientAddr = a\<rparr>, msg_request = n\<rparr>]]"
  using assms by (simp add: handleConnection_def counterChen_def Let_def)

lemma handleConnection_drops:
  assumes "chMsg w \<noteq> []" and "c = (wk_count w + 1) mod length (chMsg w)"
    and "\<not> length (chMsg w ! c) < chan_size w"
  shows "chMsg (handleConnection a n w) = chMsg w"
  using assms by (simp add: handleConnection_def counterChen_def Let_def)

lemma handleConnection_appends:
  "c < length (chMsg w) \<Longrightarrow> \<exists>xs. chMsg (handleConnection a n w) ! c = chMsg w ! c @ xs"
  by (auto simp: handleConnection_def counterChen_def Let_def nth_list_update)

text \<open>
  A burst of datagrams that arrives before any worker runs. The \<open>k\<close>-th of them (from 0) goes to
  channel \<open>(wk_count w + 1 + k) mod n\<close>; \<open>turn w c\<close> is the \<open>k\<close> whose turn channel \<open>c\<close> is.
\<close>

definition burst :: "(UDPAddr \<times> nat) list \<Rightarrow> 'db WorkerUDP \<Rightarrow> 'db WorkerUDP" where
  "burst ds w = fold (\<lambda>(a, n). handleConnection a n) ds w"

definition turn :: "'db WorkerUDP \<Rightarrow> nat \<Rightarrow> nat" where
  "turn w c = (c + (length (chMsg w) - 1 - wk_count w)) mod length (chMsg w)"

definition queued :: "UDPAddr \<times> nat \<Rightarrow> ChanUDPMessage" where
  "queued an = \<lparr>msg_client = \<lparr>ClientAddr = fst an\<rparr>, msg_request = snd an\<rparr>"

lemma rotate_iff:
  assumes "m < n" and "c < n" and "k < (n :: nat)"
  shows "(c + (n - 1 - m)) mod n = k \<longleftrightarrow> c = (m + 1 + k) mod n"
proof -
  have "(c + (n - 1 - m)) mod n = (if c \<le> m then c + (n - 1 - m) else c - 1 - m)"
    using assms by (cases "c \<le> m") (simp_all add: le_mod_geq)
  moreover have "(m + 1 + k) mod n = (if m + 1 + k < n then m + 1 + k else m + 1 + k - n)"
    using assms by (simp add: le_mod_geq)
  ultimately show ?thesis using assms by (simp split: if_splits; arith)
qed

lemma turn_iff:
  assumes "wk_count w < length (chMsg w)" and "c < length (chMsg w)" and "k < length (chMsg w)"
  shows "turn w c = k \<longleftrightarrow> c = (wk_count w + 1 + k) mod length (chMsg w)"
  unfolding turn_def by (rule rotate_iff [OF assms])

lemma burst_queues:
  assumes "wk_count w < length (chMsg w)" and "\<forall>q \<in> set (chMsg w). length q < chan_size w"
  shows "length ds \<le> length (chMsg w) \<Longrightarrow>
    length (chMsg (burst ds w)) = length (chMsg w) \<and> chan_size (burst ds w) = chan_size w \<and>
    wk_count (burst ds w) = (wk_count w + length ds) mod length (chMsg w) \<and>
    (\<forall>c < length (chMsg w). chMsg (burst ds w) ! c =
       chMsg w ! c @ (if turn w c < length ds then [queued (ds ! turn w c)] else []))"
proof (induction ds rule: rev_induct)
  case Nil
  then show ?case using assms(1) by (simp add: burst_def)
next
  case (snoc d ds)
  let ?n = "length (chMsg w)" and ?b = "burst ds w" and ?k = "length ds"
  obtain a n where d: "d = (a, n)" by force
  have k: "?k < ?n" and IH: "length (chMsg ?b) = ?n" "chan_size ?b = chan_size w"
      "wk_count ?b = (wk_count w + ?k) mod ?n"
      "\<And>c. c < ?n \<Longrightarrow> chMsg ?b ! c = chMsg w ! c @ (if turn w c < ?k then [queued (ds ! turn w c)] else [])"
    using snoc by auto
  have step: "burst (ds @ [d]) w = handleConnection a n ?b"
    by (simp add: burst_def d)
  let ?c = "(wk_count ?b + 1) mod ?n"
  have c: "?c = (wk_count w + 1 + ?k) mod ?n" "?c < ?n"
    using k by (simp add: IH(3) mod_simps add.commute add.left_commute) (use k in \<open>auto intro: mod_less_divisor\<close>)
  have t: "turn w ?c = ?k"
    using turn_iff [OF assms(1) c(2) k] c(1) by simp
  then have "chMsg ?b ! ?c = chMsg w ! ?c" "length (chMsg ?b ! ?c) < chan_size ?b"
    using IH(2,4) c(2) assms(2) by auto
  moreover have "chMsg ?b \<noteq> []" using IH(1) k by auto
  ultimately have q: "chMsg (handleConnection a n ?b) = (chMsg ?b)[?c := chMsg w ! ?c @ [queued d]]"
    using handleConnection_queues [of ?b ?c a n] by (simp add: IH(1) queued_def d)
  have other: "turn w c < ?k \<longleftrightarrow> turn w c < Suc ?k" if "c < ?n" "c \<noteq> ?c" for c
    using turn_iff [OF assms(1) that(1) k] that(2) c(1) by auto
  show ?case
    unfolding step
    using IH k t q c(2) other \<open>chMsg ?b \<noteq> []\<close>
    by (auto simp: handleConnection_count nth_list_update nth_append mod_Suc_eq)
qed

lemma ReadFromUDP_short:
  "length d \<le> length buf \<Longrightarrow> ReadFromUDP d buf = (length d, d @ drop (length d) buf)"
  by (simp add: ReadFromUDP_def Let_def min_def)

lemma ReadFromUDP_length [simp]: "length (snd (ReadFromUDP d buf)) = length buf"
  by (auto simp: ReadFromUDP_def Let_def)

lemma printer_counter_eq: "printer_counter w = sum_list (map length (chMsg w))"
proof -
  have "fold (\<lambda>v n. n + length v) qs k = k + sum_list (map length qs)" for qs :: "ChanUDPMessage list list" and k
    by (induction qs arbitrary: k) auto
  then show ?thesis by (simp add: printer_counter_def)
qed

lemma printer_counter_bound:
  "queues_ok w \<Longrightarrow> printer_counter w \<le> length (chMsg w) * chan_size w"
proof -
  have "(\<forall>q \<in> set qs. length q \<le> n) \<Longrightarrow> sum_list (map length qs) \<le> length qs * n"
    for qs :: "ChanUDPMessage list list" and n
    by (induction qs) auto
  then show "queues_ok w \<Longrightarrow> ?thesis"
    by (simp add: printer_counter_eq queues_ok_def)
qed

section \<open>Sending\<close>

lemma RemoveUser_world:
  assumes "world_ok w"
  obtains err w' where "RemoveUser (mem_service parse cpus mem) now ds uid w = Some (err, w')" and "world_ok w'"
  using sv.RemoveUser_spec [where parse = parse and cpus = cpus and mem = mem, of w now ds uid] assms that
  unfolding world_defs by blast

lemma send_all_total:
  assumes "world_ok w"
  shows "\<exists>w'. send_all (mem_service parse cpus mem) now ok client msg users (w, out) =
      Some (w', out @ map (\<lambda>u. (u_Connection u, msg)) (filter ok users)) \<and> world_ok w'"
  using assms
proof (induction users arbitrary: w out)
  case (Cons u users)
  show ?case
  proof (cases "ok u")
    case True
    then show ?thesis
      using Cons.IH [OF Cons.prems, of "out @ [(u_Connection u, msg)]"] by simp
  next
    case False
    obtain err w' where "RemoveUser (mem_service parse cpus mem) now client (u_ID u) w = Some (err, w')" "world_ok w'"
      by (rule RemoveUser_world [OF Cons.prems])
    then show ?thesis
      using Cons.IH [of w' out] False by simp
  qed
qed simp

lemma send_all_ok:
  "\<forall>u \<in> set users. ok u \<Longrightarrow>
   send_all srv now ok client msg users (w, out) = Some (w, out @ map (\<lambda>u. (u_Connection u, msg)) users)"
  by (induction users arbitrary: out) auto

lemma GetUsersAndMessage_world:
  assumes "world_ok w"
  shows "world_ok (snd (GetUsersAndMessage (mem_service parse cpus mem) p now ds req w))"
  using sv.GetUsersAndMessage_spec [where parse = parse and cpus = cpus and mem = mem, of w p now ds req] assms
  unfolding world_defs by (auto simp: case_prod_unfold Let_def)

end
