(* ===== verification/ServerRun.thy ===== *)
theory ServerRun
  imports Machine UdpWorker
begin

text \<open>
  The running server that \<^verbatim>\<open>StartUDP\<close> of \<^verbatim>\<open>pkg/start/start.go\<close> puts together, as a step relation:
  the listener, one worker per channel, the TCP handlers and the sweeps of the two databases
  interleave. A step is one turn of a loop or one handler call (the granularity of the
  interleaving: within a turn the model does not switch to another goroutine). Datagrams,
  write results, times, map orders and the schedule are arbitrary.
\<close>

section \<open>The state and its steps\<close>

text \<open>
  Where the listener is: at the \<^verbatim>\<open>select\<close>, in \<^verbatim>\<open>ReadFromUDP\<close>, or returned. The \<^verbatim>\<open>select\<close> has a
  \<^verbatim>\<open>default\<close> branch, so it leaves the loop whenever the context is done.
\<close>

datatype listener_pc = AtSelect | Reading | Returned

record server =
  udp :: "any MemoryDb udp"
  pc :: listener_pc
  running :: "bool list"
  ctx_done :: bool

datatype action =
    Cancel
  | Select
  | Read time udp_read
  | Work nat time "(uuid \<times> User) range_order" "User \<Rightarrow> bool"
  | WorkerReturns nat
  | CallGetConnectionsNum time string
  | CallHealthCheck time string
  | CallGetServerSettings time string
  | CallCreateRoom time string duration
  | CallGetDeletedRooms time string "GetDeletedRooms_id list"
      "(string \<times> GetDeletedRooms_id) range_order" "(string \<times> GetDeletedRooms_id) range_order"
  | SweepData time "(string \<times> any rowType) range_order" "(string \<times> string rowType) range_order"
  | SweepLimits time "(string \<times> any rowType) range_order" "(string \<times> string rowType) range_order"

text \<open>
  What \<^verbatim>\<open>StartUDP\<close> is called with, and the token parser and machine it runs on. The parser returns on every token. That of
  the generator does not: it panics on some texts (\<open>parse_of\<close> in \<open>Token\<close> and \<open>TokenServer\<close>, whose steps end at such a
  text).
\<close>

record config =
  cf_parse :: "time \<Rightarrow> string \<Rightarrow> error + Info"
  cf_numCPU :: go_int
  cf_memSys :: uint64
  cf_udpRateLimit :: go_int
  cf_dataTTL :: duration

definition cf_service :: "config \<Rightarrow> any MemoryDb service" where
  "cf_service cf = NewService (cf_parse cf) MemoryDb_ops (cf_numCPU cf) (cf_memSys cf)"

definition cf_settings :: "config \<Rightarrow> any MemoryDb ServerSettings" where
  "cf_settings cf = NewServerSettings (NewRateLimit 10 MemoryDb_ops) (cf_service cf)"

text \<open>\<^verbatim>\<open>Sender\<close> starts a worker for every channel: which workers run.\<close>

definition Sender :: "'db WorkerUDP \<Rightarrow> bool list" where
  "Sender w = map (\<lambda>ch. True) (chMsg w)"

lemma Sender_running [simp]: "Sender w = replicate (length (chMsg w)) True"
  by (simp add: Sender_def map_replicate_const)

text \<open>
  \<^verbatim>\<open>StartUDP\<close> up to the point where its goroutines run: \<open>keyErr\<close> is the result of
  \<^verbatim>\<open>NewTokenGenerator\<close>, the other two are those of \<^verbatim>\<open>NewWorkerUDP\<close>. \<open>None\<close> is a panic.
\<close>

definition StartUDP :: "config \<Rightarrow> error option \<Rightarrow> error option \<Rightarrow> error option \<Rightarrow> (error + server) option" where
  "StartUDP cf keyErr resolveErr listenErr =
     (let ramDB = NewMemoryDb (cf_dataTTL cf); rateLimitDB = NewMemoryDb 1
      in case keyErr of
           Some err \<Rightarrow> Some (Inl err)
         | None \<Rightarrow>
             (case NewWorkerUDP (cf_numCPU cf) resolveErr listenErr (cf_service cf) (cf_udpRateLimit cf) MemoryDb_ops of
                None \<Rightarrow> None
              | Some (Inl err) \<Rightarrow> Some (Inl err)
              | Some (Inr newUDP) \<Rightarrow>
                  Some (Inr
                    \<lparr>udp = \<lparr>worker = newUDP, buffer = replicate bufferSize (CHR 0x00),
                            app = \<lparr>world = \<lparr>store = ramDB, heap = []\<rparr>, limits = rateLimitDB\<rparr>, sent = []\<rparr>,
                     pc = AtSelect, running = Sender newUDP, ctx_done = False\<rparr>)))"

definition on_app :: "(any MemoryDb app \<Rightarrow> any MemoryDb app) \<Rightarrow> server \<Rightarrow> server" where
  "on_app f s = s\<lparr>udp := (udp s)\<lparr>app := f (app (udp s))\<rparr>\<rparr>"

text \<open>
  The goroutines of the server one step at a time. Times are after Go's zero time. A step is the listener's or a
  worker's turn between two of its blocking operations, one sweep of a table, or one call of a handler, and nothing interrupts it;
  what interrupted turns can do beyond that is the subject of theories of their own, \<open>JoinRace\<close> (two joins),
  \<open>RemoveRace\<close> (two removals) and \<open>CreateRace\<close> (two rooms created). A worker whose turn would panic has no step
  (\<open>turn_panics\<close> below).
\<close>

inductive step :: "config \<Rightarrow> server \<Rightarrow> action \<Rightarrow> server \<Rightarrow> bool" for cf where
  cancel: "step cf s Cancel (s\<lparr>ctx_done := True\<rparr>)"
| select: "pc s = AtSelect \<Longrightarrow>
    step cf s Select (s\<lparr>pc := (if ctx_done s then Returned else Reading)\<rparr>)"
| read: "pc s = Reading \<Longrightarrow> 0 < now \<Longrightarrow>
    step cf s (Read now rd) (s\<lparr>udp := listen_once now rd (udp s), pc := AtSelect\<rparr>)"
| work: "i < length (running s) \<Longrightarrow> running s ! i \<Longrightarrow> chMsg (worker (udp s)) ! i \<noteq> [] \<Longrightarrow> 0 < now \<Longrightarrow>
    work_once p now ok i (udp s) = Some u \<Longrightarrow> step cf s (Work i now p ok) (s\<lparr>udp := u\<rparr>)"
| worker_returns: "i < length (running s) \<Longrightarrow> running s ! i \<Longrightarrow> ctx_done s \<Longrightarrow>
    step cf s (WorkerReturns i) (s\<lparr>running := (running s)[i := False]\<rparr>)"
| call_num: "0 < now \<Longrightarrow> step cf s (CallGetConnectionsNum now tok)
    (on_app (\<lambda>a. snd (tcp_GetConnectionsNum (cf_settings cf) now tok a)) s)"
| call_health: "0 < now \<Longrightarrow> step cf s (CallHealthCheck now tok)
    (on_app (\<lambda>a. snd (tcp_HealthCheck (cf_settings cf) now tok a)) s)"
| call_settings: "0 < now \<Longrightarrow> step cf s (CallGetServerSettings now tok)
    (on_app (\<lambda>a. snd (tcp_GetServerSettings (cf_settings cf) (cf_numCPU cf) (cf_memSys cf) now tok a)) s)"
| call_create: "0 < now \<Longrightarrow> step cf s (CallCreateRoom now tok ttl)
    (on_app (\<lambda>a. snd (tcp_CreateRoom (cf_settings cf) now tok ttl a)) s)"
| call_deleted: "0 < now \<Longrightarrow> step cf s (CallGetDeletedRooms now tok ids p q)
    (on_app (\<lambda>a. snd (tcp_GetDeletedRooms (cf_settings cf) p q now tok ids a)) s)"
| sweep_data: "0 < now \<Longrightarrow> step cf s (SweepData now p q)
    (on_app (\<lambda>a. a\<lparr>world := (world a)\<lparr>store := removeOldData p q now (store (world a))\<rparr>\<rparr>) s)"
| sweep_limits: "0 < now \<Longrightarrow> step cf s (SweepLimits now p q)
    (on_app (\<lambda>a. a\<lparr>limits := removeOldData p q now (limits a)\<rparr>) s)"

inductive_simps step_simps:
  "step cf s Cancel s'"
  "step cf s Select s'"
  "step cf s (Read now rd) s'"
  "step cf s (Work i now p ok) s'"
  "step cf s (WorkerReturns i) s'"

definition turn_panics :: "server \<Rightarrow> action \<Rightarrow> bool" where
  "turn_panics s a \<longleftrightarrow>
     (case a of
        Work i now p ok \<Rightarrow> i < length (running s) \<and> running s ! i \<and> work_once p now ok i (udp s) = None
      | _ \<Rightarrow> False)"

text \<open>The initial states: what \<^verbatim>\<open>StartUDP\<close> starts when nothing fails.\<close>

definition started :: "config \<Rightarrow> server \<Rightarrow> bool" where
  "started cf s \<longleftrightarrow> StartUDP cf None None None = Some (Inr s)"

text \<open>The configurations considered: at least one processor and a positive rate limit.\<close>

definition config_ok :: "config \<Rightarrow> bool" where
  "config_ok cf \<longleftrightarrow> 0 <s cf_numCPU cf \<and> 0 <s cf_udpRateLimit cf"

section \<open>The invariant\<close>

definition server_ok :: "config \<Rightarrow> server \<Rightarrow> bool" where
  "server_ok cf s \<longleftrightarrow>
     app_ok (app (udp s)) \<and> queues_ok (worker (udp s)) \<and> length (buffer (udp s)) = bufferSize \<and>
     length (running s) = length (chMsg (worker (udp s))) \<and>
     length (chMsg (worker (udp s))) = unat (cf_numCPU cf) \<and>
     chan_size (worker (udp s)) = unat (cf_udpRateLimit cf) \<and>
     wk_service (worker (udp s)) = cf_service cf \<and>
     wk_rateLimit (worker (udp s)) = NewRateLimit (cf_udpRateLimit cf) MemoryDb_ops"

lemma on_app_sel [simp]:
  "udp (on_app f s) = (udp s)\<lparr>app := f (app (udp s))\<rparr>" "pc (on_app f s) = pc s"
  "running (on_app f s) = running s" "ctx_done (on_app f s) = ctx_done s"
  by (simp_all add: on_app_def)

lemma server_ok_on_app: "server_ok cf s \<Longrightarrow> app_ok (f (app (udp s))) \<Longrightarrow> server_ok cf (on_app f s)"
  by (simp add: server_ok_def)

lemma sless_unat_pos: "0 <s (n :: 64 word) \<Longrightarrow> 0 < unat n"
  by (cases "n = 0") (auto simp: unat_gt_0)

lemma started_ok:
  assumes "config_ok cf" and "started cf s"
  shows "server_ok cf s"
proof -
  have "\<not> cf_numCPU cf <s 0" "\<not> cf_udpRateLimit cf <s 0" "0 < unat (cf_numCPU cf)"
    using assms(1) by (auto simp: config_ok_def word_sless_alt intro: sless_unat_pos)
  then show ?thesis
    using assms(2) new_app_ok [of "cf_dataTTL cf"]
    by (auto simp: started_def StartUDP_def NewWorkerUDP_def server_ok_def queues_ok_def Let_def
        new_app_def new_world_def split: if_splits)
qed

lemma listen_once_ok:
  assumes "server_ok cf s" and "config_ok cf" and "0 < now"
  shows "server_ok cf (s\<lparr>udp := listen_once now rd (udp s), pc := c\<rparr>)"
proof (cases rd)
  case ReadErr
  then show ?thesis using assms(1) by (simp add: listen_once_def server_ok_def)
next
  case (Datagram a d)
  let ?lim = "cf_udpRateLimit cf" and ?st = "app (udp s)"
  have st: "app_ok ?st" "0 <s ?lim"
    using assms by (simp_all add: server_ok_def config_ok_def)
  obtain l where l: "check_limit (NewRateLimit ?lim MemoryDb_ops) now (UDPAddr_String a) ?st = (False, ?st\<lparr>limits := l\<rparr>)"
      "app_ok (?st\<lparr>limits := l\<rparr>)"
    by (rule check_limit_ok [OF st(1) assms(3) st(2)])
  have len: "fst (ReadFromUDP d (buffer (udp s))) \<le> bufferSize"
    using assms(1) by (simp add: ReadFromUDP_def Let_def server_ok_def)
  show ?thesis
    using assms(1) l len handleConnection_ok [OF _ _ len, of "worker (udp s)" a]
    by (simp add: Datagram listen_once_def case_prod_unfold Let_def server_ok_def)
qed

lemma work_once_total:
  assumes "server_ok cf s" and "i < length (running s)"
  shows "\<exists>u. work_once p now ok i (udp s) = Some u \<and> server_ok cf (s\<lparr>udp := u\<rparr>)"
proof (cases "chMsg (worker (udp s)) ! i")
  case Nil
  then show ?thesis using assms(1) by (simp add: work_once_def)
next
  case (Cons m ms)
  let ?w = "worker (udp s)" and ?st = "app (udp s)" and ?srv = "cf_service cf"
  let ?req = "take (msg_request m) (buffer (udp s))"
  obtain res w where G: "GetUsersAndMessage ?srv p now (msg_client m) ?req (world ?st) = (res, w)"
    by force
  have "world_ok (snd (GetUsersAndMessage ?srv p now (msg_client m) ?req (world ?st)))"
    unfolding cf_service_def using assms(1) by (intro GetUsersAndMessage_world) (simp add: server_ok_def app_ok_def)
  then have w: "world_ok w" using G by simp
  have srv: "wk_service ?w = ?srv" using assms(1) by (simp add: server_ok_def)
  have "chMsg ?w ! i \<in> set (chMsg ?w)"
    using assms by (intro nth_mem) (simp add: server_ok_def)
  then have q: "queues_ok (?w\<lparr>chMsg := (chMsg ?w)[i := ms]\<rparr>)"
    using assms(1) Cons by (force simp: server_ok_def queues_ok_def dest!: in_set_list_update)
  have ok: "server_ok cf (s\<lparr>udp := (udp s)\<lparr>worker := ?w\<lparr>chMsg := (chMsg ?w)[i := ms]\<rparr>,
      app := ?st\<lparr>world := w'\<rparr>, sent := out\<rparr>\<rparr>)" if "world_ok w'" for w' out
    using assms(1) q that by (simp add: server_ok_def app_ok_world)
  have ok_same: "server_ok cf (s\<lparr>udp := (udp s)\<lparr>worker := ?w\<lparr>chMsg := (chMsg ?w)[i := ms]\<rparr>,
      app := ?st\<lparr>world := w\<rparr>\<rparr>\<rparr>)"
    using assms(1) q w by (simp add: server_ok_def app_ok_world)
  have send: "\<exists>w'. send_all ?srv now ok (msg_client m) msg users (w, out) =
      Some (w', out @ map (\<lambda>u. (u_Connection u, msg)) (filter ok users)) \<and> world_ok w'" for users msg out
    unfolding cf_service_def by (rule send_all_total [OF w])
  show ?thesis
  proof (cases res)
    case (Inl err)
    then show ?thesis using ok_same G by (simp add: work_once_def Cons srv)
  next
    case (Inr um)
    obtain users msg where um: "um = (users, msg)" by force
    show ?thesis
      using ok_same ok send [of msg users "sent (udp s)"] G
      by (auto simp: work_once_def Cons srv Inr um Let_def)
  qed
qed

lemma step_ok:
  assumes "server_ok cf s" and "config_ok cf" and "step cf s a s'"
  shows "server_ok cf s'"
  using assms(3)
proof cases
  case (work i now p ok u)
  then show ?thesis using work_once_total [OF assms(1), of i p now ok] by auto
next
  case (read now rd)
  then show ?thesis using listen_once_ok [OF assms(1,2)] by simp
qed (use assms(1) in \<open>auto simp: server_ok_def cf_settings_def cf_service_def sweep_data_ok sweep_limits_ok
      word_sless_alt intro!: tcp_ok\<close>)

interpretation srv: invariant_system
    "\<lambda>s. config_ok cf \<and> started cf s" "step cf" "\<lambda>s. config_ok cf \<and> server_ok cf s" for cf
  by unfold_locales (auto intro: started_ok step_ok)

lemma reachable_ok:
  assumes "config_ok cf" and "reachable (started cf) (step cf) s"
  shows "server_ok cf s"
  using srv.reachable_inv [of cf s] assms by (auto simp: reachable_def)

section \<open>A quiet server delivers\<close>

definition idle :: "server \<Rightarrow> bool" where
  "idle s \<longleftrightarrow> pc s = AtSelect \<and> \<not> ctx_done s \<and> (\<forall>q \<in> set (chMsg (worker (udp s))). q = []) \<and>
     (\<forall>b \<in> set (running s). b)"

definition next_channel :: "server \<Rightarrow> nat" where
  "next_channel s = (wk_count (worker (udp s)) + 1) mod length (chMsg (worker (udp s)))"

text \<open>
  The three steps that carry one datagram through a quiet server: the listener goes on to
  read, reads the datagram, and the worker of the next channel handles it.
\<close>

definition delivery :: "time \<Rightarrow> UDPAddr \<Rightarrow> bytes \<Rightarrow> (uuid \<times> User) range_order \<Rightarrow> nat \<Rightarrow> action list" where
  "delivery now a d p i = [Select, Read now (Datagram a d), Work i now p (\<lambda>_. True)]"

lemma delivery_run:
  assumes ok: "server_ok cf s" "config_ok cf" and "idle s" and "0 < now"
    and d: "0 < length d" "length d \<le> bufferSize" and "msg \<noteq> []"
    and G: "GetUsersAndMessage (cf_service cf) p now \<lparr>ClientAddr = a\<rparr> d (world (app (udp s))) = (Inr (users, msg), w)"
  shows "\<exists>s'. run (step cf) s (delivery now a d p (next_channel s)) s' \<and> server_ok cf s' \<and> idle s' \<and>
    world (app (udp s')) = w \<and> sent (udp s') = sent (udp s) @ map (\<lambda>u. (u_Connection u, msg)) users"
proof -
  let ?u = "udp s" and ?c = "next_channel s"
  let ?w = "worker ?u" and ?st = "app ?u"
  let ?lim = "cf_udpRateLimit cf"
  have st: "app_ok ?st" "0 <s ?lim"
    using ok by (simp_all add: server_ok_def config_ok_def)
  obtain l where l: "check_limit (NewRateLimit ?lim MemoryDb_ops) now (UDPAddr_String a) ?st = (False, ?st\<lparr>limits := l\<rparr>)"
    by (rule check_limit_ok [OF st(1) \<open>0 < now\<close> st(2)])
  have ne: "chMsg ?w \<noteq> []" and cap: "0 < chan_size ?w"
    using ok sless_unat_pos [OF st(2)] by (auto simp: server_ok_def queues_ok_def)
  have c: "?c < length (chMsg ?w)"
    using ne by (simp add: next_channel_def)
  then have empty: "chMsg ?w ! ?c = []"
    using \<open>idle s\<close> by (simp add: idle_def)
  let ?m = "\<lparr>msg_client = \<lparr>ClientAddr = a\<rparr>, msg_request = length d\<rparr>"
  let ?h = "handleConnection a (length d) ?w"
  have h: "chMsg ?h = (chMsg ?w)[?c := [?m]]"
    using handleConnection_queues [OF ne, of ?c a "length d"] empty cap by (simp add: next_channel_def)
  have buf: "ReadFromUDP d (buffer ?u) = (length d, d @ drop (length d) (buffer ?u))"
    using ok d by (intro ReadFromUDP_short) (simp add: server_ok_def)
  define u1 where "u1 = ?u\<lparr>worker := ?h, buffer := d @ drop (length d) (buffer ?u), app := ?st\<lparr>limits := l\<rparr>\<rparr>"
  define u2 where "u2 = u1\<lparr>worker := ?h\<lparr>chMsg := chMsg ?w\<rparr>, app := ?st\<lparr>limits := l, world := w\<rparr>,
      sent := sent ?u @ map (\<lambda>u. (u_Connection u, msg)) users\<rparr>"
  have "listen_once now (Datagram a d) ?u = u1"
    using ok l buf d by (simp add: listen_once_def server_ok_def u1_def)
  moreover have "work_once p now (\<lambda>_. True) ?c u1 = Some u2"
    using ok G h c empty \<open>msg \<noteq> []\<close>
    by (cases "users = []") (auto simp: work_once_def u1_def u2_def server_ok_def send_all_ok list_update_same_conv)
  moreover have "running s ! ?c" "?c < length (running s)"
    using ok \<open>idle s\<close> c by (auto simp: idle_def server_ok_def)
  ultimately have "run (step cf) s (delivery now a d p ?c) (s\<lparr>pc := AtSelect, udp := u2\<rparr>)"
    using \<open>idle s\<close> \<open>0 < now\<close> h c
    by (auto simp: delivery_def run_Cons_iff step_simps idle_def u1_def intro!: exI)
  moreover from this have "server_ok cf (s\<lparr>pc := AtSelect, udp := u2\<rparr>)"
    using srv.run_inv [of cf s] ok by blast
  ultimately show ?thesis
    using \<open>idle s\<close> by (intro exI [of _ "s\<lparr>pc := AtSelect, udp := u2\<rparr>"]) (auto simp: idle_def u2_def u1_def)
qed

end
