(* ===== verification/ServerProps.thy ===== *)
theory ServerProps
  imports ServerRun
begin

text \<open>
  Properties of the running server: what holds in every state it can reach, what it delivers,
  and what the shared receive buffer does to messages that wait in a queue.
\<close>

section \<open>A concrete server\<close>

definition ex_config :: config where
  "ex_config = \<lparr>cf_parse = ex_parse, cf_numCPU = 2, cf_memSys = 0, cf_udpRateLimit = 3, cf_dataTTL = 10\<rparr>"

definition ex_worker :: "any MemoryDb WorkerUDP" where
  "ex_worker = \<lparr>wk_service = cf_service ex_config, chMsg = [[], []], chan_size = 3,
     wk_rateLimit = NewRateLimit 3 MemoryDb_ops, wk_count = 0\<rparr>"

definition ex_server :: server where
  "ex_server =
     \<lparr>udp = \<lparr>worker = ex_worker, buffer = replicate bufferSize (CHR 0x00), app = new_app 10, sent = []\<rparr>,
      pc = AtSelect, running = [True, True], ctx_done = False\<rparr>"

lemma ex_config_ok [simp]: "config_ok ex_config"
  by (simp add: config_ok_def ex_config_def word_sless_alt)

lemma ex_config_sel [simp]:
  "cf_parse ex_config = ex_parse" "cf_numCPU ex_config = 2" "cf_udpRateLimit ex_config = 3"
  by (simp_all add: ex_config_def)

lemma replicate_two: "replicate 2 x = [x, x]"
  by (simp add: numeral_2_eq_2)

lemma ex_server_started [simp]: "started ex_config ex_server"
  by (simp add: started_def StartUDP_def NewWorkerUDP_def ex_server_def ex_worker_def replicate_two
      word_sless_alt Let_def new_app_def new_world_def) (simp add: ex_config_def)

lemma ex_server_reachable [simp]: "reachable (started ex_config) (step ex_config) ex_server"
  by (simp add: reachable_init)

section \<open>Every reachable state\<close>



text \<open>
  A turn of a worker that no other worker interrupts returns, for every outcome of its writes and a token parser that
  returns. Turns that do interrupt each other while they remove users can panic, in \<open>RemoveRace\<close>; the parser of the
  generator can panic too, in \<open>TokenServer\<close>.
\<close>

lemma uninterrupted_turns_return:
  assumes "config_ok cf" and "reachable (started cf) (step cf) s"
  shows "\<not> turn_panics s a \<and>
    (\<forall>i now p ok. i < length (running s) \<longrightarrow> running s ! i \<longrightarrow> chMsg (worker (udp s)) ! i \<noteq> [] \<longrightarrow> 0 < now \<longrightarrow>
       (\<exists>s'. step cf s (Work i now p ok) s'))"
proof -
  note T = work_once_total [OF reachable_ok [OF assms]]
  have "\<not> turn_panics s a"
  proof (cases a)
    case (Work i now p ok)
    then show ?thesis using T [of i p now ok] by (auto simp: turn_panics_def)
  qed (simp_all add: turn_panics_def)
  moreover have "\<exists>s'. step cf s (Work i now p ok) s'"
    if "i < length (running s)" "running s ! i" "chMsg (worker (udp s)) ! i \<noteq> []" "0 < now" for i now p ok
    using T [OF that(1), of p now ok] that by (auto simp: step_simps)
  ultimately show ?thesis by blast
qed

text \<open>
  C5: rooms are isolated. Whatever a worker's turn writes goes to the client the message came
  from, or is the message itself and goes to members of that client's room; nothing that was
  written before is changed.
\<close>

theorem work_isolates_rooms:
  assumes "config_ok cf" and "reachable (started cf) (step cf) s" and "step cf s (Work i now p ok) s'"
  shows "\<exists>m ms out. chMsg (worker (udp s)) ! i = m # ms \<and> sent (udp s') = sent (udp s) @ out \<and>
    (\<forall>(c, b) \<in> set out.
       c = msg_client m \<or>
       (\<exists>info mem. spec_session (abs_world (world (app (udp s)))) (msg_client m) = Inr (info, mem) \<and>
          c \<in> u_Connection ` ran mem \<and> b = take (msg_request m) (buffer (udp s))))"
proof -
  have ok: "server_ok cf s" by (rule reachable_ok [OF assms(1,2)])
  obtain u m ms where u: "work_once p now ok i (udp s) = Some u" "s' = s\<lparr>udp := u\<rparr>"
    and m: "chMsg (worker (udp s)) ! i = m # ms"
    using assms(3) by (auto simp: step_simps neq_Nil_conv)
  let ?w = "world (app (udp s))" and ?req = "take (msg_request m) (buffer (udp s))"
  have w: "world_ok ?w" and srv: "wk_service (worker (udp s)) = cf_service cf"
    using ok by (simp_all add: server_ok_def app_ok_def)
  obtain res w' where G: "GetUsersAndMessage (cf_service cf) p now (msg_client m) ?req ?w = (res, w')"
    by force
  note G' = handshake_spec [OF w, where parse = "cf_parse cf" and cpus = "cf_numCPU cf" and mem = "cf_memSys cf"
      and p = p and now = now and ds = "msg_client m" and req = ?req, folded cf_service_def, unfolded G]
  have "world_ok w'" using G' by simp
  then have send: "\<exists>w''. send_all (cf_service cf) now ok (msg_client m) msg users (w', sent (udp s)) =
      Some (w'', sent (udp s) @ map (\<lambda>u. (u_Connection u, msg)) (filter ok users))" for msg users
    unfolding cf_service_def using send_all_total [of w'] by blast
  show ?thesis
  proof (cases res)
    case (Inl err)
    then show ?thesis using u m G by (auto simp: work_once_def srv intro!: exI [of _ "[]"])
  next
    case (Inr um)
    obtain users msg where um: "um = (users, msg)" by force
    obtain w'' where "send_all (cf_service cf) now ok (msg_client m) msg users (w', sent (udp s)) =
        Some (w'', sent (udp s) @ map (\<lambda>u. (u_Connection u, msg)) (filter ok users))"
      using send by blast
    then have "\<exists>out. sent u = sent (udp s) @ out \<and> set out \<subseteq> (\<lambda>u. (u_Connection u, msg)) ` set users"
      using u G by (auto simp: work_once_def m srv Inr um Let_def split: if_splits)
    moreover have "(\<forall>u \<in> set users. u_Connection u = msg_client m) \<or>
        (\<exists>info mem. spec_session (abs_world ?w) (msg_client m) = Inr (info, mem) \<and> set users \<subseteq> ran mem \<and> msg = ?req)"
      using G' by (auto simp: Inr um reply_to_self_def split: sum.splits if_splits)
    ultimately show ?thesis
      using m u(2) by fastforce
  qed
qed

lemma ex_server_idle [simp]: "idle ex_server"
  by (simp add: idle_def ex_server_def ex_worker_def)

lemma next_channel_ex [simp]: "next_channel ex_server = 1"
  by (simp add: next_channel_def ex_server_def ex_worker_def)

abbreviation server_world :: "server \<Rightarrow> any MemoryDb world" where
  "server_world s \<equiv> world (app (udp s))"

lemma handshake_delivery:
  assumes "server_ok cf s" and "config_ok cf" and "idle s" and "0 < now"
    and "cf_parse cf now t = Inr i" and "sessions (abs_world (server_world s)) \<lparr>ClientAddr = a\<rparr> = None"
    and "0 < length t" and "length t \<le> bufferSize"
  shows "\<exists>s'. run (step cf) s (delivery now a t p (next_channel s)) s' \<and> server_ok cf s' \<and> idle s' \<and>
    abs_world (server_world s') = spec_join \<lparr>ClientAddr = a\<rparr> i (abs_world (server_world s)) \<and>
    sent (udp s') = sent (udp s) @ [(\<lparr>ClientAddr = a\<rparr>, uuid_String (UserID i))]"
proof -
  let ?A = "\<lparr>ClientAddr = a\<rparr>"
  have w: "world_ok (server_world s)" using assms(1) by (simp add: server_ok_def app_ok_def)
  obtain w1 where "GetUsersAndMessage (cf_service cf) p now ?A t (server_world s) =
        (Inr ([\<lparr>u_ID = 0, u_Connection = ?A\<rparr>], uuid_String (UserID i)), w1)"
      "abs_world w1 = spec_join ?A i (abs_world (server_world s))"
    unfolding cf_service_def
    by (rule handshake [of _ ?A "cf_parse cf" now t i "cf_numCPU cf" "cf_memSys cf" p, OF w assms(6,5)])
      (auto simp: reply_to_self_def)
  then show ?thesis
    using delivery_run [OF assms(1-4,7,8) uuid_String_nonempty, where p = p and a = a] by fastforce
qed

lemma relay_delivery:
  assumes "server_ok cf s" and "config_ok cf" and "idle s" and "0 < now"
    and "spec_session (abs_world (server_world s)) \<lparr>ClientAddr = a\<rparr> = Inr (i, m)"
    and "0 < length d" and "length d \<le> bufferSize" and "length d \<noteq> 454" and "length d \<noteq> 343"
  shows "\<exists>s' users. run (step cf) s (delivery now a d p (next_channel s)) s' \<and>
    sent (udp s') = sent (udp s) @ map (\<lambda>u. (u_Connection u, d)) users \<and>
    distinct (map u_ID users) \<and> set users = {u \<in> ran m. \<not> is_sender i \<lparr>ClientAddr = a\<rparr> u}"
proof -
  let ?A = "\<lparr>ClientAddr = a\<rparr>"
  have w: "world_ok (server_world s)" using assms(1) by (simp add: server_ok_def app_ok_def)
  have "\<exists>users w3. GetUsersAndMessage (cf_service cf) p now ?A d (server_world s) = (Inr (users, d), w3) \<and>
      distinct (map u_ID users) \<and> set users = {u \<in> ran m. \<not> is_sender i ?A u}"
    using handshake_spec [OF w, where parse = "cf_parse cf" and cpus = "cf_numCPU cf" and mem = "cf_memSys cf"
        and p = p and now = now and ds = ?A and req = d, folded cf_service_def] assms(8,9)
    unfolding assms(5) by (auto split: prod.splits)
  moreover have "d \<noteq> []" using assms(6) by auto
  ultimately show ?thesis
    using delivery_run [OF assms(1-4,6,7), where p = p and a = a] by blast
qed

lemma ex_addr_eta [simp]: "\<lparr>ClientAddr = ClientAddr (ex_addr n)\<rparr> = ex_addr n"
  by (simp add: ex_addr_def)

lemma ex_no_session [simp]: "sessions (abs_world (server_world ex_server)) c = None"
  by (simp add: ex_server_def new_app_def abs_new_world)

lemma ex_parse_simps [simp]:
  "ex_parse now ''alice'' = Inr (ex_info 7)" "ex_parse now ''bob'' = Inr (ex_info 8)"
  by (simp_all add: ex_parse_def)

lemma ex_delivery:
  "\<exists>s'. run (step ex_config) ex_server (delivery 5 (ClientAddr (ex_addr 1)) ''alice'' insertion_order 1) s'"
  using handshake_delivery [OF reachable_ok [OF ex_config_ok ex_server_reachable] ex_config_ok ex_server_idle,
      of 5 "''alice''" "ex_info 7" "ClientAddr (ex_addr 1)" insertion_order]
  by (auto simp: bufferSize_def)

theorem work_isolates_rooms_witness:
  "\<exists>s s' m ms out. reachable (started ex_config) (step ex_config) s \<and>
     step ex_config s (Work 1 5 insertion_order (\<lambda>_. True)) s' \<and>
     chMsg (worker (udp s)) ! 1 = m # ms \<and> sent (udp s') = sent (udp s) @ out"
proof -
  obtain s s' where "reachable (started ex_config) (step ex_config) s"
      and "step ex_config s (Work 1 5 insertion_order (\<lambda>_. True)) s'"
    using ex_delivery ex_server_reachable
    unfolding delivery_def run_Cons_iff run_Nil_iff by (blast intro: reachable_step)
  with work_isolates_rooms [OF ex_config_ok this] show ?thesis by blast
qed

text \<open>
  C1: two clients exchange a message through the whole server. From a quiet state of the server,
  two clients without a session send their tokens and then the first sends a datagram; the
  listener and the workers carry the three datagrams through. Each client gets its user id, and
  the datagram arrives unchanged at the second client.
\<close>

theorem clients_exchange_over_udp:
  assumes "config_ok cf" and "reachable (started cf) (step cf) s" and "idle s" and "0 < now"
    and "cf_parse cf now ta = Inr iA" and "cf_parse cf now tb = Inr iB"
    and "room_of iA = room_of iB" and "UserID iA \<noteq> UserID iB"
    and "sessions (abs_world (world (app (udp s)))) \<lparr>ClientAddr = a\<rparr> = None"
    and "sessions (abs_world (world (app (udp s)))) \<lparr>ClientAddr = b\<rparr> = None" and "a \<noteq> b"
    and "\<forall>d \<in> {ta, tb, req}. 0 < length d \<and> length d \<le> bufferSize"
    and "length req \<noteq> 454" and "length req \<noteq> 343"
  shows "\<exists>i j k s' out.
    run (step cf) s (delivery now a ta p i @ delivery now b tb p j @ delivery now a req p k) s' \<and>
    sent (udp s') = sent (udp s) @
      [(\<lparr>ClientAddr = a\<rparr>, uuid_String (UserID iA)), (\<lparr>ClientAddr = b\<rparr>, uuid_String (UserID iB))] @ out \<and>
    (\<lparr>ClientAddr = b\<rparr>, req) \<in> set out \<and> (\<forall>(c, x) \<in> set out. x = req)"
proof -
  let ?A = "\<lparr>ClientAddr = a\<rparr>" and ?B = "\<lparr>ClientAddr = b\<rparr>"
  have ok: "server_ok cf s" by (rule reachable_ok [OF assms(1,2)])
  obtain s1 where s1: "run (step cf) s (delivery now a ta p (next_channel s)) s1" "server_ok cf s1" "idle s1"
      "abs_world (server_world s1) = spec_join ?A iA (abs_world (server_world s))"
      "sent (udp s1) = sent (udp s) @ [(?A, uuid_String (UserID iA))]"
    using handshake_delivery [OF ok assms(1,3,4,5,9), of p] assms(12) by auto
  have "sessions (abs_world (server_world s1)) ?B = None"
    using assms(10,11) by (simp add: s1(4) spec_join_def)
  then obtain s2 where s2: "run (step cf) s1 (delivery now b tb p (next_channel s1)) s2" "server_ok cf s2" "idle s2"
      "abs_world (server_world s2) = spec_join ?B iB (abs_world (server_world s1))"
      "sent (udp s2) = sent (udp s1) @ [(?B, uuid_String (UserID iB))]"
    using handshake_delivery [OF s1(2) assms(1) s1(3) assms(4,6), of b p] assms(12) by auto
  let ?b = "\<lparr>u_ID = UserID iB, u_Connection = ?B\<rparr>"
  obtain m where m: "rooms (abs_world (server_world s2)) (room_of iA) = Some m" "m (UserID iB) = Some ?b"
    using assms(7) by (simp add: s2(4) spec_join_def)
  have "spec_session (abs_world (server_world s2)) ?A = Inr (iA, m)"
    using m assms(11) by (simp add: s2(4) s1(4) spec_join_def)
  then obtain s3 users where s3: "run (step cf) s2 (delivery now a req p (next_channel s2)) s3"
      "sent (udp s3) = sent (udp s2) @ map (\<lambda>u. (u_Connection u, req)) users"
      "set users = {u \<in> ran m. \<not> is_sender iA ?A u}"
    using relay_delivery [OF s2(2) assms(1) s2(3) assms(4), of a iA m req p] assms(12-14) by auto
  have "?b \<in> set users"
    using s3(3) assms(8) ranI [of m "UserID iB" ?b, OF m(2)] by (simp add: is_sender_def)
  then have "(?B, req) \<in> set (map (\<lambda>u. (u_Connection u, req)) users)"
    by force
  moreover have "run (step cf) s (delivery now a ta p (next_channel s) @ delivery now b tb p (next_channel s1) @
      delivery now a req p (next_channel s2)) s3"
    using s1(1) s2(1) s3(1) by (auto simp: run_append)
  ultimately show ?thesis
    using s1(5) s2(5) s3(2)
    by (intro exI [of _ "next_channel s"] exI [of _ "next_channel s1"] exI [of _ "next_channel s2"]
        exI [of _ s3] exI [of _ "map (\<lambda>u. (u_Connection u, req)) users"]) auto
qed

theorem clients_exchange_over_udp_witness:
  "\<exists>acts s'. run (step ex_config) ex_server acts s' \<and>
     (\<exists>out. sent (udp s') = [(ex_addr 1, uuid_String 7), (ex_addr 2, uuid_String 8)] @ out \<and>
            (ex_addr 2, ''hello'') \<in> set out)"
proof -
  have "room_of (ex_info 7) = room_of (ex_info 8)" "UserID (ex_info 7) = 7" "UserID (ex_info 8) = 8"
    "ClientAddr (ex_addr 1) \<noteq> ClientAddr (ex_addr 2)" "sent (udp ex_server) = []"
    by (simp_all add: room_of_def ex_info_def ex_addr_def ex_server_def)
  then show ?thesis
    using clients_exchange_over_udp [OF ex_config_ok ex_server_reachable ex_server_idle, of 5 "''alice''" "ex_info 7"
        "''bob''" "ex_info 8" "ClientAddr (ex_addr 1)" "ClientAddr (ex_addr 2)" "''hello''" insertion_order]
    by (simp add: bufferSize_def) blast
qed

section \<open>The shared receive buffer\<close>

lemma read_step:
  assumes "server_ok cf s" and "config_ok cf" and "pc s = AtSelect" and "\<not> ctx_done s" and "0 < now"
    and "0 < length d" and "length d \<le> bufferSize"
  shows "\<exists>s'. run (step cf) s [Select, Read now (Datagram a d)] s' \<and> server_ok cf s' \<and>
    pc s' = AtSelect \<and> \<not> ctx_done s' \<and> running s' = running s \<and>
    server_world s' = server_world s \<and> sent (udp s') = sent (udp s) \<and>
    worker (udp s') = handleConnection a (length d) (worker (udp s)) \<and>
    buffer (udp s') = d @ drop (length d) (buffer (udp s))"
proof -
  let ?st = "app (udp s)"
  have "app_ok ?st" "0 <s cf_udpRateLimit cf"
    using assms(1,2) by (simp_all add: server_ok_def config_ok_def)
  from check_limit_ok [OF this(1) assms(5) this(2), of "UDPAddr_String a"]
  obtain l where l: "check_limit (NewRateLimit (cf_udpRateLimit cf) MemoryDb_ops) now (UDPAddr_String a) ?st =
      (False, ?st\<lparr>limits := l\<rparr>)" by blast
  define u1 where "u1 = (udp s)\<lparr>worker := handleConnection a (length d) (worker (udp s)),
      buffer := d @ drop (length d) (buffer (udp s)), app := ?st\<lparr>limits := l\<rparr>\<rparr>"
  have u1: "listen_once now (Datagram a d) (udp s) = u1"
    using assms(1,6,7) l ReadFromUDP_short [of d "buffer (udp s)"]
    by (simp add: listen_once_def server_ok_def u1_def)
  have run: "run (step cf) s [Select, Read now (Datagram a d)] (s\<lparr>pc := AtSelect, udp := u1\<rparr>)"
    using assms(3,4,5) u1 by (simp add: run_Cons_iff step_simps)
  have ok: "server_ok cf (s\<lparr>pc := AtSelect, udp := u1\<rparr>)"
    using srv.run_inv [OF run] assms(1,2) by blast
  show ?thesis
    by (rule exI [of _ "s\<lparr>pc := AtSelect, udp := u1\<rparr>"], intro conjI, rule run, rule ok)
      (simp_all add: u1_def assms(4))
qed

lemma work_relays:
  assumes "server_ok cf s" and "0 < now" and "i < length (running s)" and "running s ! i"
    and "chMsg (worker (udp s)) ! i = m # ms"
    and "spec_session (abs_world (server_world s)) (msg_client m) = Inr (info, mem)"
    and "d = take (msg_request m) (buffer (udp s))"
    and "d \<noteq> []" and "length d \<noteq> 454" and "length d \<noteq> 343"
  shows "\<exists>s' users. step cf s (Work i now p (\<lambda>_. True)) s' \<and>
    sent (udp s') = sent (udp s) @ map (\<lambda>u. (u_Connection u, d)) users \<and>
    set users = {u \<in> ran mem. \<not> is_sender info (msg_client m) u}"
proof -
  have w: "world_ok (server_world s)" and srv: "wk_service (worker (udp s)) = cf_service cf"
    using assms(1) by (simp_all add: server_ok_def app_ok_def)
  have "\<exists>users w'. GetUsersAndMessage (cf_service cf) p now (msg_client m) d (server_world s) = (Inr (users, d), w') \<and>
      set users = {u \<in> ran mem. \<not> is_sender info (msg_client m) u}"
    using handshake_spec [OF w, where parse = "cf_parse cf" and cpus = "cf_numCPU cf" and mem = "cf_memSys cf"
        and p = p and now = now and ds = "msg_client m" and req = d, folded cf_service_def] assms(9,10)
    unfolding assms(6) by (auto split: prod.splits)
  then obtain users w' where G: "GetUsersAndMessage (cf_service cf) p now (msg_client m) d (server_world s) =
      (Inr (users, d), w')" and users: "set users = {u \<in> ran mem. \<not> is_sender info (msg_client m) u}"
    by blast
  obtain u where u: "work_once p now (\<lambda>_. True) i (udp s) = Some u"
    using work_once_total [OF assms(1,3)] by blast
  then have "sent u = sent (udp s) @ map (\<lambda>u. (u_Connection u, d)) users"
    using G assms(8) by (auto simp: work_once_def assms(5) srv assms(7) send_all_ok Let_def split: if_splits)
  moreover have "step cf s (Work i now p (\<lambda>_. True)) (s\<lparr>udp := u\<rparr>)"
    using u assms(2-5) by (simp add: step_simps)
  ultimately show ?thesis using users by (intro exI [of _ "s\<lparr>udp := u\<rparr>"] exI [of _ users]) simp
qed

text \<open>
  C15: a message that waits in a queue is overwritten by the next datagram. The queued request is
  a slice of the one receive buffer: when a datagram of client \<open>a\<close> waits while one of client
  \<open>b\<close>, at least as long, is read, the worker relays the beginning of \<open>b\<close>'s datagram to the room
  of \<open>a\<close>, whatever room \<open>b\<close> is in, and the bytes that \<open>a\<close> sent are gone.
\<close>

theorem queued_message_overwritten:
  assumes "config_ok cf" and "reachable (started cf) (step cf) s" and "idle s" and "0 < now"
    and "0 < length x" and "length x \<le> length y" and "length y \<le> bufferSize"
    and "length x \<noteq> 454" and "length x \<noteq> 343"
    and "spec_session (abs_world (server_world s)) \<lparr>ClientAddr = a\<rparr> = Inr (info, mem)"
  shows "\<exists>s' users.
    run (step cf) s [Select, Read now (Datagram a x), Select, Read now (Datagram b y),
      Work (next_channel s) now p (\<lambda>_. True)] s' \<and>
    sent (udp s') = sent (udp s) @ map (\<lambda>u. (u_Connection u, take (length x) y)) users \<and>
    set users = {u \<in> ran mem. \<not> is_sender info \<lparr>ClientAddr = a\<rparr> u}"
proof -
  let ?c = "next_channel s" and ?w = "worker (udp s)"
  let ?m = "\<lparr>msg_client = \<lparr>ClientAddr = a\<rparr>, msg_request = length x\<rparr>"
  have ok: "server_ok cf s" by (rule reachable_ok [OF assms(1,2)])
  have i: "pc s = AtSelect" "\<not> ctx_done s" using assms(3) by (simp_all add: idle_def)
  obtain s1 where s1: "run (step cf) s [Select, Read now (Datagram a x)] s1" "server_ok cf s1" "pc s1 = AtSelect"
      "\<not> ctx_done s1" "running s1 = running s" "server_world s1 = server_world s" "sent (udp s1) = sent (udp s)"
      "worker (udp s1) = handleConnection a (length x) ?w"
    using read_step [OF ok assms(1) i assms(4,5), of a] assms(6,7) by fastforce
  obtain s2 where s2: "run (step cf) s1 [Select, Read now (Datagram b y)] s2" "server_ok cf s2" "running s2 = running s"
      "server_world s2 = server_world s" "sent (udp s2) = sent (udp s)"
      "worker (udp s2) = handleConnection b (length y) (worker (udp s1))" "take (length x) (buffer (udp s2)) = take (length x) y"
    using read_step [OF s1(2) assms(1) s1(3,4) assms(4), of y b] s1(5-7) assms(5-7) by fastforce
  have ne: "chMsg ?w \<noteq> []" and cap: "0 < chan_size ?w"
    using ok assms(1) sless_unat_pos [of "cf_udpRateLimit cf"]
    by (auto simp: server_ok_def queues_ok_def config_ok_def)
  have c: "?c < length (chMsg ?w)" "chMsg ?w ! ?c = []"
    using ne assms(3) by (simp_all add: next_channel_def idle_def)
  have q: "chMsg (worker (udp s1)) ! ?c = [?m]"
    using handleConnection_queues [OF ne, of ?c a "length x"] c cap by (simp add: s1(8) next_channel_def)
  obtain ms where ms: "chMsg (worker (udp s2)) ! ?c = ?m # ms"
    using handleConnection_appends [of ?c "worker (udp s1)" b "length y"] q c(1) by (auto simp: s2(6) s1(8))
  have r: "?c < length (running s2)" "running s2 ! ?c"
    using c(1) s2(3) ok assms(3) by (auto simp: server_ok_def idle_def)
  have x: "length (take (length x) y) = length x" "take (length x) y \<noteq> []"
    using assms(5,6) by auto
  have "\<exists>s' users. step cf s2 (Work ?c now p (\<lambda>_. True)) s' \<and>
      sent (udp s') = sent (udp s2) @ map (\<lambda>u. (u_Connection u, take (length x) y)) users \<and>
      set users = {u \<in> ran mem. \<not> is_sender info \<lparr>ClientAddr = a\<rparr> u}"
    using work_relays [OF s2(2) assms(4) r ms, of info mem "take (length x) y" p]
    unfolding x s2(4) ChanUDPMessage.simps s2(7) using assms(8-10) x(2) by simp
  then obtain s' users where "step cf s2 (Work ?c now p (\<lambda>_. True)) s'" and
      "sent (udp s') = sent (udp s2) @ map (\<lambda>u. (u_Connection u, take (length x) y)) users"
      "set users = {u \<in> ran mem. \<not> is_sender info \<lparr>ClientAddr = a\<rparr> u}" by blast
  moreover from this(1) have "run (step cf) s ([Select, Read now (Datagram a x)] @ [Select, Read now (Datagram b y)] @
      [Work ?c now p (\<lambda>_. True)]) s'"
    using s1(1) s2(1) unfolding run_append by (auto simp: run_Cons_iff)
  ultimately show ?thesis using s2(5) by auto
qed

theorem queued_message_overwritten_witness:
  "\<exists>s s' (users :: User list). reachable (started ex_config) (step ex_config) s \<and>
    run (step ex_config) s [Select, Read 6 (Datagram (ClientAddr (ex_addr 1)) ''mine''), Select,
      Read 6 (Datagram (ClientAddr (ex_addr 2)) ''secret''), Work (next_channel s) 6 insertion_order (\<lambda>_. True)] s' \<and>
    sent (udp s') = sent (udp s) @ map (\<lambda>u. (u_Connection u, ''secr'')) users"
proof -
  let ?a = "ClientAddr (ex_addr 1)"
  obtain s where s: "run (step ex_config) ex_server (delivery 5 ?a ''alice'' insertion_order (next_channel ex_server)) s"
      "idle s" "abs_world (server_world s) = spec_join (ex_addr 1) (ex_info 7) (abs_world (server_world ex_server))"
    using handshake_delivery [OF reachable_ok [OF ex_config_ok ex_server_reachable] ex_config_ok ex_server_idle,
        of 5 "''alice''" "ex_info 7" ?a insertion_order]
    by (auto simp: bufferSize_def)
  have r: "reachable (started ex_config) (step ex_config) s"
    by (rule reachable_run [OF ex_server_reachable s(1)])
  obtain m where "spec_session (abs_world (server_world s)) \<lparr>ClientAddr = ?a\<rparr> = Inr (ex_info 7, m)"
    by (simp add: s(3) spec_join_def)
  then show ?thesis
    using queued_message_overwritten [OF ex_config_ok r s(2), of 6 "''mine''" "''secret''" ?a "ex_info 7" m
        "ClientAddr (ex_addr 2)" insertion_order] r
    by (auto simp: bufferSize_def)
qed

section \<open>Channels in turn, and shutdown\<close>

text \<open>
  The channels are served in turn. When as many datagrams arrive as there are channels, and
  no channel is full, each channel gets exactly one of them behind what it held, a different
  one for each channel, and the next turn is the same as before the burst.
\<close>

theorem burst_reaches_every_channel:
  assumes "queues_ok w" and "\<forall>q \<in> set (chMsg w). length q < chan_size w" and "length ds = length (chMsg w)"
  shows "wk_count (burst ds w) = wk_count w \<and> inj_on (turn w) {..<length (chMsg w)} \<and>
    (\<forall>c < length (chMsg w). turn w c < length ds \<and>
       chMsg (burst ds w) ! c = chMsg w ! c @ [queued (ds ! turn w c)])"
proof -
  have w: "wk_count w < length (chMsg w)" using assms(1) by (simp add: queues_ok_def)
  have t: "turn w c < length ds" if "c < length (chMsg w)" for c
    using that assms(3) by (auto simp: turn_def intro: mod_less_divisor)
  have "inj_on (turn w) {..<length (chMsg w)}"
    using turn_iff [OF w] t assms(3) by (auto simp: inj_on_def) metis
  then show ?thesis
    using burst_queues [OF w assms(2), of ds] t w assms(3) by simp
qed

theorem burst_reaches_every_channel_witness:
  "let w = ex_worker; ds = [(ClientAddr (ex_addr 1), 5), (ClientAddr (ex_addr 2), 6)] in
   chMsg (burst ds w) ! 0 = [queued (ClientAddr (ex_addr 2), 6)] \<and>
   chMsg (burst ds w) ! 1 = [queued (ClientAddr (ex_addr 1), 5)]"
  using burst_reaches_every_channel [of ex_worker "[(ClientAddr (ex_addr 1), 5), (ClientAddr (ex_addr 2), 6)]"]
  by (simp add: queues_ok_def ex_worker_def Let_def turn_def All_less_Suc)

definition is_read :: "action \<Rightarrow> bool" where
  "is_read a = (case a of Read _ _ \<Rightarrow> True | _ \<Rightarrow> False)"

lemma step_after_cancel:
  assumes "step cf s a s'" and "ctx_done s"
  shows "ctx_done s' \<and>
    (if is_read a then pc s = Reading \<and> pc s' = AtSelect else pc s' = Reading \<longrightarrow> pc s = Reading) \<and>
    (pc s = Returned \<longrightarrow> pc s' = Returned)"
  using assms by cases (auto simp: is_read_def)

lemma reads_after_cancel:
  "run (step cf) s as s' \<Longrightarrow> ctx_done s \<Longrightarrow>
   length (filter is_read as) \<le> (if pc s = Reading then 1 else 0) \<and> ctx_done s' \<and>
   (pc s = Returned \<longrightarrow> pc s' = Returned)"
proof (induction rule: run.induct)
  case (run_Cons s a s' as s'')
  then show ?case
    using step_after_cancel [OF run_Cons.hyps(1) run_Cons.prems] by (auto split: if_splits)
qed simp

text \<open>
  The server stops listening when its context is cancelled. However the run goes on, at most
  one more datagram is read (the read that was already waiting), the listener can return as
  soon as it is not waiting in a read, and once it has returned no datagram is read again.
\<close>

theorem listener_stops_after_cancel:
  assumes "ctx_done s" and "run (step cf) s as s'"
  shows "length (filter is_read as) \<le> 1 \<and>
    (pc s' = AtSelect \<longrightarrow> (\<exists>s''. step cf s' Select s'' \<and> pc s'' = Returned)) \<and>
    (pc s = Returned \<longrightarrow> filter is_read as = [] \<and> pc s' = Returned)"
  using reads_after_cancel [OF assms(2,1)] by (auto simp: step_simps split: if_splits)

theorem listener_stops_after_cancel_witness:
  "let s = ex_server\<lparr>ctx_done := True, pc := Reading\<rparr> in
   \<exists>s'. run (step ex_config) s [Read 5 ReadErr] s' \<and> (\<exists>s''. step ex_config s' Select s'' \<and> pc s'' = Returned)"
proof -
  let ?s = "ex_server\<lparr>ctx_done := True, pc := Reading\<rparr>"
  have "run (step ex_config) ?s [Read 5 ReadErr] (?s\<lparr>pc := AtSelect\<rparr>)"
    by (simp add: run_Cons_iff step_simps listen_once_def)
  with listener_stops_after_cancel [OF _ this] show ?thesis by auto
qed

end
