(* ===== verification/HttpRun.thy ===== *)
theory HttpRun
  imports MiddlewareProps ServerProps
begin

text \<open>
  The HTTP server of \<^verbatim>\<open>StartUDP\<close> over the state of the running game server, and which exchanges do not get to that
  state. An exchange is one step and calls the service with a parser that returns; what several exchanges or the
  goroutines of one batch do to each other is in \<open>CreateRace\<close> and \<open>BatchRace\<close>.
\<close>

section \<open>The REST server\<close>

text \<open>
  The goroutine of \<^verbatim>\<open>StartUDP\<close> that serves HTTP: the settings handlers at the time \<open>now\<close> of an exchange,
  \<^verbatim>\<open>New\<close> with its two options, and \<^verbatim>\<open>WithLog\<close>.
\<close>

definition rest_server ::
    "config \<Rightarrow> log_env \<Rightarrow> time \<Rightarrow> (string \<times> GetDeletedRooms_id) range_order \<Rightarrow> (string \<times> GetDeletedRooms_id) range_order \<Rightarrow>
     any MemoryDb app observed Server" where
  "rest_server cf env now p q =
     (let serverSettings = tcp_api (cf_settings cf) (cf_numCPU cf) (cf_memSys cf) now p q;
          services = [MaxBodySize (10 * 1024 * 1024), ServerSettings_option (NewServerSettings_http (observed_api serverSettings))]
      in Server_WithLog env (new_Server services))"

text \<open>
  What the router of \<^verbatim>\<open>fiber\<close> contributes: which paths a registered path matches, and the response to a
  request without a route. Only POST routes are registered, and the first that matches is taken.
\<close>

record router =
  ro_matches :: "string \<Rightarrow> string \<Rightarrow> bool"
  ro_unrouted :: "string \<Rightarrow> string \<Rightarrow> http_response"

fun find_route :: "router \<Rightarrow> (string \<times> route) list \<Rightarrow> string \<Rightarrow> route option" where
  "find_route ro [] path = None"
| "find_route ro ((pattern, r) # routes) path = (if ro_matches ro pattern path then Some r else find_route ro routes path)"

text \<open>
  Everything an exchange depends on besides the request and the state: time, map orders, the order in
  which batch goroutines complete, the logger, and the functions of other packages.
\<close>

record http_env =
  hx_log_env :: log_env
  hx_logger :: logger
  hx_fiber :: fiber_env
  hx_router :: router
  hx_dec :: decoders
  hx_now :: time
  hx_orders :: "(string \<times> GetDeletedRooms_id) range_order \<times> (string \<times> GetDeletedRooms_id) range_order"
  hx_headers :: "(string \<times> HeaderHandler) range_order"
  hx_schedule :: "baseJsonRPC range_order"

text \<open>
  One exchange of the server, that no other one interrupts, with a token parser that returns (one that panics in a goroutine
  of a batch ends the process). A server without the settings service does not come out of \<open>rest_server\<close>.
\<close>

definition rest_handler :: "config \<Rightarrow> http_env \<Rightarrow> any MemoryDb app observed handler" where
  "rest_handler cf hx =
     (let srv = rest_server cf (hx_log_env hx) (hx_now hx) (fst (hx_orders hx)) (snd (hx_orders hx));
          routes = (case srvHTTP srv of None \<Rightarrow> [] | Some rs \<Rightarrow> rs);
          route = (\<lambda>e.
            case (if xc_method e = ''POST'' then find_route (hx_router hx) routes (xc_path e) else None) of
              None \<Rightarrow> Finished (e\<lparr>xc_http := ro_unrouted (hx_router hx) (xc_method e) (xc_path e)\<rparr>)
            | Some r \<Rightarrow>
                (case srv_httpServerSettings srv of
                   None \<Rightarrow> Crashed e ''nil pointer dereference''
                 | Some h \<Rightarrow>
                     route_handler (fe_canon (hx_fiber hx)) (\<lambda>_ _. Stuck) (srv_maxBatchSize srv) (srv_maxParallelBatch srv) h
                       (hx_dec hx) (hx_schedule hx) r e))
      in app_handler (hx_fiber hx) (hx_logger hx) (hx_headers hx) (headerHandlers srv) route)"

section \<open>Exchanges that do not reach the service\<close>

text \<open>
  The requests in a body, which of them are calls of the service (by protocol version and method; at the root the names carry the
  prefix of the service), and the exchanges with such a call: a POST to a registered path, with a batch within
  the limit of 100.
\<close>

definition body_requests :: "json option \<Rightarrow> baseJsonRPC list" where
  "body_requests body =
     (case Option.bind body decode_requests of
        Some requests \<Rightarrow> if 100 < length requests then [] else requests
      | None \<Rightarrow> (case Option.bind body decode_base of None \<Rightarrow> [] | Some request \<Rightarrow> [request]))"

definition is_call :: "string list \<Rightarrow> baseJsonRPC \<Rightarrow> bool" where
  "is_call names request \<longleftrightarrow> rpc_Version request = ''2.0'' \<and> ToLower (rpc_Method request) \<in> set names"

fun route_calls :: "route \<Rightarrow> json option \<Rightarrow> bool" where
  "route_calls RootBatch body = list_ex (is_call (map ((@) ''serversettings.'') method_names)) (body_requests body)"
| "route_calls SettingsBatch body = list_ex (is_call method_names) (body_requests body)"
| "route_calls (SettingsMethod m) body =
     (case Option.bind body decode_base of None \<Rightarrow> False | Some request \<Rightarrow> is_call [[], m] request)"
| "route_calls (OtherRoute path) body = False"

definition rest_routes :: "(string \<times> route) list" where
  "rest_routes = SetRoutes [] @ [(''/'', RootBatch)]"

definition routed :: "router \<Rightarrow> 's exchange \<Rightarrow> route option" where
  "routed ro e = (if xc_method e = ''POST'' then find_route ro rest_routes (xc_path e) else None)"

definition reaches_service :: "router \<Rightarrow> 's exchange \<Rightarrow> bool" where
  "reaches_service ro e \<longleftrightarrow> (case routed ro e of None \<Rightarrow> False | Some r \<Rightarrow> route_calls r (xc_body e))"

section \<open>They change nothing\<close>

lemma of_ends_Finished: "of_ends e x = Finished e' \<longleftrightarrow> (\<exists>r. x = Returns r \<and> e' = respond e r)"
  by (cases x) auto

definition ignores :: "'st methodJsonRPC \<Rightarrow> fiber_ctx \<Rightarrow> baseJsonRPC \<Rightarrow> bool" where
  "ignores single ctx request \<longleftrightarrow> (\<forall>st. snd (single ctx request st) = st)"

lemma answer_all_refused: "\<forall>r \<in> set requests. ignores single ctx r \<Longrightarrow> snd (answer_all single ctx requests rs st) = st"
  by (induction requests arbitrary: rs st) (simp_all add: ignores_def case_prod_unfold Let_def)

lemma do_batch_refused:
  assumes "do_batch limit parallel single schedule ctx requests st = Returns (rs, st')"
    and "sint limit < int (length requests) \<or> (\<forall>r \<in> set requests. ignores single ctx r)"
  shows "st' = st"
proof (cases "sint limit < int (length requests)")
  case False
  then have all: "\<forall>r \<in> set requests. ignores single ctx r" using assms(2) by blast
  have "set (range_in schedule requests) = set requests" by (rule mset_eq_setD) simp
  with all have all': "\<forall>r \<in> set (range_in schedule requests). ignores single ctx r" by simp
  have "st' = snd (answer_all single ctx requests [] st) \<or> st' = snd (answer_all single ctx (range_in schedule requests) [] st)"
    using assms(1) False by (auto simp: do_batch_def Let_def split: if_splits)
  then show ?thesis using answer_all_refused [OF all, of "[]" st] answer_all_refused [OF all', of "[]" st] by auto
qed (use assms in \<open>simp add: do_batch_def\<close>)

lemma serve_batch_refused:
  assumes "serve_batch 100 parallel single dec schedule ctx st = Returns (r, st')"
    and "\<forall>request \<in> set (body_requests (ctx_Body ctx)). ignores single ctx request"
  shows "st' = st"
proof (cases "Option.bind (ctx_Body ctx) decode_requests")
  case None
  then show ?thesis
    using assms by (auto simp: serve_batch_def body_requests_def Let_def case_prod_unfold ignores_def split: if_splits option.splits)
next
  case (Some requests)
  have s: "sint (100 :: go_int) = 100" by simp
  have L: "sint (100 :: go_int) < int (length requests) \<or> (\<forall>r \<in> set requests. ignores single ctx r)"
    using assms(2) Some unfolding s by (auto simp: body_requests_def split: if_splits)
  have "st'' = st" if "do_batch 100 parallel single schedule ctx requests st = Returns (rs, st'')" for rs st''
    using do_batch_refused [OF that L] .
  then show ?thesis using assms(1) Some by (auto simp: serve_batch_def split: if_splits ends.splits prod.splits)
qed

lemma refused_single:
  "\<not> is_call method_names request \<Longrightarrow> ignores (doSingleBatch h dec) ctx request"
  "\<not> is_call (map ((@) ''serversettings.'') method_names) request \<Longrightarrow> ignores (Server_doSingleBatch h dec) ctx request"
  using invalid_requests_never_reach_service [of request _ h dec ctx]
  by (simp_all add: is_call_def rejected_by_transport_def ignores_def)

lemma refused_version:
  assumes "rpc_Version request \<noteq> Version"
  shows "ignores (getConnectionsNum h dec) ctx request" "ignores (healthCheck h dec) ctx request"
    "ignores (getServerSettings h dec) ctx request" "ignores (createRoom h dec) ctx request" "ignores (getDeletedRooms h dec) ctx request"
  unfolding method_defs ignores_def by (intro allI rejected_version [OF assms, unfolded rejected_by_transport_def, THEN conjunct1])+

lemma serveMethod_refused:
  assumes "\<not> route_calls (SettingsMethod name) (ctx_Body ctx)"
    and "\<And>request. rpc_Version request \<noteq> Version \<Longrightarrow> ignores single ctx request"
  shows "snd (serveMethod dec name single ctx st) = st"
proof (cases "Option.bind (ctx_Body ctx) decode_base")
  case (Some request)
  then have "ToLower (rpc_Method request) \<notin> {[], name} \<or> ignores single ctx request"
    using assms by (auto simp: is_call_def Version_def)
  with Some show ?thesis by (auto simp: serveMethod_def Let_def case_prod_unfold ignores_def split: option.splits)
qed (simp add: serveMethod_def Let_def)

lemmas serve_refused = serveMethod_refused [OF _ refused_version(1)] serveMethod_refused [OF _ refused_version(2)]
  serveMethod_refused [OF _ refused_version(3)] serveMethod_refused [OF _ refused_version(4)] serveMethod_refused [OF _ refused_version(5)]

lemma route_refused:
  assumes "route_handler canon other 100 parallel h dec schedule r e = Finished e'"
    and "maxBatchSize h = 100" and "\<not> route_calls r (xc_body e)" and "r \<in> snd ` set rest_routes"
  shows "xc_state e' = xc_state e"
proof (cases r)
  case RootBatch
  have "\<forall>request \<in> set (body_requests (ctx_Body (exchange_ctx canon e))). ignores (Server_doSingleBatch h dec) (exchange_ctx canon e) request"
    using assms(3) by (auto simp: RootBatch list_ex_iff exchange_ctx_def intro: refused_single(2))
  from serve_batch_refused [OF _ this] show ?thesis
    using assms(1) by (auto simp: RootBatch route_handler_def Let_def of_ends_Finished respond_def)
next
  case SettingsBatch
  have "\<forall>request \<in> set (body_requests (ctx_Body (exchange_ctx canon e))). ignores (doSingleBatch h dec) (exchange_ctx canon e) request"
    using assms(3) by (auto simp: SettingsBatch list_ex_iff exchange_ctx_def intro: refused_single(1))
  from serve_batch_refused [OF _ this] show ?thesis
    using assms(1,2) by (auto simp: SettingsBatch route_handler_def Let_def of_ends_Finished respond_def serveBatch_def)
next
  case (SettingsMethod m)
  have c: "\<not> route_calls (SettingsMethod m) (ctx_Body (exchange_ctx canon e))" using assms(3) by (simp add: SettingsMethod exchange_ctx_def)
  have "m = ''getconnectionsnum'' \<or> m = ''healthcheck'' \<or> m = ''getserversettings'' \<or> m = ''createroom'' \<or> m = ''getdeletedrooms''"
    using assms(4) by (auto simp: SettingsMethod rest_routes_def SetRoutes_def)
  then show ?thesis
    using assms(1) serve_refused [of _ "exchange_ctx canon e", OF c [unfolded SettingsMethod]] c
    unfolding SettingsMethod route_handler_def Let_def route.case run.inject respond_def
      serveGetConnectionsNum_def serveHealthCheck_def serveGetServerSettings_def serveCreateRoom_def serveGetDeletedRooms_def
    by (elim disjE) (auto simp del: route_calls.simps)
qed (use assms(4) in \<open>auto simp: rest_routes_def SetRoutes_def\<close>)

section \<open>Exchanges of the running server\<close>

lemma rest_server_sel:
  "srv_httpServerSettings (rest_server cf env now p q) =
     Some (stacked [Some env] (settings_service (observed_api (tcp_api (cf_settings cf) (cf_numCPU cf) (cf_memSys cf) now p q)) 100 10 None))"
  "srvHTTP (rest_server cf env now p q) = Some (SetRoutes [] @ [(''/'', RootBatch)])"
  "srv_maxBatchSize (rest_server cf env now p q) = 100" "srv_maxParallelBatch (rest_server cf env now p q) = 10"
  "headerHandlers (rest_server cf env now p q) = []"
  by (simp_all add: rest_server_def Server_WithLog_def new_Server_def ServerSettings_option_def MaxBodySize_def Let_def
      settings_service_def WithErrorHandler_def NewServerSettings_http_def defaultMaxBatchSize_def defaultMaxParallelBatch_def
      http_WithLog_def)

lemma find_route_in: "find_route ro routes path = Some r \<Longrightarrow> r \<in> snd ` set routes"
  by (induction routes) (auto split: if_splits)

lemma base_injectSpan [simp]: "xc_state (injectSpan fe e) = xc_state e"
  by (simp add: injectSpan_def)

text \<open>A handler that finishes from every exchange with the request and the game state of \<open>e\<close> is reached through the chain of \<^verbatim>\<open>New\<close>.\<close>

lemma app_handler_finishes:
  assumes "\<And>e1. xc_method e1 = xc_method e \<Longrightarrow> xc_path e1 = xc_path e \<Longrightarrow> xc_body e1 = xc_body e \<Longrightarrow>
      ob_base (xc_state e1) = ob_base (xc_state e) \<Longrightarrow>
      \<exists>e'. route e1 = Finished e' \<and> Q (xc_http e') (ob_base (xc_state e'))"
  shows "\<exists>e'. app_handler fe lg order [] route e = Finished e' \<and> Q (xc_http e') (ob_base (xc_state e'))"
proof -
  let ?nxt = "headersHandler fe order [] route"
  obtain e1 where e1: "setLogger lg (logLevelHandler fe ?nxt) e = ?nxt e1" "ob_base (xc_state e1) = ob_base (xc_state e)"
      "xc_method e1 = xc_method e" "xc_path e1 = xc_path e" "xc_body e1 = xc_body e"
    using logger_handlers [of lg fe ?nxt e] by blast
  let ?e2 = "e1\<lparr>xc_state := (xc_state e1)\<lparr>ob_tags := [(''http.url'', xc_path e1), (''http.method'', xc_method e1)]\<rparr>\<rparr>"
  obtain e' where e': "route ?e2 = Finished e'" "Q (xc_http e') (ob_base (xc_state e'))"
    using assms [of ?e2] e1(2-5) by auto
  then have "?nxt e1 = Finished (injectSpan fe e')"
    by (simp add: headersHandler_def Let_def)
  moreover have "xc_http (injectSpan fe e') = xc_http e'" by (simp add: injectSpan_def)
  ultimately show ?thesis using e1(1) e'(2)
    by (intro exI [of _ "injectSpan fe e'"]) (simp add: app_handler_def recoverHandler_def)
qed

definition rest_route :: "config \<Rightarrow> http_env \<Rightarrow> any MemoryDb app observed handler" where
  "rest_route cf hx e =
     (case routed (hx_router hx) e of
        None \<Rightarrow> Finished (e\<lparr>xc_http := ro_unrouted (hx_router hx) (xc_method e) (xc_path e)\<rparr>)
      | Some r \<Rightarrow>
          route_handler (fe_canon (hx_fiber hx)) (\<lambda>_ _. Stuck) 100 10
            (stacked [Some (hx_log_env hx)] (settings_service (observed_api
               (tcp_api (cf_settings cf) (cf_numCPU cf) (cf_memSys cf) (hx_now hx) (fst (hx_orders hx)) (snd (hx_orders hx)))) 100 10 None))
            (hx_dec hx) (hx_schedule hx) r e)"

lemma rest_handler_eq:
  "rest_handler cf hx = app_handler (hx_fiber hx) (hx_logger hx) (hx_headers hx) [] (rest_route cf hx)"
  unfolding rest_handler_def Let_def rest_server_sel option.case
  by (rule arg_cong [where f = "app_handler _ _ _ _"]) (simp add: fun_eq_iff rest_route_def routed_def rest_routes_def)

lemma rest_route_refused:
  assumes "\<not> reaches_service (hx_router hx) e"
  shows "\<exists>e'. rest_route cf hx e = Finished e' \<and> ob_base (xc_state e') = ob_base (xc_state e) \<and>
    (routed (hx_router hx) e = None \<longrightarrow> xc_http e' = ro_unrouted (hx_router hx) (xc_method e) (xc_path e))"
proof (cases "routed (hx_router hx) e")
  case None
  then show ?thesis by (simp add: rest_route_def)
next
  case (Some r)
  let ?a = "tcp_api (cf_settings cf) (cf_numCPU cf) (cf_memSys cf) (hx_now hx) (fst (hx_orders hx)) (snd (hx_orders hx))"
  let ?h = "stacked [Some (hx_log_env hx)] (settings_service (observed_api ?a) 100 10 None)"
  have in_routes: "r \<in> snd ` set rest_routes" using Some find_route_in by (auto simp: routed_def split: if_splits)
  then have known: "\<forall>path. r \<noteq> OtherRoute path" by (auto simp: rest_routes_def SetRoutes_def)
  have par: "0 <s (10 :: go_int)" by (simp add: word_sless_alt)
  have "maxParallelBatch ?h = 10" by (simp add: http_WithLog_def)
  then obtain x where x: "rest_route cf hx e = Finished (respond e x)"
    using route_returns [OF par _ known, of ?h "fe_canon (hx_fiber hx)" "\<lambda>_ _. Stuck" 100 "hx_dec hx" "hx_schedule hx" e] par
    by (auto simp: rest_route_def Some)
  have "route_handler (fe_canon (hx_fiber hx)) (\<lambda>_ _. Stuck) 100 10 (settings_service ?a 100 10 None) (hx_dec hx)
      (hx_schedule hx) r (erase_exchange e) = Finished (erase_exchange (respond e x))"
    using stacked_route_commutes [OF known, symmetric, where canon = "fe_canon (hx_fiber hx)" and other = "\<lambda>_ _. Stuck"
        and other' = "\<lambda>_ _. Stuck" and limit = 100 and parallel = 10 and ms = "[Some (hx_log_env hx)]" and a = ?a
        and l = 100 and p = 10 and eh = None and dec = "hx_dec hx" and schedule = "hx_schedule hx" and e = e]
      x unfolding rest_route_def Some by simp
  moreover have "\<not> route_calls r (xc_body (erase_exchange e))" using assms Some by (simp add: reaches_service_def erase_exchange_def)
  moreover have "maxBatchSize (settings_service ?a 100 10 None) = 100" by (simp add: settings_service_def WithErrorHandler_def)
  ultimately have "xc_state (erase_exchange (respond e x)) = xc_state (erase_exchange e)"
    using route_refused in_routes by blast
  then show ?thesis using x Some by (simp add: erase_exchange_def)
qed

text \<open>
  C30: only calls of the service reach it. Take any HTTP exchange in any state of the server without such a call: not a POST, a path
  without a route, a body that is no request, a batch of more than 100 requests, or only requests with another protocol version or a
  method that the endpoint does not have. It is answered, by \<^verbatim>\<open>fiber\<close>'s own response when there is no route, and
  changes neither sessions nor rooms nor the rows of the limiters.
\<close>

theorem only_calls_reach_service:
  assumes "\<not> reaches_service (hx_router hx) e"
  shows "\<exists>e'. rest_handler cf hx e = Finished e' \<and> ob_base (xc_state e') = ob_base (xc_state e) \<and>
    (routed (hx_router hx) e = None \<longrightarrow> xc_http e' = ro_unrouted (hx_router hx) (xc_method e) (xc_path e))"
  unfolding rest_handler_eq
proof (rule app_handler_finishes [where Q = "\<lambda>h st. st = ob_base (xc_state e) \<and>
      (routed (hx_router hx) e = None \<longrightarrow> h = ro_unrouted (hx_router hx) (xc_method e) (xc_path e))"])
  fix e1 :: "any MemoryDb app observed exchange"
  assume e1: "xc_method e1 = xc_method e" "xc_path e1 = xc_path e" "xc_body e1 = xc_body e" "ob_base (xc_state e1) = ob_base (xc_state e)"
  then have same: "routed (hx_router hx) e1 = routed (hx_router hx) e" by (simp add: routed_def)
  have "\<not> reaches_service (hx_router hx) e1" using assms unfolding reaches_service_def same e1(3) .
  from rest_route_refused [OF this, of cf] show "\<exists>e'. rest_route cf hx e1 = Finished e' \<and> ob_base (xc_state e') = ob_base (xc_state e) \<and>
      (routed (hx_router hx) e = None \<longrightarrow> xc_http e' = ro_unrouted (hx_router hx) (xc_method e) (xc_path e))"
    unfolding same e1 .
qed

section \<open>An instance\<close>

definition ex_http_env :: http_env where
  "ex_http_env =
     \<lparr>hx_log_env = sample_log_env, hx_logger = sample_logger, hx_fiber = sample_fiber_env,
      hx_router = \<lparr>ro_matches = (=), ro_unrouted = (\<lambda>m path. new_response\<lparr>status := 404\<rparr>)\<rparr>, hx_dec = ex_dec, hx_now = 5,
      hx_orders = (insertion_order, insertion_order), hx_headers = insertion_order, hx_schedule = reversed_order\<rparr>"

definition ex_game_exchange :: "string \<Rightarrow> json \<Rightarrow> any MemoryDb app observed exchange" where
  "ex_game_exchange path body =
     \<lparr>xc_method = ''POST'', xc_path = path, xc_body = Some body, xc_request = [], xc_response = [],
      xc_http = new_response, xc_state = \<lparr>ob_base = app (udp ex_server), ob_logger = None, ob_log = [], ob_tags = []\<rparr>\<rparr>"

text \<open>Refused: an unknown path, and a batch with the names of the other endpoint. Not refused: a call.\<close>

theorem only_calls_reach_service_witness:
  "(\<exists>e'. rest_handler ex_config ex_http_env (ex_game_exchange ''/nothing'' sample_body) = Finished e' \<and> status (xc_http e') = 404) \<and>
   (\<exists>e'. rest_handler ex_config ex_http_env (ex_game_exchange ''/'' (JArr [sample_body, sample_body])) = Finished e' \<and>
      ob_base (xc_state e') = app (udp ex_server)) \<and>
   reaches_service (hx_router ex_http_env) (ex_game_exchange ''/api/v1/udp/serverSettings'' (JArr [sample_body, sample_body]))"
proof -
  have "routed (hx_router ex_http_env) (ex_game_exchange ''/nothing'' sample_body) = None" by code_simp
  moreover have "\<not> reaches_service (hx_router ex_http_env) (ex_game_exchange ''/nothing'' sample_body)" by code_simp
  note only_calls_reach_service [where cf = ex_config, OF this]
  moreover have "\<not> reaches_service (hx_router ex_http_env) (ex_game_exchange ''/'' (JArr [sample_body, sample_body]))"
    by code_simp
  note only_calls_reach_service [where cf = ex_config, OF this]
  moreover have "reaches_service (hx_router ex_http_env) (ex_game_exchange ''/api/v1/udp/serverSettings'' (JArr [sample_body, sample_body]))" by code_simp
  moreover have "ob_base (xc_state (ex_game_exchange path body)) = app (udp ex_server)" for path body by (simp add: ex_game_exchange_def)
  moreover have "status (ro_unrouted (hx_router ex_http_env) m path) = 404" for m path by (simp add: ex_http_env_def)
  ultimately show ?thesis by metis
qed

end
