(* ===== verification/SessionLife.thy ===== *)
theory SessionLife
  imports ServerProps
begin

text \<open>
  How long a session lives. Every read of a row renews it and a sweep drops the rows not used for
  \<^verbatim>\<open>dataTTL\<close> seconds; here this is followed from the database through the service to the running server. The
  locale \<open>session_store\<close> says what the service needs of the rows it must not touch, and is
  interpreted on the database.
\<close>

section \<open>Rows that are kept\<close>

text \<open>
  A relation \<open>kept\<close> between two states of the store that some rows survive. \<open>prot\<close> says which keys it
  protects: an operation that writes to another key keeps it; \<open>touch\<close> says which reads do.
\<close>

locale watched_store = service_env s view invar
  for s :: "'db service" and view :: "'db \<Rightarrow> string \<rightharpoonup> any" and invar :: "'db \<Rightarrow> bool" +
  fixes kept :: "'db \<Rightarrow> 'db \<Rightarrow> bool"
    and touch :: "time \<Rightarrow> string \<Rightarrow> bool"
    and prot :: "string \<Rightarrow> bool"
  assumes kept_refl: "kept db db"
    and kept_trans: "kept db db' \<Longrightarrow> kept db' db'' \<Longrightarrow> kept db db''"
    and kept_get: "touch now k \<Longrightarrow> kept db (snd (iGetData (storage s) now k db))"
    and kept_set: "\<not> prot k \<Longrightarrow> kept db (iSetData (storage s) now k v db)"
    and kept_set_ttl: "\<not> prot k \<Longrightarrow> kept db (iSetDataWithTTL (storage s) now k v ttl db)"
    and kept_add: "kept db (iAddConnection (storage s) now i db)"
begin

definition reads_rooms :: "time \<Rightarrow> bool" where
  "reads_rooms now \<longleftrightarrow> (\<forall>i. touch now (GenerateRoomKey i))"

text \<open>
  When an operation of the service for the client \<open>ds\<close> creates no protected row: the protected rooms
  exist, and so does the session of \<open>ds\<close> if it is protected.
\<close>

definition rooms_exist :: "'db world \<Rightarrow> bool" where
  "rooms_exist w \<longleftrightarrow> (\<forall>i. prot (GenerateRoomKey i) \<longrightarrow> view (store w) (GenerateRoomKey i) \<noteq> None)"

definition session_exists :: "UDPConnection \<Rightarrow> 'db world \<Rightarrow> bool" where
  "session_exists ds w \<longleftrightarrow> (prot (GetID ds) \<longrightarrow> (\<exists>x. session (view (store w)) ds = Inr x))"

lemma load_kept:
  assumes "touch now k"
  obtains w1 where "load s now k w = (view (store w) k, w1)" and "kept (store w) (store w1)"
    and "view (store w1) = view (store w)" and "heap w1 = heap w"
proof
  show "load s now k w = (view (store w) k, snd (load s now k w))"
    using get_value [of now k "store w"] by (simp add: load_def case_prod_unfold Let_def)
  show "kept (store w) (store (snd (load s now k w)))"
    using kept_get [OF assms] by (simp add: load_def case_prod_unfold Let_def)
qed (simp_all add: load_def case_prod_unfold Let_def laws)

lemma getRoom_kept:
  assumes "touch now (GetID ds)" and "reads_rooms now"
  obtains w1 where "getRoom s now ds w = (session (view (store w)) ds, w1)" and "kept (store w) (store w1)"
    and "view (store w1) = view (store w)" and "heap w1 = heap w"
proof -
  obtain w1 where l1: "load s now (GetID ds) w = (view (store w) (GetID ds), w1)" "kept (store w) (store w1)"
      "view (store w1) = view (store w)" "heap w1 = heap w"
    by (rule load_kept [OF assms(1)])
  show thesis
  proof (cases "\<exists>i. view (store w) (GetID ds) = Some (AnyInfo i)")
    case True
    then obtain i where i: "view (store w) (GetID ds) = Some (AnyInfo i)" by blast
    have "touch now (GenerateRoomKey i)" using assms(2) by (simp add: reads_rooms_def)
    then obtain w2 where l2: "load s now (GenerateRoomKey i) w1 = (view (store w1) (GenerateRoomKey i), w2)"
        "kept (store w1) (store w2)" "view (store w2) = view (store w1)" "heap w2 = heap w1"
      by (rule load_kept)
    have "getRoom s now ds w = (session (view (store w)) ds, w2)"
      using i l2(1) by (simp add: getRoom_def session_def l1(1,3) split: option.splits any.splits)
    then show ?thesis using that kept_trans [OF l1(2) l2(2)] l1(3,4) l2(3,4) by simp
  next
    case False
    then have "getRoom s now ds w = (session (view (store w)) ds, w1)"
      by (auto simp: getRoom_def session_def l1(1) split: option.splits any.splits)
    then show ?thesis using that l1(2-4) by blast
  qed
qed

lemma setRoom_kept: "\<not> prot (GenerateRoomKey i) \<Longrightarrow> kept (store w) (store (setRoom s now i n ttl w))"
  by (simp add: setRoom_def Let_def kept_set kept_set_ttl)

lemma alloc_room_store [simp]: "store (snd (alloc_room r w)) = store w"
  by (simp add: alloc_room_def)

lemma update_room_store [simp]: "store (update_room n f w) = store w"
  by (simp add: update_room_def)

lemma CreateRoom_kept:
  assumes "reads_rooms now" and "rooms_exist w"
  shows "kept (store w) (store (snd (CreateRoom s now tok ttl w)))"
proof (cases "token s now tok")
  case (Inr i)
  have "touch now (GenerateRoomKey i)" using assms(1) by (simp add: reads_rooms_def)
  then obtain w1 where l: "load s now (GenerateRoomKey i) w = (view (store w) (GenerateRoomKey i), w1)" "kept (store w) (store w1)"
    by (rule load_kept)
  show ?thesis
  proof (cases "view (store w) (GenerateRoomKey i)")
    case None
    then have "\<not> prot (GenerateRoomKey i)" using assms(2) by (auto simp: rooms_exist_def)
    from setRoom_kept [OF this, of "snd (alloc_room (new_Room (GameID i) (RoomID i)) w1)"] kept_trans [OF l(2)]
    show ?thesis by (simp add: CreateRoom_def Inr l(1) None case_prod_unfold Let_def)
  qed (simp add: CreateRoom_def Inr l)
qed (simp add: CreateRoom_def kept_refl)

lemma RemoveUser_kept:
  assumes "touch now (GetID ds)" and "reads_rooms now" and "RemoveUser s now ds uid w = Some (err, w')"
  shows "kept (store w) (store w')"
proof -
  obtain w1 where g: "getRoom s now ds w = (session (view (store w)) ds, w1)" "kept (store w) (store w1)"
    by (rule getRoom_kept [OF assms(1,2)])
  then show ?thesis using assms(3) by (auto simp: RemoveUser_def split: sum.splits option.splits prod.splits)
qed

lemma send_all_kept:
  assumes "touch now (GetID ds)" and "reads_rooms now"
  shows "send_all s now ok ds msg users (w, out) = Some (w', out') \<Longrightarrow> kept (store w) (store w')"
proof (induction users arbitrary: w out)
  case (Cons u users)
  then show ?case
    by (auto split: if_splits option.splits intro: kept_trans [OF RemoveUser_kept [OF assms]])
qed (simp add: kept_refl)

lemma drop_missing_kept:
  "\<forall>(k, x) \<in> set ks. touch now k \<Longrightarrow> kept (store w) (store (snd (drop_missing s now ks m w)))"
proof (induction ks arbitrary: m w)
  case (Cons kv ks)
  then have "touch now (fst kv)" "\<forall>(k, x) \<in> set ks. touch now k" by auto
  obtain w1 where "load s now (fst kv) w = (view (store w) (fst kv), w1)" "kept (store w) (store w1)"
    by (rule load_kept [OF \<open>touch now (fst kv)\<close>])
  with Cons.IH [OF \<open>\<forall>(k, x) \<in> set ks. touch now k\<close>] show ?case
    by (cases kv; cases "view (store w) (fst kv)") (auto intro: kept_trans)
qed (simp add: kept_refl)

lemma rooms_with_key_reads:
  "reads_rooms now \<Longrightarrow> \<forall>(k, x) \<in> set m. touch now k \<Longrightarrow> \<forall>(k, x) \<in> set (rooms_with_key i ids m). touch now k"
  by (induction i ids m rule: rooms_with_key.induct) (auto simp: Let_def reads_rooms_def dest!: in_set_update)

lemma GetDeletedRooms_kept:
  assumes "reads_rooms now"
  shows "kept (store w) (store (snd (GetDeletedRooms s p q now tok ids w)))"
proof (cases "token s now tok")
  case (Inr i)
  have "\<forall>(k, x) \<in> set (range_in p (rooms_with_key i ids [])). touch now k"
    using rooms_with_key_reads [OF assms, of "[]" i ids] by simp
  from drop_missing_kept [OF this] show ?thesis
    by (simp add: GetDeletedRooms_def Inr case_prod_unfold Let_def)
qed (simp add: GetDeletedRooms_def kept_refl)

lemma setNewUser_kept:
  assumes "reads_rooms now" and "rooms_exist w" and "\<not> prot (GetID ds)"
  shows "kept (store w) (store (snd (setNewUser s p now ds req w)))"
proof (cases "token s now req")
  case (Inr i)
  let ?w1 = "w\<lparr>store := iSetData (storage s) now (GetID ds) (AnyInfo i) (store w)\<rparr>"
  have k1: "kept (store w) (store ?w1)" using kept_set [OF assms(3)] by simp
  have "touch now (GenerateRoomKey i)" using assms(1) by (simp add: reads_rooms_def)
  then obtain w2 where l: "load s now (GenerateRoomKey i) ?w1 = (view (store ?w1) (GenerateRoomKey i), w2)" "kept (store ?w1) (store w2)"
    by (rule load_kept)
  have k2: "kept (store w) (store w2)" by (rule kept_trans [OF k1 l(2)])
  have join: "kept (store w) (store (join_room s p now ds req i n w'))" if "kept (store w) (store w')" for n w'
    using kept_trans [OF that kept_add] by (simp add: join_room_def Let_def)
  show ?thesis
  proof (cases "view (store ?w1) (GenerateRoomKey i)")
    case None
    then have key: "\<not> prot (GenerateRoomKey i)"
      using assms(2) by (auto simp: rooms_exist_def laws GenerateRoomKey_eq)
    obtain n w3 where a: "alloc_room (new_Room (GameID i) (RoomID i)) w2 = (n, w3)" by force
    then have "store w3 = store w2" by (metis alloc_room_store snd_conv)
    with setRoom_kept [OF key, of w3 now n 0] have "kept (store w) (store (setRoom s now i n 0 w3))"
      using kept_trans [OF k2] by simp
    from join [OF this, of n] None show ?thesis by (simp add: setNewUser_def Inr l(1) a Let_def)
  next
    case (Some v)
    then show ?thesis using k2 join by (cases v) (simp_all add: setNewUser_def Inr l(1))
  qed
qed (simp add: setNewUser_def kept_refl)

lemma GetUsersAndMessage_kept:
  assumes "touch now (GetID ds)" and "reads_rooms now" and "rooms_exist w" and "session_exists ds w"
  shows "kept (store w) (store (snd (GetUsersAndMessage s p now ds req w)))"
proof -
  obtain w1 where g: "getRoom s now ds w = (session (view (store w)) ds, w1)" "kept (store w) (store w1)"
      "view (store w1) = view (store w)"
    by (rule getRoom_kept [OF assms(1,2)])
  show ?thesis
  proof (cases "session (view (store w)) ds")
    case (Inl e)
    then have "\<not> prot (GetID ds)" using assms(4) by (auto simp: session_exists_def)
    moreover have "rooms_exist w1" using assms(3) g(3) by (simp add: rooms_exist_def)
    ultimately have "kept (store w1) (store (snd (setNewUser s p now ds req w1)))"
      using setNewUser_kept [OF assms(2)] by blast
    from kept_trans [OF g(2) this] show ?thesis
      by (auto simp: GetUsersAndMessage_def g(1) Inl split: prod.split sum.split)
  qed (use g in \<open>auto simp: GetUsersAndMessage_def split: prod.split\<close>)
qed

end

text \<open>
  Two such relations on the database. Rows that stay in use: under the keys \<open>K\<close> the values are the same,
  and the rows used at \<open>t\<close> or later still are. Rows that nobody uses: those under \<open>K\<close> are the same rows.
\<close>

definition kept_rows :: "time \<Rightarrow> string set \<Rightarrow> 'v MemoryDb \<Rightarrow> 'v MemoryDb \<Rightarrow> bool" where
  "kept_rows t K db db' \<longleftrightarrow>
     dataTTL db' = dataTTL db \<and>
     (\<forall>k \<in> K. look db' k = look db k \<and>
        (\<forall>u. last_used db k = Some u \<longrightarrow> t \<le> u \<longrightarrow> (\<exists>u'. last_used db' k = Some u' \<and> t \<le> u')))"

definition same_rows :: "string set \<Rightarrow> 'v MemoryDb \<Rightarrow> 'v MemoryDb \<Rightarrow> bool" where
  "same_rows K db db' \<longleftrightarrow>
     dataTTL db' = dataTTL db \<and> (\<forall>k \<in> K. look db' k = look db k \<and> last_used db' k = last_used db k)"

lemma last_used_GetData:
  "last_used (snd (GetData now k db)) = (if look db k = None then last_used db else (last_used db)(k \<mapsto> now))"
  by (auto simp: last_used_def look_def GetData_def fun_eq_iff split: option.splits)

lemma last_used_SetData: "last_used (SetData now k v db) = (last_used db)(k \<mapsto> now)"
  "last_used (SetDataWithTTL now k v ttl db) = (last_used db)(k \<mapsto> Add now ttl)"
  "last_used (AddConnection now i db) = last_used db"
  by (auto simp: last_used_def db_op_defs fun_eq_iff)

lemmas last_used_all = last_used_GetData last_used_SetData

lemma kept_rows_trans: "kept_rows t K db db' \<Longrightarrow> kept_rows t K db' db'' \<Longrightarrow> kept_rows t K db db''"
  unfolding kept_rows_def by metis

lemma same_rows_trans: "same_rows K db db' \<Longrightarrow> same_rows K db' db'' \<Longrightarrow> same_rows K db db''"
  by (simp add: same_rows_def)

section \<open>The running server\<close>

fun action_time :: "action \<Rightarrow> time option" where
  "action_time Cancel = None"
| "action_time Select = None"
| "action_time (Read now rd) = Some now"
| "action_time (Work i now p ok) = Some now"
| "action_time (WorkerReturns i) = None"
| "action_time (CallGetConnectionsNum now tok) = Some now"
| "action_time (CallHealthCheck now tok) = Some now"
| "action_time (CallGetServerSettings now tok) = Some now"
| "action_time (CallCreateRoom now tok ttl) = Some now"
| "action_time (CallGetDeletedRooms now tok ids p q) = Some now"
| "action_time (SweepData now p q) = Some now"
| "action_time (SweepLimits now p q) = Some now"

definition sweeps_data :: "action \<Rightarrow> bool" where
  "sweeps_data a = (case a of SweepData _ _ _ \<Rightarrow> True | _ \<Rightarrow> False)"

text \<open>The client whose message a worker's turn handles.\<close>

definition handled_client :: "server \<Rightarrow> action \<Rightarrow> UDPConnection option" where
  "handled_client s a =
     (case a of Work i _ _ _ \<Rightarrow> Some (msg_client (hd (chMsg (worker (udp s)) ! i))) | _ \<Rightarrow> None)"

abbreviation server_db :: "server \<Rightarrow> any MemoryDb" where
  "server_db s \<equiv> store (server_world s)"

lemma check_limit_world [simp]: "world (snd (check_limit lim now key st)) = world st"
  by (simp add: check_limit_def case_prod_unfold Let_def)

lemma tcp_worlds:
  "world (snd (tcp_GetConnectionsNum r now tok st)) = world st"
  "world (snd (tcp_HealthCheck r now tok st)) = world st"
  "world (snd (tcp_GetServerSettings r n m now tok st)) = world st"
  "world (snd (tcp_CreateRoom r now tok ttl st)) =
     (if fst (check_limit (ss_rateLimit r) now tok st) then world st else snd (CreateRoom (ss_server r) now tok ttl (world st)))"
  "world (snd (tcp_GetDeletedRooms r p q now tok ids st)) = snd (GetDeletedRooms (ss_server r) p q now tok ids (world st))"
  by (simp_all add: tcp_defs case_prod_unfold Let_def)

lemma listen_once_world [simp]: "world (app (listen_once now rd u)) = world (app u)"
  by (simp add: listen_once_def case_prod_unfold Let_def split: udp_read.split)

text \<open>Which rows a step of the server keeps, for any such relation and every step but the sweep.\<close>

locale watched_server = watched_store "cf_service cf" look db_ok kept touch prot for cf kept touch prot
begin

lemma work_once_kept:
  assumes "wk_service (worker u) = cf_service cf" and "chMsg (worker u) ! i = m # ms"
    and "touch now (GetID (msg_client m))" and "reads_rooms now"
    and "rooms_exist (world (app u))" and "session_exists (msg_client m) (world (app u))"
    and "work_once p now ok i u = Some u'"
  shows "kept (store (world (app u))) (store (world (app u')))"
proof -
  obtain res w where G: "GetUsersAndMessage (cf_service cf) p now (msg_client m) (take (msg_request m) (buffer u)) (world (app u)) = (res, w)"
    by force
  then have k: "kept (store (world (app u))) (store w)"
    using GetUsersAndMessage_kept [OF assms(3-6), of p "take (msg_request m) (buffer u)"] by simp
  show ?thesis
    using assms(7) G k kept_trans [OF k send_all_kept [OF assms(3,4)]]
    by (auto simp: work_once_def assms(1,2) Let_def split: sum.splits if_splits option.splits prod.splits)
qed

lemma step_kept:
  assumes "server_ok cf s" and "step cf s a s'" and "\<not> sweeps_data a" and "rooms_exist (server_world s)"
    and "\<And>now. action_time a = Some now \<Longrightarrow> reads_rooms now"
    and "\<And>now c. action_time a = Some now \<Longrightarrow> handled_client s a = Some c \<Longrightarrow>
      touch now (GetID c) \<and> session_exists c (server_world s)"
  shows "kept (server_db s) (server_db s')"
  using assms(2)
proof cases
  case (work i now p ok u)
  obtain m ms where m: "chMsg (worker (udp s)) ! i = m # ms" using work(5) by (auto simp: neq_Nil_conv)
  then have "handled_client s a = Some (msg_client m)" using work(1) by (simp add: handled_client_def)
  with assms(1,4-6) work m show ?thesis
    using work_once_kept [of "udp s" i m ms now p ok u] by (simp add: server_ok_def)
next
  case (call_create now tok ttl)
  then show ?thesis
    using CreateRoom_kept [OF assms(5) assms(4)] by (simp add: tcp_worlds cf_settings_def NewServerSettings_def kept_refl)
next
  case (call_deleted now tok ids p q)
  then show ?thesis
    using GetDeletedRooms_kept [OF assms(5)] by (simp add: tcp_worlds cf_settings_def NewServerSettings_def)
qed (use assms(3) in \<open>simp_all add: kept_refl tcp_worlds sweeps_data_def\<close>)

end

lemma storage_cf_service [simp]: "storage (cf_service cf) = MemoryDb_ops"
  by (simp add: cf_service_def NewService_def)

lemmas watched_defs = watched_server_def watched_store_def watched_store_axioms_def service_env_def rl.any_store_axioms

interpretation sl: watched_server cf "kept_rows t K" "\<lambda>now k. t \<le> now" "\<lambda>k. k \<in> K" for cf t K
  unfolding watched_defs storage_cf_service
  by (auto simp: MemoryDb_ops_def rl.any_store_axioms [unfolded MemoryDb_ops_def] kept_rows_def last_used_all) metis

interpretation sd: watched_server cf "same_rows K" "\<lambda>now k. k \<notin> K" "\<lambda>k. k \<in> K" for cf K
  unfolding watched_defs storage_cf_service
  by (auto simp: MemoryDb_ops_def rl.any_store_axioms [unfolded MemoryDb_ops_def] same_rows_def last_used_all)


section \<open>Keeping a session alive\<close>

text \<open>A session that exists, with its row and the row of its room used at \<open>t\<close> or later.\<close>

definition session_keys :: "UDPConnection \<Rightarrow> Info \<Rightarrow> string set" where
  "session_keys c i = {GetID c, GenerateRoomKey i}"

definition used_since :: "time \<Rightarrow> UDPConnection \<Rightarrow> Info \<Rightarrow> any MemoryDb \<Rightarrow> bool" where
  "used_since t c i db \<longleftrightarrow>
     (\<exists>n. session (look db) c = Inr (i, n)) \<and>
     (\<forall>k \<in> session_keys c i. \<exists>u. last_used db k = Some u \<and> t \<le> u)"

lemma session_cong:
  "m' (GetID c) = m (GetID c) \<Longrightarrow> session m c = Inr (i, n) \<Longrightarrow> m' (GenerateRoomKey i) = m (GenerateRoomKey i) \<Longrightarrow>
     session m' c = Inr (i, n)"
  by (auto simp: session_def split: option.splits any.splits)

lemma used_since_kept:
  assumes "used_since t c i db" and "kept_rows t (session_keys c i) db db'"
  shows "used_since t c i db'"
proof -
  obtain n where n: "session (look db) c = Inr (i, n)" using assms(1) by (auto simp: used_since_def)
  have "session (look db') c = Inr (i, n)"
    using assms(2) n by (intro session_cong [OF _ n]) (auto simp: kept_rows_def session_keys_def)
  moreover have "\<exists>u. last_used db' k = Some u \<and> t \<le> u" if "k \<in> session_keys c i" for k
    using assms that unfolding used_since_def kept_rows_def by meson
  ultimately show ?thesis by (auto simp: used_since_def)
qed

lemma used_since_sweep:
  assumes "used_since t c i db" and "db_ok db" and "0 < t"
    and "0 \<le> sint (dataTTL db)" and "sint (dataTTL db) \<le> 9223372036" and "now \<le> t + 1000000000 * sint (dataTTL db)"
  shows "used_since t c i (removeOldData p q now db)"
proof -
  have "map_of (ud_storage (userData (removeOldData p q now db))) k = map_of (ud_storage (userData db)) k"
    if "k \<in> session_keys c i" for k
    using assms that unfolding used_since_def
    by (fastforce simp: removeOldData_row last_used_def expired_def cutoff_eq go_defs split: option.splits)
  then have same: "look (removeOldData p q now db) k = look db k" "last_used (removeOldData p q now db) k = last_used db k"
    if "k \<in> session_keys c i" for k
    using that by (simp_all add: look_def last_used_def)
  obtain n where n: "session (look db) c = Inr (i, n)" using assms(1) by (auto simp: used_since_def)
  have "session (look (removeOldData p q now db)) c = Inr (i, n)"
    by (rule session_cong [OF _ n]) (simp_all add: same session_keys_def)
  then show ?thesis using assms(1) same(2) by (auto simp: used_since_def)
qed

lemma session_in_use:
  assumes "session (look (store w)) c = Inr (i, n)"
  shows "sl.rooms_exist (session_keys c i) w" and "sl.session_exists (session_keys c i) ds w"
  unfolding sl.rooms_exist_def sl.session_exists_def
  using assms by (auto simp: session_keys_def GenerateRoomKey_eq session_def split: option.splits any.splits)

lemma sweep_step:
  assumes "step cf s a s'" and "sweeps_data a"
  obtains now p q where "a = SweepData now p q" and "server_db s' = removeOldData p q now (server_db s)"
  using assms by cases (auto simp: sweeps_data_def)

lemma server_db_ok: "server_ok cf s \<Longrightarrow> db_ok (server_db s)"
  by (simp add: server_ok_def app_ok_def world_ok_def ok_via_def)

text \<open>The actions between two times.\<close>

definition during :: "time \<Rightarrow> time \<Rightarrow> action \<Rightarrow> bool" where
  "during t u a = (case action_time a of None \<Rightarrow> True | Some now \<Rightarrow> t \<le> now \<and> now \<le> u)"

lemma step_used_since:
  assumes "server_ok cf s" and "step cf s a s'" and "used_since t c i (server_db s)" and "dataTTL (server_db s) = ttl"
    and "0 < t" and "0 \<le> sint ttl" and "sint ttl \<le> 9223372036" and "during t (t + 1000000000 * sint ttl) a"
  shows "used_since t c i (server_db s') \<and> dataTTL (server_db s') = ttl"
proof (cases "sweeps_data a")
  case True
  obtain now p q where a: "a = SweepData now p q" and s': "server_db s' = removeOldData p q now (server_db s)"
    by (rule sweep_step [OF assms(2) True])
  show ?thesis
    using used_since_sweep [OF assms(3) server_db_ok [OF assms(1)] assms(5)] assms(4,6-8) by (simp add: s' a during_def)
next
  case False
  obtain n where "session (look (server_db s)) c = Inr (i, n)" using assms(3) by (auto simp: used_since_def)
  note use = session_in_use [OF this]
  have "kept_rows t (session_keys c i) (server_db s) (server_db s')"
    by (rule sl.step_kept [OF assms(1,2) False use(1)])
      (use assms(8) use(2) in \<open>auto simp: sl.reads_rooms_def during_def\<close>)
  then show ?thesis
    using used_since_kept [OF assms(3)] assms(4) by (simp add: kept_rows_def)
qed

lemma run_used_since:
  "run (step cf) s as s' \<Longrightarrow> config_ok cf \<Longrightarrow> server_ok cf s \<Longrightarrow> used_since t c i (server_db s) \<Longrightarrow> dataTTL (server_db s) = ttl \<Longrightarrow>
   0 < t \<Longrightarrow> 0 \<le> sint ttl \<Longrightarrow> sint ttl \<le> 9223372036 \<Longrightarrow> \<forall>a \<in> set as. during t (t + 1000000000 * sint ttl) a \<Longrightarrow>
   used_since t c i (server_db s')"
proof (induction rule: run.induct)
  case (run_Cons s a s1 as s2)
  then have "server_ok cf s1" "used_since t c i (server_db s1) \<and> dataTTL (server_db s1) = ttl"
    using step_ok [OF run_Cons.prems(2,1) run_Cons.hyps(1)]
      step_used_since [OF run_Cons.prems(2) run_Cons.hyps(1) run_Cons.prems(3-7)] by simp_all
  then show ?case using run_Cons by simp
qed simp


text \<open>The turn of a worker that handles a message of \<open>c\<close> at \<open>t\<close> uses the rows of its session at \<open>t\<close>.\<close>

lemma mem_load:
  obtains w1 where "load (cf_service cf) now k w = (look (store w) k, w1)" and "look (store w1) = look (store w)"
    and "last_used (store w1) = (if look (store w) k = None then last_used (store w) else (last_used (store w))(k \<mapsto> now))"
proof
  show "load (cf_service cf) now k w = (look (store w) k, snd (load (cf_service cf) now k w))"
    using GetData_value [of now k "store w"] by (simp add: load_def case_prod_unfold Let_def MemoryDb_ops_def)
qed (simp_all add: load_def case_prod_unfold Let_def MemoryDb_ops_def last_used_GetData)

lemma mem_getRoom:
  obtains w1 where "getRoom (cf_service cf) now c w = (session (look (store w)) c, w1)" and "look (store w1) = look (store w)"
    and "last_used (store w1) = (case look (store w) (GetID c) of
        None \<Rightarrow> last_used (store w)
      | Some (AnyInfo i) \<Rightarrow>
          (if look (store w) (GenerateRoomKey i) = None then (last_used (store w))(GetID c \<mapsto> now)
           else (last_used (store w))(GetID c \<mapsto> now, GenerateRoomKey i \<mapsto> now))
      | Some _ \<Rightarrow> (last_used (store w))(GetID c \<mapsto> now))"
proof -
  obtain w1 where l1: "load (cf_service cf) now (GetID c) w = (look (store w) (GetID c), w1)" "look (store w1) = look (store w)"
      "last_used (store w1) = (if look (store w) (GetID c) = None then last_used (store w) else (last_used (store w))(GetID c \<mapsto> now))"
    by (rule mem_load)
  show thesis
  proof (cases "\<exists>i. look (store w) (GetID c) = Some (AnyInfo i)")
    case True
    then obtain i where i: "look (store w) (GetID c) = Some (AnyInfo i)" by blast
    obtain w2 where l2: "load (cf_service cf) now (GenerateRoomKey i) w1 = (look (store w1) (GenerateRoomKey i), w2)"
        "look (store w2) = look (store w1)" "last_used (store w2) =
          (if look (store w1) (GenerateRoomKey i) = None then last_used (store w1) else (last_used (store w1))(GenerateRoomKey i \<mapsto> now))"
      by (rule mem_load)
    have "getRoom (cf_service cf) now c w = (session (look (store w)) c, w2)"
      using i l2(1) by (simp add: getRoom_def session_def l1(1,2) split: option.splits any.splits)
    then show ?thesis using that l1 l2 by (simp add: i)
  next
    case False
    then have "getRoom (cf_service cf) now c w = (session (look (store w)) c, w1)"
      by (auto simp: getRoom_def session_def l1(1) split: option.splits any.splits)
    then show ?thesis
      using that l1(2,3) False by (auto split: option.splits any.splits)
  qed
qed

text \<open>The row of \<open>c\<close> and that of its room, when they exist, were used at \<open>t\<close>.\<close>

definition used_at :: "time \<Rightarrow> UDPConnection \<Rightarrow> any MemoryDb \<Rightarrow> bool" where
  "used_at t c db \<longleftrightarrow> (\<forall>u. last_used db (GetID c) = Some u \<longrightarrow> u = t) \<and>
     (\<forall>i n. session (look db) c = Inr (i, n) \<longrightarrow> last_used db (GenerateRoomKey i) = Some t)"

lemma last_used_None: "last_used db k = None \<longleftrightarrow> look db k = None"
  by (simp add: last_used_def look_def)

lemma session_key_neq [simp]: "GetID c \<noteq> GenerateRoomKey i" "GenerateRoomKey i \<noteq> GetID c"
  by (simp_all add: GenerateRoomKey_eq)

lemma used_at_getRoom:
  assumes "getRoom (cf_service cf) now c w = (r, w')"
  shows "used_at now c (store w')"
proof -
  obtain w1 where g: "getRoom (cf_service cf) now c w = (session (look (store w)) c, w1)" "look (store w1) = look (store w)"
    "last_used (store w1) = (case look (store w) (GetID c) of
        None \<Rightarrow> last_used (store w)
      | Some (AnyInfo i) \<Rightarrow>
          (if look (store w) (GenerateRoomKey i) = None then (last_used (store w))(GetID c \<mapsto> now)
           else (last_used (store w))(GetID c \<mapsto> now, GenerateRoomKey i \<mapsto> now))
      | Some _ \<Rightarrow> (last_used (store w))(GetID c \<mapsto> now))"
    by (rule mem_getRoom)
  have w': "w' = w1" using g(1) assms by simp
  have "last_used (store w) (GetID c) = None" if "look (store w) (GetID c) = None"
    using that by (simp add: last_used_None)
  then show ?thesis
    unfolding used_at_def w' g(2,3) by (auto simp: session_def split: option.splits any.splits)
qed

lemma setNewUser_rows:
  assumes "setNewUser (cf_service cf) p now c req w = (r, w')" and "token (cf_service cf) now req = Inr i"
  shows "look (store w') (GetID c) = Some (AnyInfo i)"
    and "last_used (store w') = (last_used (store w))(GetID c \<mapsto> now, GenerateRoomKey i \<mapsto> now)"
proof -
  let ?w1 = "w\<lparr>store := SetData now (GetID c) (AnyInfo i) (store w)\<rparr>"
  obtain w2 where l: "load (cf_service cf) now (GenerateRoomKey i) ?w1 = (look (store ?w1) (GenerateRoomKey i), w2)"
      "look (store w2) = look (store ?w1)" "last_used (store w2) =
        (if look (store ?w1) (GenerateRoomKey i) = None then last_used (store ?w1) else (last_used (store ?w1))(GenerateRoomKey i \<mapsto> now))"
    by (rule mem_load)
  have "look (store w') (GetID c) = Some (AnyInfo i) \<and>
      last_used (store w') = (last_used (store w))(GetID c \<mapsto> now, GenerateRoomKey i \<mapsto> now)"
    using assms(1) l
    by (auto simp: setNewUser_def assms(2) MemoryDb_ops_def alloc_room_def join_room_def update_room_def setRoom_def Let_def
        last_used_all [unfolded MemoryDb_ops_def] split: option.splits any.splits)
  then show "look (store w') (GetID c) = Some (AnyInfo i)"
    and "last_used (store w') = (last_used (store w))(GetID c \<mapsto> now, GenerateRoomKey i \<mapsto> now)" by simp_all
qed

lemma used_at_GetUsersAndMessage:
  assumes "GetUsersAndMessage (cf_service cf) p now c req w = (r, w')"
  shows "used_at now c (store w')"
proof -
  obtain g w1 where g: "getRoom (cf_service cf) now c w = (g, w1)" by force
  note u = used_at_getRoom [OF g]
  show ?thesis
  proof (cases g)
    case (Inl e)
    obtain r2 w2 where n: "setNewUser (cf_service cf) p now c req w1 = (r2, w2)" by force
    then have w': "w' = w2" using assms by (auto simp: GetUsersAndMessage_def g Inl split: sum.splits)
    show ?thesis
    proof (cases "token (cf_service cf) now req")
      case (Inl e)
      then show ?thesis using n u by (simp add: setNewUser_def w')
    next
      case (Inr i)
      from setNewUser_rows [OF n this] show ?thesis
        by (auto simp: used_at_def w' session_def split: option.splits any.splits)
    qed
  next
    case (Inr x)
    then show ?thesis using assms u g by (auto simp: GetUsersAndMessage_def split: prod.splits if_splits)
  qed
qed

lemma used_at_send_all:
  "send_all (cf_service cf) now ok c msg users (w, out) = Some (w', out') \<Longrightarrow> used_at now c (store w) \<Longrightarrow> used_at now c (store w')"
proof (induction users arbitrary: w out)
  case (Cons u users)
  have "used_at now c (store w1)" if "RemoveUser (cf_service cf) now c (u_ID u) w = Some (e, w1)" for e w1
    using that used_at_getRoom [of cf now c w]
    by (auto simp: RemoveUser_def update_room_def split: prod.splits sum.splits option.splits)
  with Cons show ?case by (auto split: if_splits option.splits)
qed simp

lemma work_used_at:
  assumes "server_ok cf s" and "step cf s (Work j t p ok) s'" and "handled_client s (Work j t p ok) = Some c"
  shows "used_at t c (server_db s')"
proof -
  obtain u m ms where w: "work_once p t ok j (udp s) = Some u" "s' = s\<lparr>udp := u\<rparr>" "chMsg (worker (udp s)) ! j = m # ms"
    using assms(2) by (auto simp: step_simps neq_Nil_conv)
  have c: "msg_client m = c" using assms(3) w(3) by (simp add: handled_client_def)
  have srv: "wk_service (worker (udp s)) = cf_service cf" using assms(1) by (simp add: server_ok_def)
  obtain r w1 where G: "GetUsersAndMessage (cf_service cf) p t c (take (msg_request m) (buffer (udp s))) (server_world s) = (r, w1)"
    by force
  from used_at_GetUsersAndMessage [OF G] used_at_send_all w(1) G show ?thesis
    by (auto simp: work_once_def w(2,3) srv c Let_def split: sum.splits if_splits option.splits prod.splits)
qed


lemma spec_session_server:
  "server_ok cf s \<Longrightarrow> spec_session (abs_world (server_world s)) c =
    (case session (look (server_db s)) c of Inl e \<Rightarrow> Inl e | Inr (i, n) \<Rightarrow> Inr (i, room_members (heap (server_world s) ! n)))"
  unfolding abs_world_def abs_via_def
  by (intro session_abs) (simp add: server_ok_def app_ok_def world_ok_def ok_via_def)

lemma used_at_since:
  assumes "used_at t c db" and "session (look db) c = Inr (i, n)"
  shows "used_since t c i db"
proof -
  have "look db (GetID c) \<noteq> None" using assms(2) by (auto simp: session_def split: option.splits)
  then obtain u where "last_used db (GetID c) = Some u" by (cases "last_used db (GetID c)") (auto simp: last_used_None)
  then show ?thesis using assms by (auto simp: used_since_def session_keys_def used_at_def)
qed

text \<open>The lifetime of the database is the configured one.\<close>

definition ttl_ok :: "config \<Rightarrow> server \<Rightarrow> bool" where
  "ttl_ok cf s \<longleftrightarrow> dataTTL (server_db s) = cf_dataTTL cf"

lemma step_ttl:
  assumes "server_ok cf s" and "step cf s a s'"
  shows "dataTTL (server_db s') = dataTTL (server_db s)"
proof (cases "sweeps_data a")
  case True
  obtain now p q where "a = SweepData now p q" and "server_db s' = removeOldData p q now (server_db s)"
    by (rule sweep_step [OF assms(2) True])
  then show ?thesis by simp
next
  case False
  have "same_rows {} (server_db s) (server_db s')"
    by (rule sd.step_kept [OF assms False], unfold sd.rooms_exist_def sd.reads_rooms_def sd.session_exists_def) simp_all
  then show ?thesis by (simp add: same_rows_def)
qed

interpretation ttl: invariant_system "\<lambda>s. config_ok cf \<and> started cf s" "step cf"
    "\<lambda>s. config_ok cf \<and> server_ok cf s \<and> ttl_ok cf s" for cf
proof unfold_locales
  show "config_ok cf \<and> started cf s \<Longrightarrow> config_ok cf \<and> server_ok cf s \<and> ttl_ok cf s" for s
    using started_ok [of cf s]
    by (auto simp: ttl_ok_def started_def StartUDP_def Let_def split: option.splits sum.splits)
qed (auto simp: ttl_ok_def step_ttl intro: step_ok)

lemma reachable_ttl: "config_ok cf \<Longrightarrow> reachable (started cf) (step cf) s \<Longrightarrow> server_ok cf s \<and> dataTTL (server_db s) = cf_dataTTL cf"
  using ttl.reachable_inv [of cf s] by (auto simp: reachable_def ttl_ok_def)

text \<open>
  C6: a client that keeps sending keeps its session. When a worker handles a message of client \<open>c\<close> at time
  \<open>t\<close> and \<open>c\<close> has a session then, it has this session with the same information in every state that the
  server reaches by actions within \<^verbatim>\<open>dataTTL\<close> seconds of \<open>t\<close>: whatever other clients send, rooms are created or
  swept and writes fail.
\<close>

theorem session_kept_alive:
  assumes "config_ok cf" and "reachable (started cf) (step cf) s" and "0 \<le> sint (cf_dataTTL cf)" and "sint (cf_dataTTL cf) \<le> 9223372036"
    and "step cf s (Work j t p ok) s1" and "handled_client s (Work j t p ok) = Some c"
    and "spec_session (abs_world (server_world s1)) c = Inr (i, mem)"
    and "run (step cf) s1 as s2" and "\<forall>a \<in> set as. during t (t + 1000000000 * sint (cf_dataTTL cf)) a"
  shows "\<exists>mem'. spec_session (abs_world (server_world s2)) c = Inr (i, mem')"
proof -
  have s: "server_ok cf s" using reachable_ttl [OF assms(1,2)] by simp
  have r1: "reachable (started cf) (step cf) s1" by (rule reachable_step [OF assms(2,5)])
  then have s1: "server_ok cf s1" "dataTTL (server_db s1) = cf_dataTTL cf" using reachable_ttl [OF assms(1)] by simp_all
  have s2: "server_ok cf s2" using reachable_ok [OF assms(1) reachable_run [OF r1 assms(8)]] .
  obtain n where "session (look (server_db s1)) c = Inr (i, n)"
    using assms(7) by (auto simp: spec_session_server [OF s1(1)] simp del: spec_session.simps split: sum.splits)
  with work_used_at [OF s assms(5,6)] have "used_since t c i (server_db s1)" by (rule used_at_since)
  moreover have "0 < t" using assms(5) by (auto simp: step_simps)
  ultimately have "used_since t c i (server_db s2)"
    using run_used_since [OF assms(8,1) s1(1) _ s1(2)] assms(3,4,9) by blast
  then show ?thesis
    by (auto simp: spec_session_server [OF s2] used_since_def simp del: spec_session.simps)
qed

lemma ex_joined:
  obtains s s1 where "reachable (started ex_config) (step ex_config) s"
    and "step ex_config s (Work 1 5 insertion_order (\<lambda>_. True)) s1"
    and "handled_client s (Work 1 5 insertion_order (\<lambda>_. True)) = Some (ex_addr 1)"
    and "\<exists>mem. spec_session (abs_world (server_world s1)) (ex_addr 1) = Inr (ex_info 7, mem)"
proof -
  let ?a = "ClientAddr (ex_addr 1)"
  obtain s1 where s1: "run (step ex_config) ex_server (delivery 5 ?a ''alice'' insertion_order (next_channel ex_server)) s1"
      "abs_world (server_world s1) = spec_join (ex_addr 1) (ex_info 7) (abs_world (server_world ex_server))"
    using handshake_delivery [OF reachable_ok [OF ex_config_ok ex_server_reachable] ex_config_ok ex_server_idle,
        of 5 "''alice''" "ex_info 7" ?a insertion_order]
    by (auto simp: bufferSize_def)
  then obtain s0 s where s: "step ex_config ex_server Select s0" "step ex_config s0 (Read 5 (Datagram ?a ''alice'')) s"
      "step ex_config s (Work 1 5 insertion_order (\<lambda>_. True)) s1"
    by (auto simp: delivery_def run_Cons_iff)
  obtain s' where s': "run (step ex_config) ex_server [Select, Read 5 (Datagram ?a ''alice'')] s'"
      "worker (udp s') = handleConnection ?a (length ''alice'') (worker (udp ex_server))"
    using read_step [OF reachable_ok [OF ex_config_ok ex_server_reachable] ex_config_ok, of 5 "''alice''" ?a] ex_server_idle
    by (simp add: idle_def bufferSize_def) blast
  have eq: "s' = s" using s'(1) s(1,2) by (auto simp: run_Cons_iff step_simps)
  with s'(2) have "msg_client (hd (chMsg (worker (udp s)) ! 1)) = ex_addr 1"
    by (simp add: handleConnection_def counterChen_def ex_server_def ex_worker_def Let_def)
  then have "handled_client s (Work 1 5 insertion_order (\<lambda>_. True)) = Some (ex_addr 1)" by (simp add: handled_client_def)
  moreover have "reachable (started ex_config) (step ex_config) s"
    using reachable_run [OF ex_server_reachable s'(1)] eq by simp
  ultimately show thesis using that s(3) s1(2) by (simp add: spec_join_def)
qed

theorem session_kept_alive_witness:
  "\<exists>s1 s2 mem. step ex_config s1 (SweepData 10000000005 insertion_order insertion_order) s2 \<and>
     spec_session (abs_world (server_world s2)) (ex_addr 1) = Inr (ex_info 7, mem)"
proof -
  obtain s s1 mem where s: "reachable (started ex_config) (step ex_config) s"
      "step ex_config s (Work 1 5 insertion_order (\<lambda>_. True)) s1"
      "handled_client s (Work 1 5 insertion_order (\<lambda>_. True)) = Some (ex_addr 1)"
      "spec_session (abs_world (server_world s1)) (ex_addr 1) = Inr (ex_info 7, mem)"
    using ex_joined by blast
  obtain s2 where s2: "step ex_config s1 (SweepData 10000000005 insertion_order insertion_order) s2"
    by (meson sweep_data zero_less_numeral)
  then have "run (step ex_config) s1 [SweepData 10000000005 insertion_order insertion_order] s2"
    by (simp add: run_Cons_iff)
  from session_kept_alive [OF ex_config_ok s(1) _ _ s(2-4) this] s2 show ?thesis
    by (auto simp: ex_config_def during_def simp del: spec_session.simps)
qed

section \<open>Idle sessions\<close>

text \<open>The steps in which no worker handles a message of \<open>c\<close>.\<close>

definition silent_step :: "config \<Rightarrow> UDPConnection \<Rightarrow> server \<Rightarrow> action \<Rightarrow> server \<Rightarrow> bool" where
  "silent_step cf c s a s' \<longleftrightarrow> step cf s a s' \<and> handled_client s a \<noteq> Some c"

definition row_at :: "time \<Rightarrow> UDPConnection \<Rightarrow> any MemoryDb \<Rightarrow> bool" where
  "row_at t c db \<longleftrightarrow> (\<forall>u. last_used db (GetID c) = Some u \<longrightarrow> u = t)"

lemma row_at_sweep:
  "db_ok db \<Longrightarrow> row_at t c db \<Longrightarrow> row_at t c (removeOldData p q now db)"
  by (auto simp: row_at_def last_used_def removeOldData_row split: option.splits if_splits)

lemma silent_step_row:
  assumes "server_ok cf s" and "silent_step cf c s a s'" and "row_at t c (server_db s)"
  shows "row_at t c (server_db s')"
proof (cases "sweeps_data a")
  case True
  have "step cf s a s'" using assms(2) by (simp add: silent_step_def)
  then obtain now p q where "a = SweepData now p q" and "server_db s' = removeOldData p q now (server_db s)"
    by (rule sweep_step [OF _ True])
  then show ?thesis
    using row_at_sweep [OF server_db_ok [OF assms(1)] assms(3)] by simp
next
  case False
  have "same_rows {GetID c} (server_db s) (server_db s')"
    using assms(2) unfolding silent_step_def
    by (intro sd.step_kept [OF assms(1) _ False], unfold sd.rooms_exist_def sd.reads_rooms_def sd.session_exists_def) auto
  then show ?thesis using assms(3) by (simp add: same_rows_def row_at_def)
qed

lemma silent_run_row:
  "run (silent_step cf c) s as s' \<Longrightarrow> config_ok cf \<Longrightarrow> server_ok cf s \<Longrightarrow> row_at t c (server_db s) \<Longrightarrow>
   row_at t c (server_db s') \<and> server_ok cf s' \<and> dataTTL (server_db s') = dataTTL (server_db s)"
proof (induction rule: run.induct)
  case (run_Cons s a s1 as s2)
  from run_Cons.hyps(1) have "step cf s a s1" by (simp add: silent_step_def)
  then have "server_ok cf s1" "dataTTL (server_db s1) = dataTTL (server_db s)"
    using step_ok step_ttl run_Cons.prems(1,2) by blast+
  with run_Cons.IH [OF run_Cons.prems(1)] silent_step_row [OF run_Cons.prems(2) run_Cons.hyps(1) run_Cons.prems(3)]
  show ?case by simp
qed simp

text \<open>\<^verbatim>\<open>Run\<close> sweeps with a ticker of ten seconds; \<open>Run_tick t0 k\<close> is its \<open>k\<close>-th tick (from 0) when it was started at \<open>t0\<close>.\<close>

definition Run_tick :: "time \<Rightarrow> nat \<Rightarrow> time" where
  "Run_tick t0 k = t0 + (int k + 1) * sint (Second * 10)"

lemma Run_tick_eq: "Run_tick t0 k = t0 + (int k + 1) * 10000000000"
  by (simp add: Run_tick_def Second_def)

lemma tick_within:
  assumes "t0 \<le> u"
  obtains k where "u < Run_tick t0 k" and "Run_tick t0 k \<le> u + 10000000000"
proof -
  define d m where "d = (u - t0) div 10000000000" and "m = (u - t0) mod 10000000000"
  then have "u - t0 = d * 10000000000 + m" "0 \<le> m" "m < 10000000000" "0 \<le> d"
    using assms by (simp_all add: pos_imp_zdiv_nonneg_iff)
  then have "u < Run_tick t0 (nat d)" "Run_tick t0 (nat d) \<le> u + 10000000000"
    by (simp_all add: Run_tick_eq algebra_simps)
  then show thesis by (rule that)
qed

text \<open>
  C7: the session of a silent client goes. When the last message of client \<open>c\<close> was handled at time \<open>t\<close> and the
  data is swept more than \<^verbatim>\<open>dataTTL\<close> seconds later, the client has no session afterwards, whatever the others did in
  between. The ticker of \<^verbatim>\<open>Run\<close> comes to such a sweep within ten more seconds.
\<close>

theorem idle_session_expires:
  assumes "config_ok cf" and "reachable (started cf) (step cf) s" and "0 \<le> sint (cf_dataTTL cf)" and "sint (cf_dataTTL cf) \<le> 9223372036"
    and "step cf s (Work j t p ok) s1" and "handled_client s (Work j t p ok) = Some c"
    and "run (silent_step cf c) s1 as s2" and "t0 \<le> t"
  shows "\<exists>k. Run_tick t0 k \<le> t + 1000000000 * sint (cf_dataTTL cf) + 10000000000 \<and>
    (\<forall>k' \<ge> k. \<forall>p' q' s3. step cf s2 (SweepData (Run_tick t0 k') p' q') s3 \<longrightarrow> sessions (abs_world (server_world s3)) c = None)"
proof -
  have s: "server_ok cf s" "dataTTL (server_db s) = cf_dataTTL cf" using reachable_ttl [OF assms(1,2)] by simp_all
  have s1: "server_ok cf s1" "dataTTL (server_db s1) = cf_dataTTL cf"
    using step_ok [OF s(1) assms(1,5)] step_ttl [OF s(1) assms(5)] s(2) by simp_all
  have "row_at t c (server_db s1)"
    using work_used_at [OF s(1) assms(5,6)] by (simp add: used_at_def row_at_def)
  from silent_run_row [OF assms(7,1) s1(1) this] have s2: "row_at t c (server_db s2)" "server_ok cf s2" "dataTTL (server_db s2) = cf_dataTTL cf"
    using s1(2) by simp_all
  have "0 < t" using assms(5) by (auto simp: step_simps)
  have gone: "sessions (abs_world (server_world s3)) c = None"
    if "step cf s2 (SweepData now p' q') s3" and "t + 1000000000 * sint (cf_dataTTL cf) < now" for now p' q' s3
  proof -
    have s3: "server_db s3 = removeOldData p' q' now (server_db s2)" using that(1) by cases simp
    have "look (server_db s3) (GetID c) = None"
      using s2(1,3) assms(3,4) that(2) \<open>0 < t\<close>
      by (auto simp: s3 look_def row_at_def last_used_def removeOldData_row [OF server_db_ok [OF s2(2)]] expired_def cutoff_eq go_defs
          split: option.splits)
    then show ?thesis by (simp add: abs_world_def abs_via_def abs_of_def)
  qed
  have "t0 \<le> t + 1000000000 * sint (cf_dataTTL cf)" using assms(3,8) by simp
  then obtain k where k: "t + 1000000000 * sint (cf_dataTTL cf) < Run_tick t0 k"
      "Run_tick t0 k \<le> t + 1000000000 * sint (cf_dataTTL cf) + 10000000000"
    by (rule tick_within)
  have "t + 1000000000 * sint (cf_dataTTL cf) < Run_tick t0 k'" if "k \<le> k'" for k'
    using k(1) that by (simp add: Run_tick_eq)
  with k(2) gone show ?thesis by blast
qed

theorem idle_session_expires_witness:
  "\<exists>s1 s3 k. (\<exists>mem. spec_session (abs_world (server_world s1)) (ex_addr 1) = Inr (ex_info 7, mem)) \<and>
     step ex_config s1 (SweepData (Run_tick 1 k) insertion_order insertion_order) s3 \<and> Run_tick 1 k \<le> 20000000005 \<and>
     sessions (abs_world (server_world s3)) (ex_addr 1) = None"
proof -
  obtain s s1 where s: "reachable (started ex_config) (step ex_config) s"
      "step ex_config s (Work 1 5 insertion_order (\<lambda>_. True)) s1"
      "handled_client s (Work 1 5 insertion_order (\<lambda>_. True)) = Some (ex_addr 1)"
      "\<exists>mem. spec_session (abs_world (server_world s1)) (ex_addr 1) = Inr (ex_info 7, mem)"
    by (rule ex_joined)
  obtain k where k: "Run_tick 1 k \<le> 20000000005" "\<forall>p' q' s3. step ex_config s1 (SweepData (Run_tick 1 k) p' q') s3 \<longrightarrow>
      sessions (abs_world (server_world s3)) (ex_addr 1) = None"
    using idle_session_expires [OF ex_config_ok s(1) _ _ s(2,3) run_Nil, of 1] by (auto simp: ex_config_def)
  have "0 < Run_tick 1 k" by (simp add: Run_tick_eq)
  then obtain s3 where "step ex_config s1 (SweepData (Run_tick 1 k) insertion_order insertion_order) s3"
    by (meson sweep_data)
  with s(4) k show ?thesis by blast
qed

end
