(* ===== verification/TokenServer.thy ===== *)
theory TokenServer
  imports Token ServerProps
begin

text \<open>
  The token generator behind the running server: which datagrams make a worker panic inside
  \<^verbatim>\<open>ParseToken\<close>, and that a token issued by the generator opens a session.
\<close>

section \<open>The parser in the running server\<close>

text \<open>
  The service calls \<^verbatim>\<open>ParseToken\<close> as a total function; where the generator panics it gets a value that is
  never used, because the goroutine ends there. \<open>parsed_token\<close> is the text that a worker's call of
  \<^verbatim>\<open>GetUsersAndMessage\<close> hands to the parser, if any.
\<close>

definition parse_of :: "crypto \<Rightarrow> bytes \<Rightarrow> time \<Rightarrow> string \<Rightarrow> error + Info" where
  "parse_of cr key now tok =
     (case ParseToken cr key now tok of Some r \<Rightarrow> r | None \<Rightarrow> Inl (ErrExternal ''slice bounds out of range''))"

definition parsed_token :: "'db service \<Rightarrow> time \<Rightarrow> UDPConnection \<Rightarrow> bytes \<Rightarrow> 'db world \<Rightarrow> string option" where
  "parsed_token s now ds req w = (case fst (getRoom s now ds w) of Inl _ \<Rightarrow> Some req | Inr _ \<Rightarrow> None)"

text \<open>\<^verbatim>\<open>GetUsersAndMessage\<close> depends on the parser only through that call.\<close>

lemma load_token [simp]: "load (s\<lparr>token := f\<rparr>) = load s"
  by (intro ext) (simp add: load_def)

lemma getRoom_token [simp]: "getRoom (s\<lparr>token := f\<rparr>) = getRoom s"
  by (intro ext) (unfold getRoom_def load_token, rule refl)

lemma setNewUser_token:
  "f now req = g now req \<Longrightarrow>
     setNewUser (s\<lparr>token := f\<rparr>) p now ds req w = setNewUser (s\<lparr>token := g\<rparr>) p now ds req w"
  by (simp add: setNewUser_def setRoom_def join_room_def Let_def split: sum.split prod.split option.split any.split)

lemma GetUsersAndMessage_token:
  assumes "\<And>tok. parsed_token s now ds req w = Some tok \<Longrightarrow> f now tok = g now tok"
  shows "GetUsersAndMessage (s\<lparr>token := f\<rparr>) p now ds req w = GetUsersAndMessage (s\<lparr>token := g\<rparr>) p now ds req w"
proof (cases "getRoom s now ds w")
  case (Pair r w1)
  show ?thesis
  proof (cases r)
    case (Inl e)
    then have "f now req = g now req" using assms Pair by (simp add: parsed_token_def)
    then have "setNewUser (s\<lparr>token := f\<rparr>) p now ds req w1 = setNewUser (s\<lparr>token := g\<rparr>) p now ds req w1"
      by (rule setNewUser_token)
    then show ?thesis by (simp add: GetUsersAndMessage_def Pair Inl)
  qed (simp add: GetUsersAndMessage_def Pair split: prod.split)
qed

text \<open>
  A worker's turn that ends the process: the message at the head of its channel is of a client without a
  session, and the parser panics on its bytes. \<^verbatim>\<open>sendWorker\<close> does not recover.
\<close>

definition turn_crashes :: "crypto \<Rightarrow> bytes \<Rightarrow> server \<Rightarrow> action \<Rightarrow> bool" where
  "turn_crashes cr key s a \<longleftrightarrow>
     (case a of
        Work i now p ok \<Rightarrow>
          i < length (running s) \<and> running s ! i \<and>
          (case chMsg (worker (udp s)) ! i of
             [] \<Rightarrow> False
           | m # _ \<Rightarrow>
               (case parsed_token (wk_service (worker (udp s))) now (msg_client m)
                       (take (msg_request m) (buffer (udp s))) (world (app (udp s))) of
                  None \<Rightarrow> False
                | Some tok \<Rightarrow> ParseToken cr key now tok = None))
      | _ \<Rightarrow> False)"

lemma parsed_token_eq:
  assumes "world_ok w"
  shows "parsed_token (mem_service parse cpus mem) now ds req w =
    (case spec_session (abs_world w) ds of Inl _ \<Rightarrow> Some req | Inr _ \<Rightarrow> None)"
proof -
  obtain w1 where "getRoom (mem_service parse cpus mem) now ds w = (session (look (store w)) ds, w1)"
    by (rule sv.getRoom_cases)
  moreover have "vals_ok (look (store w)) (Service.heap w)" using assms by (simp add: world_ok_def ok_via_def)
  note session_abs [OF this, of ds]
  ultimately show ?thesis by (simp add: parsed_token_def abs_world_def abs_via_def split: sum.split prod.split)
qed

lemma turn_crashes_iff:
  assumes "config_ok cf" and "reachable (started cf) (step cf) s" and "cipher_err cr key = None"
    and "i < length (running s)" and "running s ! i" and "chMsg (worker (udp s)) ! i = m # ms"
  shows "turn_crashes cr key s (Work i now p ok) \<longleftrightarrow>
    (\<exists>e. spec_session (abs_world (world (app (udp s)))) (msg_client m) = Inl e) \<and>
    (\<exists>h bs. take (msg_request m) (buffer (udp s)) = h @ ''$_$a'' \<and> DecodeString h = Some bs \<and> length bs < NonceSize cr)"
proof -
  have ok: "server_ok cf s" by (rule reachable_ok [OF assms(1,2)])
  then have "world_ok (world (app (udp s)))" "wk_service (worker (udp s)) = mem_service (cf_parse cf) (cf_numCPU cf) (cf_memSys cf)"
    by (simp_all add: server_ok_def app_ok_def cf_service_def)
  then show ?thesis
    using assms(4-6) by (simp add: turn_crashes_def parsed_token_eq ParseToken_panics_iff [OF assms(3)] split: sum.split)
qed

text \<open>
  C4: one datagram is enough. From every quiet reachable state of the server, a datagram of such bytes from an
  address without a session, \<^verbatim>\<open>$_$a\<close> for one, is read and queued, and the turn of the worker that
  gets it panics, whatever the key, the cipher, the clock and the results of writes.
\<close>

theorem one_datagram_crashes_server:
  assumes "config_ok cf" and "reachable (started cf) (step cf) s" and "idle s" and "0 < now"
    and "cipher_err cr key = None" and "DecodeString h = Some bs" and "length bs < NonceSize cr" and "length h + 4 \<le> bufferSize"
    and "sessions (abs_world (world (app (udp s)))) \<lparr>ClientAddr = a\<rparr> = None"
  shows "\<exists>s'. run (step cf) s [Select, Read now (Datagram a (h @ ''$_$a''))] s' \<and>
    turn_crashes cr key s' (Work (next_channel s) now' p ok)"
proof -
  let ?d = "h @ ''$_$a''" and ?c = "next_channel s" and ?w = "worker (udp s)"
  have ok: "server_ok cf s" by (rule reachable_ok [OF assms(1,2)])
  have i: "pc s = AtSelect" "\<not> ctx_done s" using assms(3) by (simp_all add: idle_def)
  obtain s' where s': "run (step cf) s [Select, Read now (Datagram a ?d)] s'" "running s' = running s"
      "server_world s' = server_world s" "worker (udp s') = handleConnection a (length ?d) ?w"
      "buffer (udp s') = ?d @ drop (length ?d) (buffer (udp s))"
    using read_step [OF ok assms(1) i assms(4), of ?d a] assms(8) by auto
  have ne: "chMsg ?w \<noteq> []" and cap: "0 < chan_size ?w"
    using ok assms(1) sless_unat_pos [of "cf_udpRateLimit cf"] by (auto simp: server_ok_def queues_ok_def config_ok_def)
  have c: "?c < length (chMsg ?w)" "chMsg ?w ! ?c = []" using ne assms(3) by (simp_all add: next_channel_def idle_def)
  have m: "chMsg (worker (udp s')) ! ?c = [\<lparr>msg_client = \<lparr>ClientAddr = a\<rparr>, msg_request = length ?d\<rparr>]"
    using handleConnection_queues [OF ne, of ?c a "length ?d"] c cap by (simp add: s'(4) next_channel_def)
  have r: "?c < length (running s')" "running s' ! ?c" using c(1) s'(2) ok assms(3) by (auto simp: server_ok_def idle_def)
  have "turn_crashes cr key s' (Work ?c now' p ok)"
    using turn_crashes_iff [OF assms(1) reachable_run [OF assms(2) s'(1)] assms(5) r m, of now' p ok] assms(6,7,9)
    by (auto simp: s'(3,5))
  with s'(1) show ?thesis by blast
qed

text \<open>A concrete server with this generator.\<close>

definition token_config :: config where
  "token_config = ex_config\<lparr>cf_parse := parse_of sample_crypto sample_key\<rparr>"

definition token_server :: server where
  "token_server = ex_server\<lparr>udp := (udp ex_server)\<lparr>worker := ex_worker\<lparr>wk_service := cf_service token_config\<rparr>\<rparr>\<rparr>"

lemma token_config_ok: "config_ok token_config"
  using ex_config_ok by (simp add: token_config_def config_ok_def)

lemma token_server_started: "started token_config token_server"
  by (simp add: started_def StartUDP_def NewWorkerUDP_def token_server_def ex_server_def ex_worker_def replicate_two
      word_sless_alt Let_def new_app_def new_world_def token_config_def) (simp add: ex_config_def)

lemma token_server_reachable: "reachable (started token_config) (step token_config) token_server"
  by (rule reachable_init) (rule token_server_started)

lemma token_server_idle: "idle token_server"
  by (simp add: idle_def token_server_def ex_server_def ex_worker_def)

theorem one_datagram_crashes_server_witness:
  "\<exists>s'. run (step token_config) token_server [Select, Read 5 (Datagram (ClientAddr (ex_addr 1)) ''0a$_$a'')] s' \<and>
     turn_crashes sample_crypto sample_key s' (Work (next_channel token_server) 5 insertion_order (\<lambda>_. True))"
proof -
  have d: "DecodeString ''0a'' = Some [CHR 0x0A]" by code_simp
  have "sessions (abs_world (world (app (udp token_server)))) \<lparr>ClientAddr = ClientAddr (ex_addr 1)\<rparr> = None"
    by (simp add: token_server_def ex_server_def new_app_def abs_new_world)
  from one_datagram_crashes_server [OF token_config_ok token_server_reachable token_server_idle _ sample_key_ok(1) d _ _ this,
      of 5 5 insertion_order "\<lambda>_. True"]
  show ?thesis by (simp add: sample_key_ok(2) bufferSize_def)
qed

section \<open>Issued tokens\<close>

text \<open>
  C11: an issued token opens a session. With this generator behind the server, a token issued for a client and sent from a
  new address to a quiet server, before the second of its end has passed, is answered with the user id
  of the client and puts the client into its room.
\<close>

theorem issued_token_joins:
  assumes "config_ok cf" and "reachable (started cf) (step cf) s" and "idle s" and "cf_parse cf = parse_of cr key"
    and "codec_ok cr" and "cipher_err cr key = None" and "length nonce = NonceSize cr"
    and "GenerateToken cr key (Inr nonce) issued info AESGCM = Inr tok" and "length tok \<le> bufferSize"
    and "0 < now" and "Unix now \<le>s Unix (issued + sint (TTL (SetDefaultValueIfEmpty info)))"
    and "sessions (abs_world (world (app (udp s)))) \<lparr>ClientAddr = a\<rparr> = None"
  shows "\<exists>s'. run (step cf) s (delivery now a tok p (next_channel s)) s' \<and> idle s' \<and>
    sent (udp s') = sent (udp s) @ [(\<lparr>ClientAddr = a\<rparr>, uuid_String (UserID info))] \<and>
    abs_world (world (app (udp s'))) =
      spec_join \<lparr>ClientAddr = a\<rparr> (SetDefaultValueIfEmpty info) (abs_world (world (app (udp s))))"
proof -
  let ?i = "SetDefaultValueIfEmpty info"
  have "ParseToken cr key now tok = Some (Inr ?i)"
    using generated_token [OF assms(5-7), of issued info] assms(8,11) by force
  then have parse: "cf_parse cf now tok = Inr ?i" by (simp add: assms(4) parse_of_def)
  have tok: "0 < length tok"
    using assms(6,8) by (auto simp: GenerateToken_def aesgm_generate_def AESGCM_def setTokenAndType_def token_sep_def Let_def split: sum.splits)
  have "UserID ?i = UserID info" by (simp add: SetDefaultValueIfEmpty_def)
  with handshake_delivery [OF reachable_ok [OF assms(1,2)] assms(1,3,10) parse assms(12) tok assms(9), of p]
  show ?thesis by auto
qed

lemma length_Itoa: "n < 10 ^ Suc k \<Longrightarrow> length (Itoa n) \<le> Suc k"
proof (induction k arbitrary: n)
  case 0
  then show ?case by (subst Itoa.simps) simp
next
  case (Suc k)
  then have "n div 10 < 10 ^ Suc k" by (simp add: less_mult_imp_div_less)
  from Suc.IH [OF this] show ?case by (subst Itoa.simps) simp
qed

lemma length_EncodeToString: "length (EncodeToString bs) = 2 * length bs"
  by (induction bs) simp_all

theorem issued_token_joins_witness:
  "\<exists>tok s'. GenerateToken sample_crypto sample_key (Inr (replicate 12 CHR ''n'')) 0 (sample_info\<lparr>TTL := 1\<rparr>) AESGCM = Inr tok \<and>
     run (step token_config) token_server (delivery 5 (ClientAddr (ex_addr 1)) tok insertion_order (next_channel token_server)) s' \<and>
     sent (udp s') = [(\<lparr>ClientAddr = ClientAddr (ex_addr 1)\<rparr>, uuid_String 3)]"
proof -
  have "claims_number \<lparr>claims_TTL = word_of_int (- 62135596800), claims_Info = sample_info\<lparr>TTL := 1\<rparr>\<rparr> < 10 ^ Suc 99"
    by (simp add: claims_number_def sample_info_def prod_encode_def triangle_def int_encode_def sum_encode_def)
  note short = length_Itoa [OF this]
  obtain tok where tok: "GenerateToken sample_crypto sample_key (Inr (replicate 12 CHR ''n'')) 0 (sample_info\<lparr>TTL := 1\<rparr>) AESGCM = Inr tok"
      "length tok \<le> bufferSize"
    using short
    by (simp add: GenerateToken_def aesgm_generate_def SetDefaultValueIfEmpty_def sample_info_def setTokenAndType_def token_sep_def
        AESGCM_def Unix_def length_EncodeToString sample_key_ok bufferSize_def Let_def)
      (simp add: sample_crypto_def sample_key_def setTokenAndType_def token_sep_def length_EncodeToString)
  have cfp: "cf_parse token_config = parse_of sample_crypto sample_key" by (simp add: token_config_def)
  have sess: "sessions (abs_world (world (app (udp token_server)))) \<lparr>ClientAddr = ClientAddr (ex_addr 1)\<rparr> = None"
    by (simp add: token_server_def ex_server_def new_app_def abs_new_world)
  have "sent (udp token_server) = []" by (simp add: token_server_def ex_server_def)
  then show ?thesis
    using issued_token_joins [OF token_config_ok token_server_reachable token_server_idle cfp sample_codec_ok sample_key_ok(1) _ tok(1,2) _ _ sess,
        of 5 insertion_order] tok(1)
    by (auto simp: sample_key_ok(2) Unix_def SetDefaultValueIfEmpty_def sample_info_def)
qed

end
