(* ===== verification/Drain.thy ===== *)
theory Drain
  imports TokenServer
begin

text \<open>
  Progress of the queues. Until the context is cancelled every worker runs and the listener has not
  returned, so what waits in the channels can be worked off, one message for each turn of a worker, unless the token parser
  panics on one of the messages: \<open>surviving\<close> steps are those that do not end the process that way (theory \<open>TokenServer\<close>).
\<close>

definition alive :: "server \<Rightarrow> bool" where
  "alive s \<longleftrightarrow> ctx_done s \<or> False \<notin> set (running s) \<and> pc s \<noteq> Returned"

lemma all_running: "(\<forall>b \<in> set bs. b) \<longleftrightarrow> False \<notin> set bs"
  by (induction bs) auto

lemma work_once_queues:
  assumes "work_once p now ok i u = Some u'" and "chMsg (worker u) ! i = m # ms"
  shows "chMsg (worker u') = (chMsg (worker u))[i := ms]"
  using assms by (auto simp: work_once_def Let_def split: prod.splits sum.splits if_splits option.splits)

interpretation live: invariant_system "\<lambda>s. config_ok cf \<and> started cf s" "step cf" "\<lambda>s. config_ok cf \<and> server_ok cf s \<and> alive s" for cf
proof unfold_locales
  show "config_ok cf \<and> started cf s \<Longrightarrow> config_ok cf \<and> server_ok cf s \<and> alive s" for s
    using started_ok [of cf s]
    by (auto simp: alive_def started_def StartUDP_def Let_def split: option.splits sum.splits)
  show "config_ok cf \<and> server_ok cf s' \<and> alive s'" if inv: "config_ok cf \<and> server_ok cf s \<and> alive s" and st: "step cf s a s'" for s a s'
  proof -
    have "alive s'" using st inv by cases (auto simp: alive_def)
    then show ?thesis using inv step_ok [OF _ _ st] by blast
  qed
qed

definition is_work :: "action \<Rightarrow> bool" where
  "is_work a = (case a of Work _ _ _ _ \<Rightarrow> True | _ \<Rightarrow> False)"

lemma work_counts:
  assumes "server_ok cf s" and "step cf s a s'" and "is_work a"
  shows "Suc (printer_counter (worker (udp s'))) = printer_counter (worker (udp s)) \<and> pc s' = pc s \<and>
    ctx_done s' = ctx_done s \<and> running s' = running s"
  using assms(2)
proof cases
  case (work i now p ok u)
  obtain m ms where m: "chMsg (worker (udp s)) ! i = m # ms" using work(5) by (auto simp: neq_Nil_conv)
  let ?ls = "map length (chMsg (worker (udp s)))"
  have i: "i < length ?ls" using work(3) assms(1) by (simp add: server_ok_def)
  have "?ls ! i \<le> sum_list ?ls" by (rule member_le_sum_list) (use i in auto)
  then have "Suc (sum_list (?ls[i := length ms])) = sum_list ?ls"
    using i m by (simp add: sum_list_update)
  then show ?thesis
    using work_once_queues [OF work(7) m] work(2) by (simp add: printer_counter_eq map_update)
qed (use assms(3) in \<open>simp_all add: is_work_def\<close>)

lemma work_run_counts:
  "run (step cf) s as s' \<Longrightarrow> config_ok cf \<Longrightarrow> server_ok cf s \<Longrightarrow> \<forall>a \<in> set as. is_work a \<Longrightarrow>
   length as + printer_counter (worker (udp s')) = printer_counter (worker (udp s)) \<and> pc s' = pc s \<and>
   ctx_done s' = ctx_done s \<and> running s' = running s"
proof (induction rule: run.induct)
  case (run_Cons s a s1 as s2)
  have "server_ok cf s1" using step_ok [OF run_Cons.prems(2,1) run_Cons.hyps(1)] .
  with run_Cons.IH [OF run_Cons.prems(1)] work_counts [OF run_Cons.prems(2) run_Cons.hyps(1)] run_Cons.prems(3)
  show ?case by simp
qed simp

lemma work_step_exists:
  assumes "server_ok cf s" and "alive s" and "\<not> ctx_done s" and "0 < now" and "printer_counter (worker (udp s)) \<noteq> 0"
  shows "\<exists>i s'. step cf s (Work i now p ok) s'"
proof -
  obtain i where i: "i < length (chMsg (worker (udp s)))" "chMsg (worker (udp s)) ! i \<noteq> []"
    using assms(5) by (auto simp: printer_counter_eq in_set_conv_nth)
  then have r: "i < length (running s)" using assms(1) by (simp add: server_ok_def)
  then have "running s ! i" using assms(2,3) nth_mem [OF r] by (cases "running s ! i") (auto simp: alive_def)
  then show ?thesis
    using work_once_total [OF assms(1), of i p now ok] assms(4) i(2) r by (auto simp: step_simps)
qed

lemma drain_run:
  assumes "config_ok cf" and "0 < now"
  shows "server_ok cf s \<Longrightarrow> alive s \<Longrightarrow> \<not> ctx_done s \<Longrightarrow>
    \<exists>as s'. run (step cf) s as s' \<and> (\<forall>a \<in> set as. \<exists>i. a = Work i now p ok) \<and> printer_counter (worker (udp s')) = 0"
proof (induction "printer_counter (worker (udp s))" arbitrary: s)
  case 0
  then have "run (step cf) s [] s \<and> (\<forall>a \<in> set []. \<exists>i. a = Work i now p ok) \<and> printer_counter (worker (udp s)) = 0" by simp
  then show ?case by blast
next
  case (Suc n)
  obtain i s1 where s1: "step cf s (Work i now p ok) s1"
    using work_step_exists [OF Suc.prems assms(2), of p ok] Suc.hyps(2) by auto
  have c: "n = printer_counter (worker (udp s1))" "\<not> ctx_done s1"
    using work_counts [OF Suc.prems(1) s1] Suc.hyps(2) Suc.prems(3) by (simp_all add: is_work_def)
  have "server_ok cf s1" "alive s1"
    using live.step_inv [of cf s "Work i now p ok" s1] s1 Suc.prems assms(1) by blast+
  from Suc.hyps(1) [OF c(1) this c(2)] obtain as s' where as: "run (step cf) s1 as s'"
      "\<forall>a \<in> set as. \<exists>i. a = Work i now p ok" "printer_counter (worker (udp s')) = 0" by blast
  then have "run (step cf) s (Work i now p ok # as) s'" using s1 by (simp add: run_Cons)
  with as(2,3) show ?case by (intro exI [of _ "Work i now p ok # as"] exI [of _ s']) simp
qed

section \<open>With a parser that may panic\<close>

definition surviving :: "config \<Rightarrow> crypto \<Rightarrow> bytes \<Rightarrow> server \<Rightarrow> action \<Rightarrow> server \<Rightarrow> bool" where
  "surviving cf cr key s a s' \<longleftrightarrow> step cf s a s' \<and> \<not> turn_crashes cr key s a"

lemma surviving_run: "run (surviving cf cr key) s as s' \<Longrightarrow> run (step cf) s as s'"
  by (induction rule: run.induct) (auto simp: surviving_def intro: run.intros)

lemma surviving_reachable: "reachable I (surviving cf cr key) s \<Longrightarrow> reachable I (step cf) s"
  unfolding reachable_def using surviving_run by blast

text \<open>The messages that wait, as a worker will read them, and that the parser returns on each of them.\<close>

definition harmless :: "crypto \<Rightarrow> bytes \<Rightarrow> time \<Rightarrow> server \<Rightarrow> bool" where
  "harmless cr key now s \<longleftrightarrow>
     (\<forall>q \<in> set (chMsg (worker (udp s))). \<forall>m \<in> set q. ParseToken cr key now (take (msg_request m) (buffer (udp s))) \<noteq> None)"

lemma work_keeps_buffer:
  assumes "work_once p now ok i u = Some u'" and "chMsg (worker u) ! i = m # ms"
  shows "buffer u' = buffer u"
  using assms by (auto simp: work_once_def Let_def split: prod.splits sum.splits if_splits option.splits)

lemma harmless_turn:
  assumes "harmless cr key now s" and "server_ok cf s" and "step cf s (Work i now p ok) s'"
  shows "surviving cf cr key s (Work i now p ok) s' \<and> harmless cr key now s'"
  using assms(3)
proof cases
  case (work u)
  obtain m ms where m: "chMsg (worker (udp s)) ! i = m # ms" using work(4) by (auto simp: neq_Nil_conv)
  have i: "i < length (chMsg (worker (udp s)))" using work(2) assms(2) by (simp add: server_ok_def)
  then have q: "m # ms \<in> set (chMsg (worker (udp s)))" using m nth_mem by metis
  then have "ParseToken cr key now (take (msg_request m) (buffer (udp s))) \<noteq> None"
    using assms(1) by (fastforce simp: harmless_def)
  then have "\<not> turn_crashes cr key s (Work i now p ok)"
    using m by (auto simp: turn_crashes_def parsed_token_def split: sum.splits)
  moreover have "harmless cr key now s'"
    using assms(1) q work_once_queues [OF work(6) m] work_keeps_buffer [OF work(6) m]
    by (fastforce simp: harmless_def work(1) dest!: in_set_list_update)
  ultimately show ?thesis using assms(3) by (simp add: surviving_def)
qed

lemma harmless_run:
  "run (step cf) s as s' \<Longrightarrow> config_ok cf \<Longrightarrow> server_ok cf s \<Longrightarrow> harmless cr key now s \<Longrightarrow> \<forall>a \<in> set as. \<exists>i. a = Work i now p ok \<Longrightarrow>
   run (surviving cf cr key) s as s'"
proof (induction rule: run.induct)
  case (run_Cons s a s1 as s2)
  obtain i where a: "a = Work i now p ok" using run_Cons.prems(4) by auto
  note H = harmless_turn [OF run_Cons.prems(3,2) run_Cons.hyps(1) [unfolded a]]
  have "server_ok cf s1" using step_ok [OF run_Cons.prems(2,1) run_Cons.hyps(1)] .
  with run_Cons.IH run_Cons.prems(1,4) H show ?case by (auto simp: a intro: run.run_Cons)
qed (simp add: run_Nil)

text \<open>
  C8: the server comes to rest. In every state that the server reaches before the cancellation, whatever the outcomes of the
  writes and the order in which workers are scheduled, each turn of a worker takes one message and no worker
  makes more turns than messages wait. And when the token parser returns on each of the messages that wait (one on which it
  panics ends the process instead), there is a run of such turns, none of which panics, after which, when the pending
  read returns, nothing waits, all workers run and the listener is ready.
\<close>

theorem queues_drain:
  assumes "config_ok cf" and "cf_parse cf = parse_of cr key" and "reachable (started cf) (surviving cf cr key) s"
    and "\<not> ctx_done s" and "0 < now"
  shows "(\<forall>as s'. run (surviving cf cr key) s as s' \<longrightarrow> (\<forall>a \<in> set as. is_work a) \<longrightarrow>
      length as + printer_counter (worker (udp s')) = printer_counter (worker (udp s))) \<and>
    (harmless cr key now s \<longrightarrow>
      (\<exists>as s'. run (surviving cf cr key) s (as @ (if pc s = Reading then [Read now ReadErr] else [])) s' \<and>
        (\<forall>a \<in> set as. \<exists>i. a = Work i now p ok) \<and> length as = printer_counter (worker (udp s)) \<and> idle s'))"
proof (intro conjI allI impI)
  have s: "server_ok cf s" "alive s"
    using live.reachable_inv [of cf s] assms(1) surviving_reachable [OF assms(3)] by (auto simp: reachable_def)
  show "length as + printer_counter (worker (udp s')) = printer_counter (worker (udp s))"
    if "run (surviving cf cr key) s as s'" "\<forall>a \<in> set as. is_work a" for as s'
    using work_run_counts [OF surviving_run [OF that(1)] assms(1) s(1) that(2)] by blast
  assume h: "harmless cr key now s"
  obtain as s1 where as: "run (step cf) s as s1" "\<forall>a \<in> set as. \<exists>i. a = Work i now p ok" "printer_counter (worker (udp s1)) = 0"
    using drain_run [OF assms(1,5) s assms(4)] by blast
  have "\<forall>a \<in> set as. is_work a" using as(2) by (auto simp: is_work_def)
  note c = work_run_counts [OF as(1) assms(1) s(1) this]
  let ?s2 = "s1\<lparr>pc := AtSelect\<rparr>" and ?bs = "if pc s = Reading then [Read now ReadErr] else []"
  have "pc s \<noteq> Returned" using s(2) assms(4) by (simp add: alive_def)
  then have "pc s \<noteq> Reading \<Longrightarrow> s1 = ?s2" using c by (cases "pc s") simp_all
  then have "run (surviving cf cr key) s1 ?bs ?s2"
    using c assms(5) by (simp add: run_Cons_iff surviving_def turn_crashes_def step_simps listen_once_def)
  with harmless_run [OF as(1) assms(1) s(1) h as(2)] have "run (surviving cf cr key) s (as @ ?bs) ?s2" by (auto simp: run_append)
  moreover have "idle ?s2"
    using c s(2) as(3) assms(4) by (simp add: idle_def all_running alive_def printer_counter_eq)
  moreover have "length as = printer_counter (worker (udp s))" using c as(3) by simp
  ultimately show "\<exists>as s'. run (surviving cf cr key) s (as @ ?bs) s' \<and>
      (\<forall>a \<in> set as. \<exists>i. a = Work i now p ok) \<and> length as = printer_counter (worker (udp s)) \<and> idle s'"
    using as(2) by blast
qed

theorem queues_drain_witness:
  "\<exists>s as s'. reachable (started token_config) (surviving token_config sample_crypto sample_key) s \<and> printer_counter (worker (udp s)) = 1 \<and>
     run (surviving token_config sample_crypto sample_key) s as s' \<and> idle s'"
proof -
  let ?a = "ClientAddr (ex_addr 1)" and ?d = "''alice''"
  obtain s where s: "run (step token_config) token_server [Select, Read 5 (Datagram ?a ?d)] s" "\<not> ctx_done s"
      "worker (udp s) = handleConnection ?a (length ?d) (worker (udp token_server))"
      "buffer (udp s) = ?d @ drop (length ?d) (buffer (udp token_server))"
    using read_step [OF reachable_ok [OF token_config_ok token_server_reachable] token_config_ok, of 5 ?d ?a] token_server_idle
    by (simp add: idle_def bufferSize_def) blast
  then have "run (surviving token_config sample_crypto sample_key) token_server [Select, Read 5 (Datagram ?a ?d)] s"
    by (auto simp: run_Cons_iff surviving_def turn_crashes_def)
  then have r: "reachable (started token_config) (surviving token_config sample_crypto sample_key) s"
    using token_server_started unfolding reachable_def by blast
  have q: "chMsg (worker (udp s)) = [[], [\<lparr>msg_client = ex_addr 1, msg_request = 5\<rparr>]]"
    by (simp add: s(3) token_server_def handleConnection_def counterChen_def ex_server_def ex_worker_def Let_def ex_addr_def)
  have "printer_counter (worker (udp s)) = 1" by (simp add: q printer_counter_eq)
  moreover have "ParseToken sample_crypto sample_key 6 ?d \<noteq> None"
    by code_simp
  then have "harmless sample_crypto sample_key 6 s" by (simp add: harmless_def q s(4))
  moreover have "cf_parse token_config = parse_of sample_crypto sample_key" by (simp add: token_config_def)
  ultimately show ?thesis
    using queues_drain [OF token_config_ok _ r s(2), of 6 insertion_order "\<lambda>_. False"] r by auto
qed

end
