(* ===== verification/Startup.thy ===== *)
theory Startup
  imports TokenServer
begin

text \<open>
  The life of the process: what \<^verbatim>\<open>main\<close> of \<^verbatim>\<open>cmd/udp/main.go\<close> starts, and when the call of \<^verbatim>\<open>StartUDP\<close> comes
  back. \<^verbatim>\<open>StartUDP\<close> waits for the first error on an unbuffered channel that two goroutines send to: the one
  that listens for datagrams, with \<^verbatim>\<open>ctx.Err()\<close> when \<^verbatim>\<open>Listener\<close> returns, and the one that serves HTTP, with the
  error of \<^verbatim>\<open>Listen\<close>.
\<close>

section \<open>The wait for an error\<close>

datatype sender = Serving | Sending error | Finished

record process =
  proc_server :: server
  proc_udp :: sender
  proc_tcp :: sender
  proc_result :: "error option"

text \<open>
  \<open>ListenReturns\<close> is the return of \<^verbatim>\<open>Listen\<close> of fiber with its error or nil. A goroutine that has an error
  blocks until \<^verbatim>\<open>StartUDP\<close> receives it; \<^verbatim>\<open>StartUDP\<close> receives once and returns it.
\<close>

datatype process_action =
    Serve action
  | ListenerReturns
  | ListenReturns "error option"
  | ReceiveUDP
  | ReceiveTCP

inductive process_step :: "config \<Rightarrow> error \<Rightarrow> process \<Rightarrow> process_action \<Rightarrow> process \<Rightarrow> bool" for cf ctx_err where
  serve: "step cf (proc_server P) a s' \<Longrightarrow> process_step cf ctx_err P (Serve a) (P\<lparr>proc_server := s'\<rparr>)"
| listener_returns: "proc_udp P = Serving \<Longrightarrow> pc (proc_server P) = Returned \<Longrightarrow>
    process_step cf ctx_err P ListenerReturns (P\<lparr>proc_udp := Sending ctx_err\<rparr>)"
| listen_returns: "proc_tcp P = Serving \<Longrightarrow>
    process_step cf ctx_err P (ListenReturns e) (P\<lparr>proc_tcp := (case e of Some err \<Rightarrow> Sending err | None \<Rightarrow> Finished)\<rparr>)"
| receive_udp: "proc_udp P = Sending err \<Longrightarrow> proc_result P = None \<Longrightarrow>
    process_step cf ctx_err P ReceiveUDP (P\<lparr>proc_udp := Finished, proc_result := Some err\<rparr>)"
| receive_tcp: "proc_tcp P = Sending err \<Longrightarrow> proc_result P = None \<Longrightarrow>
    process_step cf ctx_err P ReceiveTCP (P\<lparr>proc_tcp := Finished, proc_result := Some err\<rparr>)"

inductive_simps process_step_simps:
  "process_step cf ctx_err P (Serve a) P'"
  "process_step cf ctx_err P ListenerReturns P'"
  "process_step cf ctx_err P (ListenReturns e) P'"
  "process_step cf ctx_err P ReceiveUDP P'"
  "process_step cf ctx_err P ReceiveTCP P'"

definition new_process :: "server \<Rightarrow> process" where
  "new_process s = \<lparr>proc_server = s, proc_udp = Serving, proc_tcp = Serving, proc_result = None\<rparr>"

fun served :: "process_action list \<Rightarrow> action list" where
  "served [] = []"
| "served (Serve a # as) = a # served as"
| "served (_ # as) = served as"

text \<open>What the process does to the game server is a run of the server: the waiting call does not disturb it.\<close>

lemma process_serves: "run (process_step cf ctx_err) P as P' \<Longrightarrow> run (step cf) (proc_server P) (served as) (proc_server P')"
proof (induction rule: run.induct)
  case (run_Cons P a P1 as P2)
  from run_Cons.hyps(1) show ?case
    by cases (use run_Cons.IH in \<open>auto intro: run.run_Cons\<close>)
qed simp

text \<open>Where the errors come from; \<open>E\<close> are the errors with which \<^verbatim>\<open>Listen\<close> returned.\<close>

definition cancelled :: "process \<Rightarrow> bool" where
  "cancelled P \<longleftrightarrow> ctx_done (proc_server P) \<and> pc (proc_server P) = Returned"

definition errors_ok :: "error \<Rightarrow> error set \<Rightarrow> process \<Rightarrow> bool" where
  "errors_ok ctx_err E P \<longleftrightarrow>
     (pc (proc_server P) = Returned \<longrightarrow> ctx_done (proc_server P)) \<and>
     (\<forall>e. proc_udp P = Sending e \<longrightarrow> e = ctx_err \<and> cancelled P) \<and>
     (\<forall>e. proc_tcp P = Sending e \<longrightarrow> e \<in> E) \<and>
     (\<forall>e. proc_result P = Some e \<longrightarrow> e = ctx_err \<and> cancelled P \<or> e \<in> E)"

lemma step_returned:
  assumes "step cf s a s'" and "pc s = Returned \<longrightarrow> ctx_done s"
  shows "(pc s' = Returned \<longrightarrow> ctx_done s') \<and> (ctx_done s \<and> pc s = Returned \<longrightarrow> ctx_done s' \<and> pc s' = Returned)"
  using assms by cases auto

lemma process_step_errors:
  assumes "process_step cf ctx_err P a P'" and "errors_ok ctx_err E P" and "\<forall>e. a = ListenReturns (Some e) \<longrightarrow> e \<in> E"
  shows "errors_ok ctx_err E P'"
  using assms(1)
proof cases
  case (serve b s')
  have c: "cancelled P \<Longrightarrow> cancelled P'" "pc s' = Returned \<longrightarrow> ctx_done s'"
    using step_returned [OF serve(3)] assms(2) by (auto simp: errors_ok_def cancelled_def serve(2))
  then show ?thesis
    using assms(2) unfolding errors_ok_def serve(2) by auto
qed (use assms(2,3) in \<open>auto simp: errors_ok_def cancelled_def split: option.splits\<close>)

lemma process_run_errors:
  "run (process_step cf ctx_err) P as P' \<Longrightarrow> errors_ok ctx_err E P \<Longrightarrow> {e. ListenReturns (Some e) \<in> set as} \<subseteq> E \<Longrightarrow>
   errors_ok ctx_err E P'"
proof (induction rule: run.induct)
  case (run_Cons P a P1 as P2)
  then have "errors_ok ctx_err E P1" by (intro process_step_errors [OF run_Cons.hyps(1)]) auto
  with run_Cons show ?case by auto
qed simp

lemma started_waits: "started cf s \<Longrightarrow> errors_ok ctx_err E (new_process s)"
  by (auto simp: errors_ok_def new_process_def started_def StartUDP_def Let_def split: option.splits sum.splits)

text \<open>
  C27: when \<^verbatim>\<open>StartUDP\<close> returns. It returns the error of the context only after the context was cancelled and the
  listener has left its loop, and otherwise an error with which \<^verbatim>\<open>Listen\<close> of the HTTP server returned;
  it never returns nil. Once the context is cancelled and the listener is at its \<^verbatim>\<open>select\<close>, three
  steps bring it back.
\<close>

theorem StartUDP_returns:
  assumes "started cf s" and "run (process_step cf ctx_err) (new_process s) as P"
  shows "(\<forall>e. proc_result P = Some e \<longrightarrow> e = ctx_err \<and> cancelled P \<or> ListenReturns (Some e) \<in> set as) \<and>
    run (step cf) s (served as) (proc_server P) \<and>
    (ctx_done (proc_server P) \<and> pc (proc_server P) = AtSelect \<and> proc_udp P = Serving \<and> proc_result P = None \<longrightarrow>
       (\<exists>P'. run (process_step cf ctx_err) P [Serve Select, ListenerReturns, ReceiveUDP] P' \<and> proc_result P' = Some ctx_err))"
proof -
  have "errors_ok ctx_err {e. ListenReturns (Some e) \<in> set as} P"
    using process_run_errors [OF assms(2) started_waits [OF assms(1)]] by simp
  moreover have "run (step cf) s (served as) (proc_server P)"
    using process_serves [OF assms(2)] by (simp add: new_process_def)
  moreover have "\<exists>P'. run (process_step cf ctx_err) P [Serve Select, ListenerReturns, ReceiveUDP] P' \<and> proc_result P' = Some ctx_err"
    if "ctx_done (proc_server P)" "pc (proc_server P) = AtSelect" "proc_udp P = Serving" "proc_result P = None"
  proof -
    let ?P1 = "P\<lparr>proc_server := (proc_server P)\<lparr>pc := Returned\<rparr>\<rparr>"
    let ?P3 = "?P1\<lparr>proc_udp := Finished, proc_result := Some ctx_err\<rparr>"
    have "process_step cf ctx_err P (Serve Select) ?P1"
      using that(1,2) by (simp add: process_step_simps step_simps)
    moreover have "process_step cf ctx_err ?P1 ListenerReturns (?P1\<lparr>proc_udp := Sending ctx_err\<rparr>)"
      using that(3) by (simp add: process_step_simps)
    moreover have "process_step cf ctx_err (?P1\<lparr>proc_udp := Sending ctx_err\<rparr>) ReceiveUDP ?P3"
      using that(4) by (simp add: process_step_simps)
    ultimately have "run (process_step cf ctx_err) P [Serve Select, ListenerReturns, ReceiveUDP] ?P3"
      by (meson run_Cons run_Nil)
    then show ?thesis by (intro exI [of _ ?P3]) simp
  qed
  ultimately show ?thesis by (simp add: errors_ok_def)
qed

theorem StartUDP_returns_witness:
  "\<exists>P. run (process_step ex_config ErrUserNotFound) ((new_process ex_server)\<lparr>proc_server := ex_server\<lparr>ctx_done := True\<rparr>\<rparr>)
      [Serve Select, ListenerReturns, ReceiveUDP] P \<and> proc_result P = Some ErrUserNotFound"
proof -
  let ?P = "(new_process ex_server)\<lparr>proc_server := ex_server\<lparr>ctx_done := True\<rparr>\<rparr>"
  have "run (process_step ex_config ErrUserNotFound) (new_process ex_server) [Serve Cancel] ?P"
    by (simp add: run_Cons_iff process_step_simps step_simps new_process_def)
  from StartUDP_returns [OF ex_server_started this] show ?thesis
    by (simp add: new_process_def ex_server_def)
qed


section \<open>The main program\<close>

text \<open>
  What \<^verbatim>\<open>main\<close> passes to \<^verbatim>\<open>StartUDP\<close>: the variables of \<^verbatim>\<open>env\<close>, a lifetime of 10, and a context that is never cancelled.
  \<open>NumCPU\<close> and \<open>Sys\<close> are what the runtime reports (\<^verbatim>\<open>GOMAXPROCS(1)\<close> does not change the number of processors), \<open>cr\<close> the libraries
  of the token generator.
\<close>

definition main_config :: "crypto \<Rightarrow> go_int \<Rightarrow> uint64 \<Rightarrow> config" where
  "main_config cr numCPU memSys =
     \<lparr>cf_parse = parse_of cr TokenKey, cf_numCPU = numCPU, cf_memSys = memSys,
      cf_udpRateLimit = MaxRequestPerSecond, cf_dataTTL = 10\<rparr>"

text \<open>An error of \<^verbatim>\<open>StartUDP\<close> is logged at the level fatal, which ends the process.\<close>

datatype main_outcome = MainPanics | MainFatal error | MainServes process

definition main_udp :: "crypto \<Rightarrow> go_int \<Rightarrow> uint64 \<Rightarrow> error option \<Rightarrow> error option \<Rightarrow> main_outcome" where
  "main_udp cr numCPU memSys resolveErr listenErr =
     (let keyErr = (case NewTokenGenerator TokenKey of Inl err \<Rightarrow> Some err | Inr _ \<Rightarrow> None)
      in case StartUDP (main_config cr numCPU memSys) keyErr resolveErr listenErr of
           None \<Rightarrow> MainPanics
         | Some (Inl err) \<Rightarrow> MainFatal err
         | Some (Inr s) \<Rightarrow> MainServes (new_process s))"

lemma TokenKey_ok: "NewTokenGenerator TokenKey = Inr TokenKey"
  by (simp add: NewTokenGenerator_def TokenKey_def)

lemma main_config_sel [simp]:
  "cf_numCPU (main_config cr n m) = n" "cf_udpRateLimit (main_config cr n m) = 200" "cf_dataTTL (main_config cr n m) = 10"
  by (simp_all add: main_config_def MaxRequestPerSecond_def)

text \<open>
  C28: the program starts. On a machine with at least one processor \<^verbatim>\<open>main\<close> neither panics nor rejects the key of \<^verbatim>\<open>env\<close>: it ends
  with the error of \<^verbatim>\<open>net\<close> when the address cannot be resolved or opened, and otherwise it serves, quiet and with one
  running worker for each processor, in a configuration to which the theorems about the running server apply.
\<close>

theorem main_serves:
  assumes "0 <s numCPU"
  shows "main_udp cr numCPU memSys (Some e) listenErr = MainFatal e \<and>
    main_udp cr numCPU memSys None (Some e) = MainFatal e \<and>
    config_ok (main_config cr numCPU memSys) \<and>
    (\<exists>s. main_udp cr numCPU memSys None None = MainServes (new_process s) \<and> started (main_config cr numCPU memSys) s \<and>
       idle s \<and> length (running s) = unat numCPU)"
proof -
  let ?cf = "main_config cr numCPU memSys"
  have n: "\<not> numCPU <s 0" using assms by (simp add: word_sless_alt)
  have W: "\<not> (numCPU <s 0 \<or> 0 <s numCPU \<and> (200 :: go_int) <s 0)" using n by (simp add: word_sless_alt)
  define w where "w = \<lparr>wk_service = cf_service ?cf, chMsg = replicate (unat numCPU) [], chan_size = 200,
      wk_rateLimit = NewRateLimit 200 MemoryDb_ops, wk_count = 0\<rparr>"
  define s where "s = \<lparr>udp = \<lparr>worker = w, buffer = replicate bufferSize (CHR 0x00),
      app = \<lparr>world = \<lparr>store = NewMemoryDb 10, heap = []\<rparr>, limits = NewMemoryDb 1\<rparr>, sent = []\<rparr>,
      pc = AtSelect, running = Sender w, ctx_done = False\<rparr>"
  have W0: "NewWorkerUDP numCPU (Some e) listenErr (cf_service ?cf) 200 MemoryDb_ops = Some (Inl e)"
    "NewWorkerUDP numCPU None (Some e) (cf_service ?cf) 200 MemoryDb_ops = Some (Inl e)"
    "NewWorkerUDP numCPU None None (cf_service ?cf) 200 MemoryDb_ops = Some (Inr w)"
    using W unfolding NewWorkerUDP_def if_not_P [OF W] by (simp_all add: w_def Let_def)
  then have "StartUDP ?cf None None None = Some (Inr s)" "StartUDP ?cf None (Some e) listenErr = Some (Inl e)"
      "StartUDP ?cf None None (Some e) = Some (Inl e)"
    by (simp_all add: StartUDP_def s_def Let_def)
  moreover have "idle s" "length (running s) = unat numCPU"
    by (simp_all add: idle_def s_def w_def)
  ultimately show ?thesis
    using assms by (auto simp: main_udp_def TokenKey_ok started_def config_ok_def word_sless_alt)
qed

theorem main_serves_witness:
  "\<exists>s. main_udp sample_crypto 4 0 None None = MainServes (new_process s) \<and> length (running s) = 4"
  using main_serves [of 4 sample_crypto 0 ErrUserNotFound None] by (auto simp: word_sless_alt)

end
