(* ===== verification/JoinRace.thy ===== *)
theory JoinRace
  imports ServerProps
begin

text \<open>
  Clients that join at the same time. The workers run \<^verbatim>\<open>setNewUser\<close> concurrently, and neither the service nor \<^verbatim>\<open>Room\<close> takes a lock:
  only the single operations of the database are atomic. Here \<^verbatim>\<open>setNewUser\<close> is split at its accesses to shared memory (the
  calls of the database, and in \<^verbatim>\<open>SetUser\<close> the read and the write of the field \<^verbatim>\<open>Users\<close>), and any number of joins
  interleave at any times. Memory is sequentially consistent.
\<close>

section \<open>A join in steps\<close>

text \<open>
  Where a join is: the token is parsed; the session is stored; the room was not found; the room is at hand; its users were
  read; they were replaced; it returned; or it returned with the error of a row that is no room.
\<close>

datatype join_pc = Parsed | Stored | Missing | AtRoom nat | UsersRead nat "User list" | Joined | JoinDone | JoinFailed

record joiner =
  jn_ds :: UDPConnection
  jn_token :: string
  jn_info :: Info
  jn_pc :: join_pc

definition jn_user :: "joiner \<Rightarrow> User" where
  "jn_user j = \<lparr>u_ID = UserID (jn_info j), u_Connection = jn_ds j\<rparr>"

definition join_turn ::
    "'db service \<Rightarrow> (uuid \<times> User) range_order \<Rightarrow> time \<Rightarrow> joiner \<Rightarrow> 'db world \<Rightarrow> joiner \<times> 'db world" where
  "join_turn s p now j w =
     (let info = jn_info j
      in case jn_pc j of
           Parsed \<Rightarrow> (j\<lparr>jn_pc := Stored\<rparr>, w\<lparr>store := iSetData (storage s) now (GetID (jn_ds j)) (AnyInfo info) (store w)\<rparr>)
         | Stored \<Rightarrow>
             (case load s now (GenerateRoomKey info) w of
                (None, w1) \<Rightarrow> (j\<lparr>jn_pc := Missing\<rparr>, w1)
              | (Some (AnyRoom room), w1) \<Rightarrow> (j\<lparr>jn_pc := AtRoom room\<rparr>, w1)
              | (Some _, w1) \<Rightarrow> (j\<lparr>jn_pc := JoinFailed\<rparr>, w1))
         | Missing \<Rightarrow>
             (let (room, w1) = alloc_room (new_Room (GameID info) (RoomID info)) w
              in (j\<lparr>jn_pc := AtRoom room\<rparr>, setRoom s now info room 0 w1))
         | AtRoom room \<Rightarrow> (j\<lparr>jn_pc := UsersRead room (r_Users (heap w ! room))\<rparr>, w)
         | UsersRead room users \<Rightarrow>
             (j\<lparr>jn_pc := Joined\<rparr>, update_room room (\<lambda>r. r\<lparr>r_Users := setUser p users (jn_user j)\<rparr>) w)
         | Joined \<Rightarrow> (j\<lparr>jn_pc := JoinDone\<rparr>, w\<lparr>store := iAddConnection (storage s) now (jn_token j) (store w)\<rparr>)
         | JoinDone \<Rightarrow> (j, w)
         | JoinFailed \<Rightarrow> (j, w))"

definition new_joiner :: "UDPConnection \<Rightarrow> string \<Rightarrow> Info \<Rightarrow> joiner" where
  "new_joiner ds tok info = \<lparr>jn_ds = ds, jn_token = tok, jn_info = info, jn_pc = Parsed\<rparr>"

text \<open>Joins in progress on one world. A step names the join that moves, the time and the order of the map in \<^verbatim>\<open>setUser\<close>.\<close>

record 'db joins =
  jo_world :: "'db world"
  jo_joiners :: "joiner list"

inductive join_step :: "'db service \<Rightarrow> 'db joins \<Rightarrow> nat \<times> time \<times> (uuid \<times> User) range_order \<Rightarrow> 'db joins \<Rightarrow> bool" for s where
  "jo_joiners J = us @ j # vs \<Longrightarrow> jn_pc j \<noteq> JoinDone \<Longrightarrow> jn_pc j \<noteq> JoinFailed \<Longrightarrow> join_turn s p now j (jo_world J) = (j', w') \<Longrightarrow>
   join_step s J (length us, now, p) \<lparr>jo_world = w', jo_joiners = us @ j' # vs\<rparr>"

text \<open>Six turns of one join without interruption are \<^verbatim>\<open>setNewUser\<close>.\<close>

fun join_turns :: "nat \<Rightarrow> 'db service \<Rightarrow> (uuid \<times> User) range_order \<Rightarrow> time \<Rightarrow> joiner \<Rightarrow> 'db world \<Rightarrow> joiner \<times> 'db world" where
  "join_turns 0 s p now j w = (j, w)"
| "join_turns (Suc n) s p now j w = (let (j', w') = join_turn s p now j w in join_turns n s p now j' w')"

lemma join_turn_eqs:
  "join_turn s p now \<lparr>jn_ds = ds, jn_token = tok, jn_info = i, jn_pc = Parsed\<rparr> w =
     (\<lparr>jn_ds = ds, jn_token = tok, jn_info = i, jn_pc = Stored\<rparr>, w\<lparr>store := iSetData (storage s) now (GetID ds) (AnyInfo i) (store w)\<rparr>)"
  "load s now (GenerateRoomKey i) w = (None, w1) \<Longrightarrow> join_turn s p now \<lparr>jn_ds = ds, jn_token = tok, jn_info = i, jn_pc = Stored\<rparr> w =
     (\<lparr>jn_ds = ds, jn_token = tok, jn_info = i, jn_pc = Missing\<rparr>, w1)"
  "load s now (GenerateRoomKey i) w = (Some (AnyRoom n), w1) \<Longrightarrow>
     join_turn s p now \<lparr>jn_ds = ds, jn_token = tok, jn_info = i, jn_pc = Stored\<rparr> w =
     (\<lparr>jn_ds = ds, jn_token = tok, jn_info = i, jn_pc = AtRoom n\<rparr>, w1)"
  "join_turn s p now \<lparr>jn_ds = ds, jn_token = tok, jn_info = i, jn_pc = Missing\<rparr> w =
     (\<lparr>jn_ds = ds, jn_token = tok, jn_info = i, jn_pc = AtRoom (length (heap w))\<rparr>,
      setRoom s now i (length (heap w)) 0 (w\<lparr>heap := heap w @ [new_Room (GameID i) (RoomID i)]\<rparr>))"
  "join_turn s p now \<lparr>jn_ds = ds, jn_token = tok, jn_info = i, jn_pc = AtRoom n\<rparr> w =
     (\<lparr>jn_ds = ds, jn_token = tok, jn_info = i, jn_pc = UsersRead n (r_Users (heap w ! n))\<rparr>, w)"
  "join_turn s p now \<lparr>jn_ds = ds, jn_token = tok, jn_info = i, jn_pc = UsersRead n users\<rparr> w =
     (\<lparr>jn_ds = ds, jn_token = tok, jn_info = i, jn_pc = Joined\<rparr>,
      update_room n (\<lambda>r. r\<lparr>r_Users := setUser p users \<lparr>u_ID = UserID i, u_Connection = ds\<rparr>\<rparr>) w)"
  "join_turn s p now \<lparr>jn_ds = ds, jn_token = tok, jn_info = i, jn_pc = Joined\<rparr> w =
     (\<lparr>jn_ds = ds, jn_token = tok, jn_info = i, jn_pc = JoinDone\<rparr>, w\<lparr>store := iAddConnection (storage s) now tok (store w)\<rparr>)"
  "join_turn s p now \<lparr>jn_ds = ds, jn_token = tok, jn_info = i, jn_pc = JoinDone\<rparr> w = (\<lparr>jn_ds = ds, jn_token = tok, jn_info = i, jn_pc = JoinDone\<rparr>, w)"
  "join_turn s p now \<lparr>jn_ds = ds, jn_token = tok, jn_info = i, jn_pc = JoinFailed\<rparr> w = (\<lparr>jn_ds = ds, jn_token = tok, jn_info = i, jn_pc = JoinFailed\<rparr>, w)"
  by (simp_all add: join_turn_def alloc_room_def jn_user_def)

lemma join_turn_bad:
  "load s now (GenerateRoomKey i) w = (Some v, w1) \<Longrightarrow> \<forall>n. v \<noteq> AnyRoom n \<Longrightarrow>
   join_turn s p now \<lparr>jn_ds = ds, jn_token = tok, jn_info = i, jn_pc = Stored\<rparr> w =
     (\<lparr>jn_ds = ds, jn_token = tok, jn_info = i, jn_pc = JoinFailed\<rparr>, w1)"
  by (simp add: join_turn_def split: any.split)

lemma six: "(6 :: nat) = Suc (Suc (Suc (Suc (Suc (Suc 0)))))"
  by simp

lemma update_room_SetUser: "update_room n (\<lambda>r. r\<lparr>r_Users := setUser p (r_Users (heap w ! n)) u\<rparr>) w = update_room n (SetUser p u) w"
  by (simp add: update_room_def SetUser_def)

lemma join_turns_six:
  assumes "token s now tok = Inr info"
  shows "setNewUser s p now ds tok w =
    (let (j, w') = join_turns 6 s p now (new_joiner ds tok info) w
     in (if jn_pc j = JoinFailed then Inl ErrRoomBadValue else Inr info, w'))"
proof -
  let ?w1 = "w\<lparr>store := iSetData (storage s) now (GetID ds) (AnyInfo info) (store w)\<rparr>"
  obtain found w2 where l: "load s now (GenerateRoomKey info) ?w1 = (found, w2)" by force
  show ?thesis
  proof (cases found)
    case None
    with l show ?thesis
      by (simp add: setNewUser_def assms new_joiner_def six join_turn_eqs update_room_SetUser alloc_room_def join_room_def Let_def)
  next
    case (Some v)
    with l show ?thesis
      by (cases v) (simp_all add: setNewUser_def assms new_joiner_def six join_turn_eqs join_turn_bad update_room_SetUser join_room_def Let_def)
  qed
qed

section \<open>Two joins lose a member\<close>

lemma both_move:
  assumes "join_turn s p now a w = (a', w1)" and "join_turn s p now b w1 = (b', w2)"
    and "jn_pc a \<noteq> JoinDone" "jn_pc a \<noteq> JoinFailed" "jn_pc b \<noteq> JoinDone" "jn_pc b \<noteq> JoinFailed"
  shows "run (join_step s) \<lparr>jo_world = w, jo_joiners = [a, b]\<rparr> [(0, now, p), (1, now, p)] \<lparr>jo_world = w2, jo_joiners = [a', b']\<rparr>"
proof -
  have "join_step s \<lparr>jo_world = w, jo_joiners = [a, b]\<rparr> (0, now, p) \<lparr>jo_world = w1, jo_joiners = [a', b]\<rparr>"
    using join_step.intros [of "\<lparr>jo_world = w, jo_joiners = [a, b]\<rparr>" "[]" a "[b]" s p now a' w1] assms(1,3,4) by simp
  moreover have "join_step s \<lparr>jo_world = w1, jo_joiners = [a', b]\<rparr> (1, now, p) \<lparr>jo_world = w2, jo_joiners = [a', b']\<rparr>"
    using join_step.intros [of "\<lparr>jo_world = w1, jo_joiners = [a', b]\<rparr>" "[a']" b "[]" s p now b' w2] assms(2,5,6) by simp
  ultimately show ?thesis by (meson run_Cons run_Nil)
qed

lemma run_trans: "run R x as y \<Longrightarrow> run R y bs z \<Longrightarrow> run R x (as @ bs) z"
  by (auto simp: run_append)

definition user_map :: "User list \<Rightarrow> uuid \<rightharpoonup> User" where
  "user_map us = map_of (map (\<lambda>u. (u_ID u, u)) us)"

context service_env
begin

lemma write_users:
  fixes w n p us u
  assumes "ok_via view invar w" and "n < length (heap w)" and "distinct (map u_ID us)"
  defines "w' \<equiv> update_room n (\<lambda>r. r\<lparr>r_Users := setUser p us u\<rparr>) w"
  shows "ok_via view invar w'"
    and "view (store w) (room_key g r) = Some (AnyRoom n) \<Longrightarrow>
      abs_via view w' = (abs_via view w)\<lparr>rooms := (rooms (abs_via view w))((g, r) \<mapsto> (user_map us)(u_ID u \<mapsto> u))\<rparr>"
    and "\<forall>k. view (store w) k \<noteq> Some (AnyRoom n) \<Longrightarrow> abs_via view w' = abs_via view w"
    and "view (store w') = view (store w)" and "length (heap w') = length (heap w)"
proof -
  let ?r = "(heap w ! n)\<lparr>r_Users := setUser p us u\<rparr>"
  have vals: "vals_ok (view (store w)) (heap w)" and inv: "invar (store w)" using assms(1) by (simp_all add: ok_via_def)
  have w': "w' = w\<lparr>heap := (heap w)[n := ?r]\<rparr>" by (simp add: w'_def update_room_def)
  have "room_ok (heap w ! n)" using vals assms(2) by (simp add: vals_ok_def)
  then have "room_ok ?r" by (simp add: room_ok_def setUser_distinct)
  then have "vals_ok (view (store w)) ((heap w)[n := ?r])"
    by (intro vals_ok_update_room [OF vals assms(2)]) simp_all
  then show "ok_via view invar w'" using inv by (simp add: ok_via_def w')
  show "view (store w') = view (store w)" "length (heap w') = length (heap w)" by (simp_all add: w')
  show "abs_via view w' = (abs_via view w)\<lparr>rooms := (rooms (abs_via view w))((g, r) \<mapsto> (user_map us)(u_ID u \<mapsto> u))\<rparr>"
    if "view (store w) (room_key g r) = Some (AnyRoom n)"
    using abs_update_room [OF vals that, of ?r] map_of_setUser [OF assms(3), of p u]
    by (simp add: abs_via_def w' room_members_def user_map_def)
  show "abs_via view w' = abs_via view w" if "\<forall>k. view (store w) k \<noteq> Some (AnyRoom n)"
  proof -
    have "(heap w)[n := ?r] ! x = heap w ! x" if "view (store w) k = Some (AnyRoom x)" for k x
      using that \<open>\<forall>k. view (store w) k \<noteq> Some (AnyRoom n)\<close> by (metis nth_list_update_neq)
    then show ?thesis by (auto simp: abs_via_def w' abs_of_def fun_eq_iff split: option.splits any.splits)
  qed
qed

lemma add_connection:
  "ok_via view invar w \<Longrightarrow> ok_via view invar (w\<lparr>store := iAddConnection (storage s) now tok (store w)\<rparr>)"
  "abs_via view (w\<lparr>store := iAddConnection (storage s) now tok (store w)\<rparr>) = abs_via view w"
  by (simp_all add: ok_via_def abs_via_def laws)

text \<open>The last three moves of both, from the rooms \<open>m\<close> and \<open>n\<close> they hold.\<close>

lemma last_moves:
  fixes w m n ds1 t1 i1 ds2 t2 i2 and p :: "(uuid \<times> User) range_order" and now :: time
  assumes ok: "ok_via view invar w" and "m < length (heap w)" "n < length (heap w)"
    and "r_Users (heap w ! m) = r_Users (heap w ! n)"
    and n: "view (store w) (GenerateRoomKey i2) = Some (AnyRoom n)" and "m = n \<or> (\<forall>k. view (store w) k \<noteq> Some (AnyRoom m))"
  defines "J \<equiv> \<lambda>w pc1 pc2. \<lparr>jo_world = w, jo_joiners = [\<lparr>jn_ds = ds1, jn_token = t1, jn_info = i1, jn_pc = pc1\<rparr>,
      \<lparr>jn_ds = ds2, jn_token = t2, jn_info = i2, jn_pc = pc2\<rparr>]\<rparr>"
  shows "\<exists>as w'. run (join_step s) (J w (AtRoom m) (AtRoom n)) as (J w' JoinDone JoinDone) \<and> ok_via view invar w' \<and>
    abs_via view w' = (abs_via view w)\<lparr>rooms := (rooms (abs_via view w))(room_of i2 \<mapsto>
      (user_map (r_Users (heap w ! n)))(UserID i2 \<mapsto> \<lparr>u_ID = UserID i2, u_Connection = ds2\<rparr>))\<rparr>"
proof -
  let ?us = "r_Users (heap w ! n)" and ?u1 = "\<lparr>u_ID = UserID i1, u_Connection = ds1\<rparr>" and ?u2 = "\<lparr>u_ID = UserID i2, u_Connection = ds2\<rparr>"
  let ?w1 = "update_room m (\<lambda>r. r\<lparr>r_Users := setUser p ?us ?u1\<rparr>) w"
  let ?w2 = "update_room n (\<lambda>r. r\<lparr>r_Users := setUser p ?us ?u2\<rparr>) ?w1"
  let ?add = "\<lambda>t w. w\<lparr>store := iAddConnection (storage s) now t (store w)\<rparr>"
  have "room_ok (heap w ! n)" using ok assms(3) by (simp add: ok_via_def vals_ok_def)
  then have us: "distinct (map u_ID ?us)" by (simp add: room_ok_def)
  have key: "view (store w) (room_key (GameID i2) (RoomID i2)) = Some (AnyRoom n)" using n by (simp add: GenerateRoomKey_eq)
  note W1 = write_users [OF ok assms(2) us, where p = p and u = ?u1]
  have n1: "n < length (heap ?w1)" using assms(3) W1(5) by simp
  note W2 = write_users [OF W1(1) n1 us, where p = p and u = ?u2]
  have abs1: "rooms (abs_via view ?w1) x = rooms (abs_via view w) x \<or> x = room_of i2" "sessions (abs_via view ?w1) = sessions (abs_via view w)" for x
    using assms(6) W1(3) W1(2) [of "GameID i2" "RoomID i2"] key by (auto simp: room_of_def)
  have abs2: "abs_via view ?w2 = (abs_via view w)\<lparr>rooms := (rooms (abs_via view w))(room_of i2 \<mapsto> (user_map ?us)(UserID i2 \<mapsto> ?u2))\<rparr>"
    using W2(2) [of "GameID i2" "RoomID i2"] key W1(4) abs1
    by (cases "abs_via view ?w1"; cases "abs_via view w") (auto simp: room_of_def fun_eq_iff)
  have "run (join_step s) (J w (AtRoom m) (AtRoom n)) [(0, now, p), (1, now, p)] (J w (UsersRead m ?us) (UsersRead n ?us))"
    unfolding J_def by (rule both_move) (simp_all add: join_turn_eqs assms(4))
  moreover have "run (join_step s) (J w (UsersRead m ?us) (UsersRead n ?us)) [(0, now, p), (1, now, p)] (J ?w2 Joined Joined)"
    unfolding J_def by (rule both_move) (simp_all add: join_turn_eqs)
  moreover have "run (join_step s) (J w Joined Joined) [(0, now, p), (1, now, p)] (J (?add t2 (?add t1 w)) JoinDone JoinDone)" for w
    unfolding J_def by (rule both_move [OF join_turn_eqs(7) join_turn_eqs(7)]) simp_all
  ultimately have "run (join_step s) (J w (AtRoom m) (AtRoom n)) ([(0, now, p), (1, now, p)] @ [(0, now, p), (1, now, p)] @ [(0, now, p), (1, now, p)])
      (J (?add t2 (?add t1 ?w2)) JoinDone JoinDone)"
    by (meson run_trans)
  moreover have "ok_via view invar (?add t2 (?add t1 ?w2))" by (intro add_connection W2(1))
  moreover have "abs_via view (?add t2 (?add t1 ?w2)) = abs_via view ?w2" unfolding add_connection ..
  ultimately show ?thesis using abs2 by (metis (no_types, lifting))
qed

text \<open>Both look for the room before one of them has stored it: they hold the same room or two rooms without users.\<close>

lemma both_at_room:
  fixes w ds1 t1 i1 ds2 t2 i2 and p :: "(uuid \<times> User) range_order" and now :: time
  assumes ok: "ok_via view invar w" and room: "room_of i1 = room_of i2"
  defines "J \<equiv> \<lambda>w pc1 pc2. \<lparr>jo_world = w, jo_joiners = [\<lparr>jn_ds = ds1, jn_token = t1, jn_info = i1, jn_pc = pc1\<rparr>,
      \<lparr>jn_ds = ds2, jn_token = t2, jn_info = i2, jn_pc = pc2\<rparr>]\<rparr>"
  shows "\<exists>as w' m n. run (join_step s) (J w Stored Stored) as (J w' (AtRoom m) (AtRoom n)) \<and> ok_via view invar w' \<and>
    m < length (heap w') \<and> n < length (heap w') \<and> r_Users (heap w' ! m) = r_Users (heap w' ! n) \<and>
    view (store w') (GenerateRoomKey i2) = Some (AnyRoom n) \<and> (m = n \<or> (\<forall>k. view (store w') k \<noteq> Some (AnyRoom m))) \<and>
    sessions (abs_via view w') = sessions (abs_via view w) \<and>
    (\<forall>x. x \<noteq> room_of i2 \<longrightarrow> rooms (abs_via view w') x = rooms (abs_via view w) x) \<and>
    user_map (r_Users (heap w' ! n)) = members_or_empty (abs_via view w) i2"
proof -
  let ?as = "[(0, now, p), (1, now, p)]" and ?key = "GenerateRoomKey i2"
  have key: "GenerateRoomKey i1 = ?key" using room by (simp add: GenerateRoomKey_eq room_of_def)
  obtain w1 where l1: "load s now ?key w = (view (store w) ?key, w1)" "same w w1" by (rule load_cases)
  obtain w2 where l2: "load s now ?key w1 = (view (store w1) ?key, w2)" "same w1 w2" by (rule load_cases)
  have ok2: "ok_via view invar w2" and abs2: "abs_via view w2 = abs_via view w" and v: "view (store w1) = view (store w)" "view (store w2) = view (store w)"
    using same_ok [OF same_trans [OF l1(2) l2(2)] ok] same_abs [OF same_trans [OF l1(2) l2(2)]] l1(2) l2(2) by (simp_all add: same_values_def)
  have none: "rooms (abs_via view w2) (room_of i2) = None \<longleftrightarrow> view (store w) ?key = None"
    using ok2 v(2) by (simp add: abs_via_def ok_via_def room_of_def GenerateRoomKey_eq abs_room_None)
  show ?thesis
  proof (cases "view (store w) ?key")
    case None
    let ?h = "heap w2"
    let ?w3 = "setRoom s now i1 (length ?h) 0 (w2\<lparr>heap := ?h @ [new_Room (GameID i1) (RoomID i1)]\<rparr>)"
    let ?w4 = "setRoom s now i2 (length (heap ?w3)) 0 (?w3\<lparr>heap := heap ?w3 @ [new_Room (GameID i2) (RoomID i2)]\<rparr>)"
    have C1: "ok_via view invar ?w3" "abs_via view ?w3 = spec_create i1 (abs_via view w2)" using create_step [OF ok2, of now i1 0] by simp_all
    have C2: "ok_via view invar ?w4" "abs_via view ?w4 = spec_create i2 (abs_via view ?w3)" using create_step [OF C1(1), of now i2 0] by simp_all
    have a: "load s now (GenerateRoomKey i1) w = (None, w1)" unfolding key using l1(1) unfolding None .
    have b: "load s now ?key w1 = (None, w2)" using l2(1) unfolding v None .
    have "run (join_step s) (J w Stored Stored) (?as @ ?as) (J ?w4 (AtRoom (length ?h)) (AtRoom (length (heap ?w3))))"
      unfolding J_def
      by (rule run_trans [OF both_move [OF join_turn_eqs(2) [OF a] join_turn_eqs(2) [OF b]] both_move [OF join_turn_eqs(4) join_turn_eqs(4)]])
        simp_all
    moreover have "view (store w2) k \<noteq> Some (AnyRoom (length ?h))" for k
      using ok2 by (force simp: ok_via_def vals_ok_def value_ok_def)
    ultimately show ?thesis
      using C2 C1(2) None none
      by (intro exI [of _ "?as @ ?as"] exI [of _ ?w4] exI [of _ "length ?h"] exI [of _ "length (heap ?w3)"])
        (auto simp: abs2 key nth_append new_Room_def spec_create_def room members_or_empty_def user_map_def)
  next
    case (Some x)
    then obtain n where x: "x = AnyRoom n" "n < length (heap w2)"
      using ok2 v(2) vals_ok_room unfolding GenerateRoomKey_eq ok_via_def by metis
    have a: "load s now (GenerateRoomKey i1) w = (Some (AnyRoom n), w1)" unfolding key using l1(1) unfolding Some x(1) .
    have b: "load s now ?key w1 = (Some (AnyRoom n), w2)" using l2(1) unfolding v Some x(1) .
    have "run (join_step s) (J w Stored Stored) ?as (J w2 (AtRoom n) (AtRoom n))"
      unfolding J_def by (rule both_move [OF join_turn_eqs(3) [OF a] join_turn_eqs(3) [OF b]]) simp_all
    moreover have "rooms (abs_via view w2) (room_of i2) = Some (user_map (r_Users (heap w2 ! n)))"
      using Some x v(2) by (simp add: abs_via_def abs_of_def room_of_def GenerateRoomKey_eq room_members_def user_map_def)
    ultimately show ?thesis
      using Some x ok2 v(2) by (intro exI [of _ ?as] exI [of _ w2] exI [of _ n]) (simp add: abs2 members_or_empty_def)
  qed
qed

lemma join_race:
  fixes w ds1 t1 i1 ds2 t2 i2 and p :: "(uuid \<times> User) range_order" and now :: time
  assumes ok: "ok_via view invar w" and room: "room_of i1 = room_of i2"
  shows "\<exists>as J. run (join_step s) \<lparr>jo_world = w, jo_joiners = [new_joiner ds1 t1 i1, new_joiner ds2 t2 i2]\<rparr> as J \<and>
    map jn_pc (jo_joiners J) = [JoinDone, JoinDone] \<and> ok_via view invar (jo_world J) \<and>
    abs_via view (jo_world J) = \<lparr>sessions = (sessions (abs_via view w))(ds1 \<mapsto> i1, ds2 \<mapsto> i2),
      rooms = (rooms (abs_via view w))(room_of i2 \<mapsto>
        (members_or_empty (abs_via view w) i2)(UserID i2 \<mapsto> \<lparr>u_ID = UserID i2, u_Connection = ds2\<rparr>))\<rparr>"
proof -
  define J where "J = (\<lambda>(w :: 'db world) pc1 pc2. \<lparr>jo_world = w, jo_joiners = [\<lparr>jn_ds = ds1, jn_token = t1, jn_info = i1, jn_pc = pc1\<rparr>,
      \<lparr>jn_ds = ds2, jn_token = t2, jn_info = i2, jn_pc = pc2\<rparr>]\<rparr>)"
  let ?w1 = "w\<lparr>store := iSetData (storage s) now (GetID ds1) (AnyInfo i1) (store w)\<rparr>"
  let ?w2 = "?w1\<lparr>store := iSetData (storage s) now (GetID ds2) (AnyInfo i2) (store ?w1)\<rparr>"
  have ok2: "ok_via view invar ?w2" and abs2: "abs_via view ?w2 = (abs_via view w)\<lparr>sessions := (sessions (abs_via view w))(ds1 \<mapsto> i1, ds2 \<mapsto> i2)\<rparr>"
    using session_step [OF ok, of now ds1 i1] session_step [of ?w1 now ds2 i2] by simp_all
  have start: "run (join_step s) \<lparr>jo_world = w, jo_joiners = [new_joiner ds1 t1 i1, new_joiner ds2 t2 i2]\<rparr>
      [(0, now, p), (1, now, p)] (J ?w2 Stored Stored)"
    unfolding J_def new_joiner_def by (rule both_move [OF join_turn_eqs(1) join_turn_eqs(1)]) simp_all
  obtain as w' m n where R: "run (join_step s) (J ?w2 Stored Stored) as (J w' (AtRoom m) (AtRoom n))"
    and W: "ok_via view invar w'" "m < length (heap w')" "n < length (heap w')" "r_Users (heap w' ! m) = r_Users (heap w' ! n)"
      "view (store w') (GenerateRoomKey i2) = Some (AnyRoom n)" "m = n \<or> (\<forall>k. view (store w') k \<noteq> Some (AnyRoom m))"
    and abs': "sessions (abs_via view w') = sessions (abs_via view ?w2)" "\<forall>x. x \<noteq> room_of i2 \<longrightarrow> rooms (abs_via view w') x = rooms (abs_via view ?w2) x"
      "user_map (r_Users (heap w' ! n)) = members_or_empty (abs_via view ?w2) i2"
    using both_at_room [OF ok2 room, of ds1 t1 ds2 t2] unfolding J_def by blast
  obtain bs w'' where E: "run (join_step s) (J w' (AtRoom m) (AtRoom n)) bs (J w'' JoinDone JoinDone)" "ok_via view invar w''"
      "abs_via view w'' = (abs_via view w')\<lparr>rooms := (rooms (abs_via view w'))(room_of i2 \<mapsto>
        (user_map (r_Users (heap w' ! n)))(UserID i2 \<mapsto> \<lparr>u_ID = UserID i2, u_Connection = ds2\<rparr>))\<rparr>"
    using last_moves [OF W] unfolding J_def by blast
  have "abs_via view w'' = \<lparr>sessions = (sessions (abs_via view w))(ds1 \<mapsto> i1, ds2 \<mapsto> i2), rooms = (rooms (abs_via view w))(room_of i2 \<mapsto>
        (members_or_empty (abs_via view w) i2)(UserID i2 \<mapsto> \<lparr>u_ID = UserID i2, u_Connection = ds2\<rparr>))\<rparr>"
    unfolding E(3) abs'(3) using abs'(1,2) abs2 by (cases "abs_via view w'") (auto simp: members_or_empty_def fun_eq_iff)
  with run_trans [OF start run_trans [OF R E(1)]] E(2) show ?thesis
    by (intro exI conjI) (assumption, simp_all add: J_def)
qed

end

text \<open>C14: Concurrent joins lose a member. Whenever two clients with different addresses and user ids join the same room, whether it
  exists or not, there is an interleaving of the two calls of \<^verbatim>\<open>setNewUser\<close> after which both have returned without an error and both
  have a session in the room, but the first is not a member unless it already was: it gets none of the messages of the
  room.
\<close>

theorem concurrent_joins_lose_member:
  assumes "world_ok w" and "room_of i1 = room_of i2" and "UserID i1 \<noteq> UserID i2" and "ds1 \<noteq> ds2"
    and "UserID i1 \<notin> dom (members_or_empty (abs_world w) i2)"
  shows "\<exists>as J mem. run (join_step (mem_service parse cpus ram))
      \<lparr>jo_world = w, jo_joiners = [new_joiner ds1 t1 i1, new_joiner ds2 t2 i2]\<rparr> as J \<and>
    map jn_pc (jo_joiners J) = [JoinDone, JoinDone] \<and> world_ok (jo_world J) \<and>
    spec_session (abs_world (jo_world J)) ds1 = Inr (i1, mem) \<and> spec_session (abs_world (jo_world J)) ds2 = Inr (i2, mem) \<and>
    UserID i2 \<in> dom mem \<and> UserID i1 \<notin> dom mem"
proof -
  let ?mem = "(members_or_empty (abs_world w) i2)(UserID i2 \<mapsto> \<lparr>u_ID = UserID i2, u_Connection = ds2\<rparr>)"
  have "\<exists>as J. run (join_step (mem_service parse cpus ram))
      \<lparr>jo_world = w, jo_joiners = [new_joiner ds1 t1 i1, new_joiner ds2 t2 i2]\<rparr> as J \<and>
    map jn_pc (jo_joiners J) = [JoinDone, JoinDone] \<and> world_ok (jo_world J) \<and>
    abs_world (jo_world J) = \<lparr>sessions = (sessions (abs_world w))(ds1 \<mapsto> i1, ds2 \<mapsto> i2),
      rooms = (rooms (abs_world w))(room_of i2 \<mapsto> ?mem)\<rparr>"
    using sv.join_race [OF assms(1) [unfolded world_ok_def] assms(2)] unfolding world_defs .
  then obtain as J where J: "run (join_step (mem_service parse cpus ram))
        \<lparr>jo_world = w, jo_joiners = [new_joiner ds1 t1 i1, new_joiner ds2 t2 i2]\<rparr> as J"
      "map jn_pc (jo_joiners J) = [JoinDone, JoinDone]" "world_ok (jo_world J)"
      "abs_world (jo_world J) = \<lparr>sessions = (sessions (abs_world w))(ds1 \<mapsto> i1, ds2 \<mapsto> i2),
        rooms = (rooms (abs_world w))(room_of i2 \<mapsto> ?mem)\<rparr>" by (elim exE conjE)
  then have "spec_session (abs_world (jo_world J)) ds1 = Inr (i1, ?mem)" "spec_session (abs_world (jo_world J)) ds2 = Inr (i2, ?mem)"
    using assms(2,4) by simp_all
  with J assms(3,5) show ?thesis by (intro exI [of _ as] exI [of _ J] exI [of _ ?mem]) simp
qed

theorem concurrent_joins_lose_member_witness:
  "\<exists>as J mem. run (join_step (mem_service ex_parse 4 0))
      \<lparr>jo_world = new_world 10, jo_joiners = [new_joiner (ex_addr 1) ''alice'' (ex_info 7), new_joiner (ex_addr 2) ''bob'' (ex_info 8)]\<rparr> as J \<and>
     spec_session (abs_world (jo_world J)) (ex_addr 1) = Inr (ex_info 7, mem) \<and> 7 \<notin> dom mem \<and> 8 \<in> dom mem"
proof -
  have "room_of (ex_info 7) = room_of (ex_info 8)" "UserID (ex_info 7) \<noteq> UserID (ex_info 8)" "ex_addr 1 \<noteq> ex_addr 2"
    "UserID (ex_info 7) \<notin> dom (members_or_empty (abs_world (new_world 10)) (ex_info 8))"
    by (simp_all add: room_of_def ex_info_def ex_addr_def abs_new_world members_or_empty_def)
  from concurrent_joins_lose_member [OF new_world_ok this, of ex_parse 4 0 "''alice''" "''bob''"] show ?thesis
    by (simp only: ex_info_def Info.select_convs) blast
qed

section \<open>What every interleaving keeps\<close>

text \<open>
  The users that may be in the room \<open>n\<close> of the heap: those it had before, and those of the joins \<open>S\<close> for its game and room.
\<close>

definition joining :: "(UDPConnection \<times> Info) set \<Rightarrow> uuid \<times> uuid \<Rightarrow> User set" where
  "joining S gr = {\<lparr>u_ID = UserID i, u_Connection = ds\<rparr> | ds i. (ds, i) \<in> S \<and> room_of i = gr}"

definition ids_of :: "Room \<Rightarrow> uuid \<times> uuid" where
  "ids_of r = (r_GameID r, r_RoomID r)"

definition may_hold :: "(UDPConnection \<times> Info) set \<Rightarrow> Room list \<Rightarrow> nat \<Rightarrow> Room \<Rightarrow> User set" where
  "may_hold S h0 n r = (if n < length h0 then set (r_Users (h0 ! n)) else {}) \<union> joining S (ids_of r)"

definition heap_ok :: "(UDPConnection \<times> Info) set \<Rightarrow> Room list \<Rightarrow> Room list \<Rightarrow> bool" where
  "heap_ok S h0 h \<longleftrightarrow> length h0 \<le> length h \<and> (\<forall>n < length h0. ids_of (h ! n) = ids_of (h0 ! n)) \<and>
     (\<forall>n < length h. set (r_Users (h ! n)) \<subseteq> may_hold S h0 n (h ! n))"

definition joiner_ok ::
    "('db \<Rightarrow> string \<rightharpoonup> any) \<Rightarrow> (UDPConnection \<times> Info) set \<Rightarrow> Room list \<Rightarrow> 'db world \<Rightarrow> joiner \<Rightarrow> bool" where
  "joiner_ok view S h0 w j \<longleftrightarrow> (jn_ds j, jn_info j) \<in> S \<and>
     (jn_pc j \<noteq> Parsed \<longrightarrow> view (store w) (GetID (jn_ds j)) = Some (AnyInfo (jn_info j))) \<and>
     (case jn_pc j of
        AtRoom n \<Rightarrow> n < length (heap w) \<and> ids_of (heap w ! n) = room_of (jn_info j)
      | UsersRead n us \<Rightarrow> n < length (heap w) \<and> ids_of (heap w ! n) = room_of (jn_info j) \<and> distinct (map u_ID us) \<and>
          set us \<subseteq> may_hold S h0 n (heap w ! n)
      | JoinFailed \<Rightarrow> False
      | _ \<Rightarrow> True)"

definition pointers_ok :: "('db \<Rightarrow> string \<rightharpoonup> any) \<Rightarrow> 'db world \<Rightarrow> 'db world \<Rightarrow> bool" where
  "pointers_ok view w0 w \<longleftrightarrow>
     (\<forall>k n. view (store w) k = Some (AnyRoom n) \<longrightarrow> n < length (heap w0) \<longrightarrow> view (store w0) k = Some (AnyRoom n))"

definition world_joins ::
    "('db \<Rightarrow> string \<rightharpoonup> any) \<Rightarrow> ('db \<Rightarrow> bool) \<Rightarrow> (UDPConnection \<times> Info) set \<Rightarrow> 'db world \<Rightarrow> 'db world \<Rightarrow> bool" where
  "world_joins view invar S w0 w \<longleftrightarrow> ok_via view invar w \<and> heap_ok S (heap w0) (heap w) \<and> pointers_ok view w0 w"

lemma set_setUser: "set (setUser p us u) \<subseteq> insert u (set us)"
proof -
  have "snd ` set (unique_users us m) \<subseteq> set us \<union> snd ` set m" for m
    by (induction us arbitrary: m) (auto dest!: in_set_update, force dest!: in_set_update)
  from this [of "[]"] show ?thesis by (auto simp: setUser_def dest!: in_set_update)
qed

lemma may_hold_cong: "ids_of r = ids_of r' \<Longrightarrow> may_hold S h0 n r = may_hold S h0 n r'"
  by (simp add: may_hold_def)

lemma joiner_keeps:
  assumes "joiner_ok view S h0 w k" and "view (store w') (GetID (jn_ds k)) = view (store w) (GetID (jn_ds k))"
    and "length (heap w) \<le> length (heap w')" and "\<forall>n < length (heap w). ids_of (heap w' ! n) = ids_of (heap w ! n)"
  shows "joiner_ok view S h0 w' k"
proof -
  have "may_hold S h0 n (heap w' ! n) = may_hold S h0 n (heap w ! n)" if "n < length (heap w)" for n
    using assms(4) that by (intro may_hold_cong) simp
  then show ?thesis using assms by (auto simp: joiner_ok_def split: join_pc.splits)
qed

lemma heap_ok_alloc: "heap_ok S h0 h \<Longrightarrow> heap_ok S h0 (h @ [new_Room g r])"
  by (auto simp: heap_ok_def nth_append new_Room_def less_Suc_eq)

lemma heap_ok_write:
  assumes "heap_ok S h0 h" and "n < length h" and "set us \<subseteq> may_hold S h0 n (h ! n)"
  shows "heap_ok S h0 (h[n := (h ! n)\<lparr>r_Users := us\<rparr>])"
proof -
  have "may_hold S h0 n ((h ! n)\<lparr>r_Users := us\<rparr>) = may_hold S h0 n (h ! n)" by (rule may_hold_cong) (simp add: ids_of_def)
  with assms show ?thesis by (auto simp: heap_ok_def nth_list_update ids_of_def)
qed

definition joins_ok ::
    "('db \<Rightarrow> string \<rightharpoonup> any) \<Rightarrow> ('db \<Rightarrow> bool) \<Rightarrow> (UDPConnection \<times> Info) set \<Rightarrow> 'db world \<Rightarrow> 'db joins \<Rightarrow> bool" where
  "joins_ok view invar S w0 J \<longleftrightarrow> world_joins view invar S w0 (jo_world J) \<and> distinct (map jn_ds (jo_joiners J)) \<and>
     (\<forall>j \<in> set (jo_joiners J). joiner_ok view S (heap w0) (jo_world J) j)"

definition start_joins :: "(UDPConnection \<times> Info) list \<Rightarrow> string list \<Rightarrow> joiner list" where
  "start_joins js ts = map (\<lambda>((ds, i), t). new_joiner ds t i) (zip js ts)"

lemma join_turn_ids: "join_turn s p now j w = (j', w') \<Longrightarrow> jn_ds j' = jn_ds j \<and> jn_info j' = jn_info j"
  by (auto simp: join_turn_def Let_def split: join_pc.splits prod.splits option.splits any.splits)

text \<open>What a turn of the join \<open>j\<close> keeps: the invariants, the rows of other keys and what the rooms of the heap are.\<close>

definition turn_ok ::
    "('db \<Rightarrow> string \<rightharpoonup> any) \<Rightarrow> ('db \<Rightarrow> bool) \<Rightarrow> (UDPConnection \<times> Info) set \<Rightarrow> 'db world \<Rightarrow> joiner \<Rightarrow> 'db world \<Rightarrow> joiner \<times> 'db world \<Rightarrow> bool" where
  "turn_ok view invar S w0 j w jw \<longleftrightarrow> (case jw of (j', w') \<Rightarrow>
     world_joins view invar S w0 w' \<and> joiner_ok view S (heap w0) w' j' \<and>
     (\<forall>k. k \<noteq> GetID (jn_ds j) \<longrightarrow> k \<noteq> GenerateRoomKey (jn_info j) \<longrightarrow> view (store w') k = view (store w) k) \<and>
     length (heap w) \<le> length (heap w') \<and> (\<forall>n < length (heap w). ids_of (heap w' ! n) = ids_of (heap w ! n)))"

context service_env
begin

lemma lookup_turn_ok:
  assumes "world_joins view invar S w0 w" and "joiner_ok view S (heap w0) w j" and "jn_pc j = Stored"
  shows "turn_ok view invar S w0 j w (join_turn s p now j w)"
proof -
  obtain ds tok i where j: "j = \<lparr>jn_ds = ds, jn_token = tok, jn_info = i, jn_pc = Stored\<rparr>" using assms(3) by (cases j) simp
  have W: "ok_via view invar w" "heap_ok S (heap w0) (heap w)" "pointers_ok view w0 w" using assms(1) by (simp_all add: world_joins_def)
  obtain w1 where l: "load s now (GenerateRoomKey i) w = (view (store w) (GenerateRoomKey i), w1)" "same w w1" by (rule load_cases)
  have w1: "world_joins view invar S w0 w1" "view (store w1) = view (store w)" "heap w1 = heap w"
    using same_ok [OF l(2) W(1)] l(2) W(2,3) by (simp_all add: same_values_def world_joins_def pointers_ok_def)
  show ?thesis
  proof (cases "view (store w) (GenerateRoomKey i)")
    case None
    then have "load s now (GenerateRoomKey i) w = (None, w1)" using l(1) by simp
    then show ?thesis using w1 assms(2) by (simp add: j join_turn_eqs turn_ok_def joiner_ok_def)
  next
    case (Some v)
    obtain n where n: "v = AnyRoom n" "n < length (heap w)" "ids_of (heap w ! n) = room_of i"
      using vals_ok_room [of "view (store w)" "heap w" "GameID i" "RoomID i" v] Some W(1)
      by (auto simp: GenerateRoomKey_eq ids_of_def room_of_def ok_via_def)
    then have "load s now (GenerateRoomKey i) w = (Some (AnyRoom n), w1)" using l(1) Some by simp
    then show ?thesis using w1 assms(2) n by (simp add: j join_turn_eqs turn_ok_def joiner_ok_def)
  qed
qed

lemma create_turn_ok:
  assumes "world_joins view invar S w0 w" and "joiner_ok view S (heap w0) w j" and "jn_pc j = Missing"
  shows "turn_ok view invar S w0 j w (join_turn s p now j w)"
proof -
  obtain ds tok i where j: "j = \<lparr>jn_ds = ds, jn_token = tok, jn_info = i, jn_pc = Missing\<rparr>" using assms(3) by (cases j) simp
  have W: "ok_via view invar w" "heap_ok S (heap w0) (heap w)" "pointers_ok view w0 w" using assms(1) by (simp_all add: world_joins_def)
  let ?w1 = "setRoom s now i (length (heap w)) 0 (w\<lparr>heap := heap w @ [new_Room (GameID i) (RoomID i)]\<rparr>)"
  have "ok_via view invar ?w1" using create_step [OF W(1), of now i 0] by simp
  moreover have "pointers_ok view w0 ?w1" using W by (auto simp: pointers_ok_def heap_ok_def split: if_splits)
  ultimately show ?thesis
    using assms(2) heap_ok_alloc [OF W(2)]
    by (auto simp: j join_turn_eqs turn_ok_def world_joins_def joiner_ok_def nth_append ids_of_def room_of_def new_Room_def GenerateRoomKey_eq)
qed

lemma write_turn_ok:
  assumes "world_joins view invar S w0 w" and "joiner_ok view S (heap w0) w j" and "jn_pc j = UsersRead n us"
  shows "turn_ok view invar S w0 j w (join_turn s p now j w)"
proof -
  obtain ds tok i where j: "j = \<lparr>jn_ds = ds, jn_token = tok, jn_info = i, jn_pc = UsersRead n us\<rparr>" using assms(3) by (cases j) simp
  have W: "ok_via view invar w" "heap_ok S (heap w0) (heap w)" "pointers_ok view w0 w" using assms(1) by (simp_all add: world_joins_def)
  let ?u = "\<lparr>u_ID = UserID i, u_Connection = ds\<rparr>"
  let ?w1 = "update_room n (\<lambda>r. r\<lparr>r_Users := setUser p us ?u\<rparr>) w"
  have J: "(ds, i) \<in> S" "n < length (heap w)" "ids_of (heap w ! n) = room_of i" "distinct (map u_ID us)"
      "set us \<subseteq> may_hold S (heap w0) n (heap w ! n)" "view (store w) (GetID ds) = Some (AnyInfo i)"
    using assms(2) by (simp_all add: j joiner_ok_def)
  have "?u \<in> may_hold S (heap w0) n (heap w ! n)" using J(1,3) by (auto simp: may_hold_def joining_def)
  then have "set (setUser p us ?u) \<subseteq> may_hold S (heap w0) n (heap w ! n)" using set_setUser [of p us ?u] J(5) by blast
  from heap_ok_write [OF W(2) J(2) this] have "heap_ok S (heap w0) (heap ?w1)" by (simp add: update_room_def)
  moreover have "ok_via view invar ?w1" by (rule write_users(1) [OF W(1) J(2,4)])
  moreover have "ids_of (heap ?w1 ! m) = ids_of (heap w ! m)" for m
    using J(2) by (cases "m = n") (simp_all add: update_room_def ids_of_def)
  ultimately show ?thesis
    using W(3) J by (auto simp: j join_turn_eqs turn_ok_def world_joins_def joiner_ok_def pointers_ok_def update_room_def)
qed

lemma turn_keeps:
  assumes "world_joins view invar S w0 w" and "joiner_ok view S (heap w0) w j"
  shows "turn_ok view invar S w0 j w (join_turn s p now j w)"
proof -
  obtain ds tok i pc where j: "j = \<lparr>jn_ds = ds, jn_token = tok, jn_info = i, jn_pc = pc\<rparr>" by (cases j)
  have W: "ok_via view invar w" "heap_ok S (heap w0) (heap w)" "pointers_ok view w0 w" using assms(1) by (simp_all add: world_joins_def)
  note defs = j join_turn_eqs turn_ok_def world_joins_def pointers_ok_def joiner_ok_def laws
  show ?thesis
  proof (cases pc)
    case Parsed
    then show ?thesis using session_step(1) [OF W(1), of now ds i] W(2,3) assms(2) by (auto simp: defs)
  next
    case Stored
    with assms show ?thesis by (intro lookup_turn_ok) (simp_all add: j)
  next
    case Missing
    with assms show ?thesis by (intro create_turn_ok) (simp_all add: j)
  next
    case (AtRoom n)
    with assms(2) have "n < length (heap w)" by (simp add: j joiner_ok_def)
    then have "room_ok (heap w ! n)" "set (r_Users (heap w ! n)) \<subseteq> may_hold S (heap w0) n (heap w ! n)"
      using W(1,2) by (simp_all add: ok_via_def vals_ok_def heap_ok_def)
    then show ?thesis using assms AtRoom by (simp add: j join_turn_eqs turn_ok_def joiner_ok_def room_ok_def)
  next
    case (UsersRead n us)
    with assms show ?thesis by (intro write_turn_ok) (simp_all add: j)
  next
    case Joined
    then show ?thesis using add_connection(1) [OF W(1), of now tok] W(2,3) assms(2) by (simp add: defs)
  next
    case JoinDone
    then show ?thesis using assms by (simp add: j join_turn_eqs turn_ok_def)
  next
    case JoinFailed
    then show ?thesis using assms(2) by (simp add: j joiner_ok_def)
  qed
qed

text \<open>The invariant of all joins in progress; their addresses are different, so no turn writes the session of another.\<close>

lemma step_keeps:
  assumes "join_step s J a J'" and "joins_ok view invar S w0 J"
  shows "joins_ok view invar S w0 J'"
  using assms(1)
proof cases
  case (1 us j vs p now j' w')
  have J: "world_joins view invar S w0 (jo_world J)" "\<forall>k \<in> set (us @ j # vs). joiner_ok view S (heap w0) (jo_world J) k"
      "distinct (map jn_ds (us @ j # vs))"
    using assms(2) 1(3) by (simp_all add: joins_ok_def)
  have T: "world_joins view invar S w0 w'" "joiner_ok view S (heap w0) w' j'"
      "\<forall>k. k \<noteq> GetID (jn_ds j) \<longrightarrow> k \<noteq> GenerateRoomKey (jn_info j) \<longrightarrow> view (store w') k = view (store (jo_world J)) k"
      "length (heap (jo_world J)) \<le> length (heap w')"
      "\<forall>n < length (heap (jo_world J)). ids_of (heap w' ! n) = ids_of (heap (jo_world J) ! n)"
    using turn_keeps [OF J(1), of j p now] J(2) by (simp_all add: turn_ok_def 1(6))
  have "joiner_ok view S (heap w0) w' k" if k: "k \<in> set us \<union> set vs" for k
  proof -
    have "jn_ds k \<noteq> jn_ds j" using J(3) k by (force simp: image_iff)
    then have "view (store w') (GetID (jn_ds k)) = view (store (jo_world J)) (GetID (jn_ds k))" using T(3) by (simp add: GenerateRoomKey_eq)
    moreover have "joiner_ok view S (heap w0) (jo_world J) k" using J(2) k by simp
    ultimately show ?thesis using T(4,5) by (metis joiner_keeps)
  qed
  with T(1,2) J(3) join_turn_ids [OF 1(6)] show ?thesis by (auto simp: 1(2) joins_ok_def)
qed

lemma joins_keep: "run (join_step s) J as J' \<Longrightarrow> joins_ok view invar S w0 J \<Longrightarrow> joins_ok view invar S w0 J'"
  by (induction rule: run.induct) (blast intro: step_keeps)+

lemma joins_ok_start:
  assumes "ok_via view invar w" and "distinct (map fst js)" and "length ts = length js"
  shows "joins_ok view invar (set js) w \<lparr>jo_world = w, jo_joiners = start_joins js ts\<rparr>"
proof -
  have "jn_pc j = Parsed \<and> (jn_ds j, jn_info j) \<in> set js" if "j \<in> set (start_joins js ts)" for j
    using that assms(3) by (auto simp: start_joins_def new_joiner_def set_zip)
  moreover have "map jn_ds (start_joins js ts) = map fst js"
    using assms(3) by (auto simp: start_joins_def new_joiner_def list_eq_iff_nth_eq split: prod.splits)
  moreover have "world_joins view invar (set js) w w"
    using assms(1) by (simp add: world_joins_def heap_ok_def pointers_ok_def may_hold_def)
  ultimately show ?thesis
    using assms(2) by (simp add: joins_ok_def joiner_ok_def)
qed

lemma joins_ok_members:
  assumes "joins_ok view invar S w J" and "ok_via view invar w" and m: "rooms (abs_via view (jo_world J)) gr = Some m"
  shows "ran m \<subseteq> (case rooms (abs_via view w) gr of None \<Rightarrow> {} | Some m0 \<Rightarrow> ran m0) \<union> joining S gr"
proof -
  obtain g r where gr: "gr = (g, r)" by force
  let ?w = "jo_world J"
  have J: "ok_via view invar ?w" "heap_ok S (heap w) (heap ?w)" "pointers_ok view w ?w"
    using assms(1) by (simp_all add: joins_ok_def world_joins_def)
  then have vals: "vals_ok (view (store ?w)) (heap ?w)" by (simp add: ok_via_def)
  from m obtain n where n: "view (store ?w) (room_key g r) = Some (AnyRoom n)" and m': "m = room_members (heap ?w ! n)"
    by (auto simp: gr abs_via_def abs_of_def split: option.splits any.splits)
  from vals_ok_room [OF vals n] have lt: "n < length (heap ?w)" and ids: "ids_of (heap ?w ! n) = gr"
    by (auto simp: gr ids_of_def)
  have "ran m = set (r_Users (heap ?w ! n))"
    using vals lt unfolding m' by (intro set_users_members [symmetric]) (simp add: vals_ok_def)
  then have sub: "ran m \<subseteq> may_hold S (heap w) n (heap ?w ! n)" using J(2) lt by (simp add: heap_ok_def)
  show ?thesis
  proof (cases "n < length (heap w)")
    case True
    then have "rooms (abs_via view w) gr = Some (room_members (heap w ! n))"
      using J(3) n by (auto simp: gr abs_via_def pointers_ok_def intro: abs_room_Some)
    moreover have "set (r_Users (heap w ! n)) = ran (room_members (heap w ! n))"
      using assms(2) True by (intro set_users_members) (simp add: ok_via_def vals_ok_def)
    ultimately show ?thesis using sub True by (simp add: may_hold_def ids)
  next
    case False
    then show ?thesis using sub by (auto simp: may_hold_def ids)
  qed
qed

lemma joins_ok_session:
  "joins_ok view invar S w J \<Longrightarrow> j \<in> set (jo_joiners J) \<Longrightarrow>
   jn_pc j \<noteq> JoinFailed \<and> (jn_pc j \<noteq> Parsed \<longrightarrow> sessions (abs_via view (jo_world J)) (jn_ds j) = Some (jn_info j))"
  by (force simp: joins_ok_def joiner_ok_def abs_via_def abs_of_def)

end

text \<open>How many turns a join has left at most, and that a join that has not returned can move.\<close>

fun turns_left :: "join_pc \<Rightarrow> nat" where
  "turns_left Parsed = 6"
| "turns_left Stored = 5"
| "turns_left Missing = 4"
| "turns_left (AtRoom n) = 3"
| "turns_left (UsersRead n us) = 2"
| "turns_left Joined = 1"
| "turns_left JoinDone = 0"
| "turns_left JoinFailed = 0"

definition all_turns_left :: "'db joins \<Rightarrow> nat" where
  "all_turns_left J = sum_list (map (\<lambda>j. turns_left (jn_pc j)) (jo_joiners J))"

lemma turn_decreases:
  "join_turn s p now j w = (j', w') \<Longrightarrow> jn_pc j \<noteq> JoinDone \<Longrightarrow> jn_pc j \<noteq> JoinFailed \<Longrightarrow> turns_left (jn_pc j') < turns_left (jn_pc j)"
  by (auto simp: join_turn_def Let_def split: join_pc.splits prod.splits option.splits any.splits)

lemma join_step_decreases: "join_step s J a J' \<Longrightarrow> all_turns_left J' < all_turns_left J"
  by (induction rule: join_step.induct) (auto simp: all_turns_left_def dest: turn_decreases)

lemma join_run_bound: "run (join_step s) J as J' \<Longrightarrow> length as + all_turns_left J' \<le> all_turns_left J"
  by (induction rule: run.induct) (auto dest: join_step_decreases)

lemma all_turns_left_start: "length ts = length js \<Longrightarrow> all_turns_left \<lparr>jo_world = w, jo_joiners = start_joins js ts\<rparr> = 6 * length js"
  by (simp add: all_turns_left_def start_joins_def new_joiner_def split_beta comp_def sum_list_triv)

lemma join_can_move:
  assumes "j \<in> set (jo_joiners J)" and "jn_pc j \<noteq> JoinDone" and "jn_pc j \<noteq> JoinFailed"
  shows "\<exists>a J'. join_step s J a J'"
proof -
  obtain us vs where "jo_joiners J = us @ j # vs" using assms(1) by (meson split_list)
  then show ?thesis using assms(2,3) by (meson join_step.intros surj_pair)
qed

text \<open>C13: What every interleaving of joins keeps. Any number of clients with different addresses join at the same time: at
  every moment the world is consistent and no join has failed, each that has stored its session has it with the
  information of its token, and every member of a room was a member before or is one of the clients that join this room, with
  its own address. At most six turns per join happen, and as long as a join has not returned one can happen, so that
  every fair interleaving ends with all of them returned without an error.
\<close>

theorem concurrent_joins_safe:
  assumes "world_ok w" and "distinct (map fst js)" and "length ts = length js"
    and "run (join_step (mem_service parse cpus ram)) \<lparr>jo_world = w, jo_joiners = start_joins js ts\<rparr> as J"
  shows "world_ok (jo_world J) \<and>
    (\<forall>j \<in> set (jo_joiners J). jn_pc j \<noteq> JoinFailed \<and> (jn_pc j \<noteq> Parsed \<longrightarrow> sessions (abs_world (jo_world J)) (jn_ds j) = Some (jn_info j))) \<and>
    (\<forall>gr m. rooms (abs_world (jo_world J)) gr = Some m \<longrightarrow>
      ran m \<subseteq> (case rooms (abs_world w) gr of None \<Rightarrow> {} | Some m0 \<Rightarrow> ran m0) \<union> joining (set js) gr) \<and>
    length as \<le> 6 * length js \<and>
    ((\<forall>j \<in> set (jo_joiners J). jn_pc j = JoinDone) \<or> (\<exists>a J'. join_step (mem_service parse cpus ram) J a J'))"
proof -
  have w: "ok_via look db_ok w" using assms(1) by (simp add: world_ok_def)
  have ok: "joins_ok look db_ok (set js) w J" by (rule sv.joins_keep [OF assms(4) sv.joins_ok_start [OF w assms(2,3)]])
  then have "world_ok (jo_world J)" by (simp add: joins_ok_def world_joins_def world_ok_def)
  moreover note no_fail = sv.joins_ok_session [OF ok, folded abs_world_def]
  moreover note sv.joins_ok_members [OF ok w, folded abs_world_def]
  moreover have "length as \<le> 6 * length js" using join_run_bound [OF assms(4)] all_turns_left_start [OF assms(3), of w] by simp
  moreover have "(\<forall>j \<in> set (jo_joiners J). jn_pc j = JoinDone) \<or> (\<exists>a J'. join_step (mem_service parse cpus ram) J a J')"
    using no_fail join_can_move by blast
  ultimately show ?thesis by blast
qed

theorem concurrent_joins_safe_witness:
  "\<exists>as J. run (join_step (mem_service ex_parse 4 0))
      \<lparr>jo_world = new_world 10, jo_joiners = start_joins [(ex_addr 1, ex_info 7), (ex_addr 2, ex_info 8)] [''alice'', ''bob'']\<rparr> as J \<and>
    map jn_pc (jo_joiners J) = [Stored, Stored] \<and> sessions (abs_world (jo_world J)) (ex_addr 1) = Some (ex_info 7) \<and>
    sessions (abs_world (jo_world J)) (ex_addr 2) = Some (ex_info 8) \<and> (\<exists>a J'. join_step (mem_service ex_parse 4 0) J a J')"
proof -
  let ?J = "\<lparr>jo_world = new_world 10, jo_joiners = start_joins [(ex_addr 1, ex_info 7), (ex_addr 2, ex_info 8)] [''alice'', ''bob'']\<rparr>"
  have start: "start_joins [(ex_addr 1, ex_info 7), (ex_addr 2, ex_info 8)] [''alice'', ''bob''] =
      [\<lparr>jn_ds = ex_addr 1, jn_token = ''alice'', jn_info = ex_info 7, jn_pc = Parsed\<rparr>,
       \<lparr>jn_ds = ex_addr 2, jn_token = ''bob'', jn_info = ex_info 8, jn_pc = Parsed\<rparr>]"
    by (simp add: start_joins_def new_joiner_def)
  have "\<exists>J. run (join_step (mem_service ex_parse 4 0)) ?J [(0, 0, insertion_order), (1, 0, insertion_order)] J \<and> map jn_pc (jo_joiners J) = [Stored, Stored] \<and>
      map jn_ds (jo_joiners J) = [ex_addr 1, ex_addr 2] \<and> map jn_info (jo_joiners J) = [ex_info 7, ex_info 8]"
    unfolding start by (intro exI conjI, rule both_move [OF join_turn_eqs(1) join_turn_eqs(1)]) (simp_all only: join_pc.distinct joiner.simps joins.simps list.map not_False_eq_True)
  then obtain J where J: "run (join_step (mem_service ex_parse 4 0)) ?J [(0, 0, insertion_order), (1, 0, insertion_order)] J" "map jn_pc (jo_joiners J) = [Stored, Stored]"
      "map jn_ds (jo_joiners J) = [ex_addr 1, ex_addr 2]" "map jn_info (jo_joiners J) = [ex_info 7, ex_info 8]"
    by (elim exE conjE)
  have "distinct (map fst [(ex_addr 1, ex_info 7), (ex_addr 2, ex_info 8)])" by (simp add: ex_addr_def)
  note safe = concurrent_joins_safe [OF new_world_ok this _ J(1)]
  from J(2-4) have "\<exists>a b. jo_joiners J = [a, b] \<and> jn_pc a = Stored \<and> jn_pc b = Stored \<and> jn_ds a = ex_addr 1 \<and> jn_ds b = ex_addr 2 \<and>
      jn_info a = ex_info 7 \<and> jn_info b = ex_info 8"
    by (auto simp: map_eq_Cons_conv)
  then obtain a b where ab: "jo_joiners J = [a, b]" "jn_pc a = Stored" "jn_pc b = Stored" "jn_ds a = ex_addr 1" "jn_ds b = ex_addr 2"
      "jn_info a = ex_info 7" "jn_info b = ex_info 8"
    by (elim exE conjE)
  have "sessions (abs_world (jo_world J)) (ex_addr 1) = Some (ex_info 7) \<and> sessions (abs_world (jo_world J)) (ex_addr 2) = Some (ex_info 8) \<and>
      (\<exists>a J'. join_step (mem_service ex_parse 4 0) J a J')"
    using safe ab by simp
  from conjI [OF J(1) conjI [OF J(2) this]] show ?thesis by (intro exI)
qed

end
