(* ===== verification/CreateRace.thy ===== *)
theory CreateRace
  imports JoinRace
begin

text \<open>
  Clients of the HTTP service that create rooms at the same time. \<^verbatim>\<open>CreateRoom\<close> looks the room up and then stores it, each an
  atomic operation of the database, without a lock around both. Here it is split at these two accesses, and any number of
  calls interleave, as the goroutines of one batch or of several requests do; in the last section a client joins in between.
\<close>

section \<open>A call in steps\<close>

text \<open>Where a call is after its token was parsed: at the lookup, past it with no room found, or returned.\<close>

datatype create_pc = Lookup | Absent | Created | Refused

record creator =
  cr_info :: Info
  cr_ttl :: duration
  cr_at :: create_pc

definition create_turn :: "'db service \<Rightarrow> time \<Rightarrow> creator \<Rightarrow> 'db world \<Rightarrow> creator \<times> 'db world" where
  "create_turn s now c w =
     (case cr_at c of
        Lookup \<Rightarrow>
          (case load s now (GenerateRoomKey (cr_info c)) w of
             (None, w1) \<Rightarrow> (c\<lparr>cr_at := Absent\<rparr>, w1)
           | (Some _, w1) \<Rightarrow> (c\<lparr>cr_at := Refused\<rparr>, w1))
      | Absent \<Rightarrow>
          (let (room, w1) = alloc_room (new_Room (GameID (cr_info c)) (RoomID (cr_info c))) w
           in (c\<lparr>cr_at := Created\<rparr>, setRoom s now (cr_info c) room (cr_ttl c) w1))
      | Created \<Rightarrow> (c, w)
      | Refused \<Rightarrow> (c, w))"

definition new_creator :: "Info \<times> duration \<Rightarrow> creator" where
  "new_creator it = \<lparr>cr_info = fst it, cr_ttl = snd it, cr_at = Lookup\<rparr>"

record 'db creates =
  cs_world :: "'db world"
  cs_creators :: "creator list"

inductive create_step :: "'db service \<Rightarrow> 'db creates \<Rightarrow> nat \<times> time \<Rightarrow> 'db creates \<Rightarrow> bool" for s where
  "cs_creators C = us @ c # vs \<Longrightarrow> cr_at c \<noteq> Created \<Longrightarrow> cr_at c \<noteq> Refused \<Longrightarrow> create_turn s now c (cs_world C) = (c', w') \<Longrightarrow>
   create_step s C (length us, now) \<lparr>cs_world = w', cs_creators = us @ c' # vs\<rparr>"

text \<open>Two turns of a call without interruption are \<^verbatim>\<open>CreateRoom\<close>.\<close>

lemma create_turns_two:
  assumes "token s now tok = Inr info"
  shows "CreateRoom s now tok ttl w =
    (let (c, w') = (let (c, w1) = create_turn s now (new_creator (info, ttl)) w in create_turn s now c w1)
     in (if cr_at c = Refused then Some ErrRoomIsExists else None, w'))"
  by (auto simp: CreateRoom_def assms create_turn_def new_creator_def Let_def alloc_room_def split: prod.splits option.splits)

section \<open>What every interleaving keeps\<close>

text \<open>
  The rooms in the course of the calls: those that a call stored are empty, were absent before, and the others are as before; a
  call that was refused has its room.
\<close>

definition creates_abs :: "spec_state \<Rightarrow> creator list \<Rightarrow> spec_state" where
  "creates_abs a cs = a\<lparr>rooms := \<lambda>gr. if \<exists>c \<in> set cs. cr_at c = Created \<and> room_of (cr_info c) = gr then Some Map.empty else rooms a gr\<rparr>"

definition creates_ok :: "spec_state \<Rightarrow> spec_state \<Rightarrow> creator list \<Rightarrow> bool" where
  "creates_ok a0 a cs \<longleftrightarrow> a = creates_abs a0 cs \<and>
     (\<forall>c \<in> set cs. (cr_at c = Refused \<longrightarrow> rooms a (room_of (cr_info c)) \<noteq> None) \<and>
        (cr_at c = Absent \<or> cr_at c = Created \<longrightarrow> rooms a0 (room_of (cr_info c)) = None))"

lemma creates_abs_created:
  assumes "cr_at c' = Created" and "cr_at c \<noteq> Created" and "cr_info c' = cr_info c"
  shows "creates_abs a (us @ c' # vs) = spec_create (cr_info c) (creates_abs a (us @ c # vs))"
proof -
  have "(\<lambda>gr. if \<exists>d \<in> set (us @ c' # vs). cr_at d = Created \<and> room_of (cr_info d) = gr then Some Map.empty else rooms a gr) =
      (\<lambda>gr. if \<exists>d \<in> set (us @ c # vs). cr_at d = Created \<and> room_of (cr_info d) = gr then Some Map.empty else rooms a gr)
        (room_of (cr_info c) \<mapsto> Map.empty)"
    using assms by (auto simp: fun_eq_iff)
  then show ?thesis by (simp only: creates_abs_def spec_create_def) simp
qed

lemma creates_abs_same:
  "cr_at c' \<noteq> Created \<Longrightarrow> cr_at c \<noteq> Created \<Longrightarrow> creates_abs a (us @ c' # vs) = creates_abs a (us @ c # vs)"
  by (simp add: creates_abs_def)

fun create_turns_left :: "create_pc \<Rightarrow> nat" where
  "create_turns_left Lookup = 2"
| "create_turns_left Absent = 1"
| "create_turns_left Created = 0"
| "create_turns_left Refused = 0"

context service_env
begin

lemma create_turn_cases:
  assumes "create_turn s now c w = (c', w')" and "ok_via view invar w" and "cr_at c \<noteq> Created" and "cr_at c \<noteq> Refused"
  shows "ok_via view invar w' \<and> cr_info c' = cr_info c \<and> create_turns_left (cr_at c') < create_turns_left (cr_at c) \<and>
    (case cr_at c' of
       Created \<Rightarrow> abs_via view w' = spec_create (cr_info c) (abs_via view w)
     | Refused \<Rightarrow> abs_via view w' = abs_via view w \<and> rooms (abs_via view w) (room_of (cr_info c)) \<noteq> None
     | _ \<Rightarrow> abs_via view w' = abs_via view w)"
proof (cases "cr_at c")
  case Lookup
  let ?k = "GenerateRoomKey (cr_info c)"
  obtain w1 where l: "load s now ?k w = (view (store w) ?k, w1)" "same w w1" by (rule load_cases)
  have "rooms (abs_via view w) (room_of (cr_info c)) = None \<longleftrightarrow> view (store w) ?k = None"
    using assms(2) by (simp add: abs_via_def ok_via_def room_of_def GenerateRoomKey_eq abs_room_None)
  then show ?thesis
    using assms(1) l same_ok [OF l(2) assms(2)] same_abs [OF l(2)]
    by (auto simp: create_turn_def Lookup split: option.splits)
next
  case Absent
  then show ?thesis
    using assms(1) create_step [OF assms(2), of now "cr_info c" "cr_ttl c"]
    by (auto simp: create_turn_def alloc_room_def)
qed (use assms in simp_all)

lemma create_turn_absent:
  "ok_via view invar w \<Longrightarrow> create_turn s now c w = (c', w') \<Longrightarrow> cr_at c = Lookup \<Longrightarrow> cr_at c' = Absent \<Longrightarrow>
   rooms (abs_via view w) (room_of (cr_info c)) = None"
proof -
  assume A: "ok_via view invar w" "create_turn s now c w = (c', w')" "cr_at c = Lookup" "cr_at c' = Absent"
  obtain w1 where l: "load s now (GenerateRoomKey (cr_info c)) w = (view (store w) (GenerateRoomKey (cr_info c)), w1)"
    by (rule load_cases)
  then have "view (store w) (GenerateRoomKey (cr_info c)) = None"
    using A(2-4) by (auto simp: create_turn_def split: option.splits)
  then show "rooms (abs_via view w) (room_of (cr_info c)) = None"
    using A(1) by (simp add: abs_via_def ok_via_def room_of_def GenerateRoomKey_eq abs_room_None)
qed

lemma create_step_ok:
  assumes "create_step s C x C'" and "ok_via view invar (cs_world C)" and "creates_ok a0 (abs_via view (cs_world C)) (cs_creators C)"
  shows "ok_via view invar (cs_world C') \<and> creates_ok a0 (abs_via view (cs_world C')) (cs_creators C') \<and>
    map cr_info (cs_creators C') = map cr_info (cs_creators C) \<and>
    sum_list (map (create_turns_left \<circ> cr_at) (cs_creators C')) < sum_list (map (create_turns_left \<circ> cr_at) (cs_creators C))"
  using assms(1)
proof cases
  case (1 us c vs now c' w')
  let ?a = "abs_via view (cs_world C)"
  note T = create_turn_cases [OF 1(6) assms(2) 1(4,5)]
  have c: "cr_info c' = cr_info c" using T by simp
  have a: "?a = creates_abs a0 (us @ c # vs)" and cs: "\<forall>d \<in> set (us @ c # vs). (cr_at d = Refused \<longrightarrow> rooms ?a (room_of (cr_info d)) \<noteq> None) \<and>
      (cr_at d = Absent \<or> cr_at d = Created \<longrightarrow> rooms a0 (room_of (cr_info d)) = None)"
    using assms(3) unfolding creates_ok_def 1(3) by blast+
  have "creates_ok a0 (abs_via view w') (us @ c' # vs)"
  proof (cases "cr_at c'")
    case Lookup
    then show ?thesis using T 1(4) by (cases "cr_at c") simp_all
  next
    case Absent
    then have l: "cr_at c = Lookup" using T 1(4,5) by (cases "cr_at c") simp_all
    have "rooms ?a (room_of (cr_info c)) = None"
      using 1(6) l Absent create_turn_absent [OF assms(2)] by simp
    then have "rooms a0 (room_of (cr_info c)) = None" unfolding a by (simp add: creates_abs_def split: if_splits)
    then show ?thesis using T Absent a cs l by (auto simp: creates_ok_def creates_abs_def c)
  next
    case Created
    then have l: "cr_at c = Absent" using T 1(4,5) 1(6) by (cases "cr_at c") (auto simp: create_turn_def split: prod.splits option.splits)
    have "abs_via view w' = creates_abs a0 (us @ c' # vs)"
      using T Created a l creates_abs_created [OF Created, of c a0 us vs] by (simp add: c)
    moreover have "rooms (abs_via view w') gr \<noteq> None" if "rooms ?a gr \<noteq> None" for gr
      using T Created that by (simp add: spec_create_def)
    ultimately show ?thesis using Created cs l by (simp add: creates_ok_def c ball_Un)
  next
    case Refused
    then have l: "cr_at c = Lookup" using 1(4,5,6) by (cases "cr_at c") (auto simp: create_turn_def split: prod.splits option.splits)
    have "abs_via view w' = creates_abs a0 (us @ c' # vs)"
      using T Refused a l creates_abs_same [of c' c a0 us vs] by simp
    moreover have "abs_via view w' = ?a" "rooms ?a (room_of (cr_info c)) \<noteq> None" using T Refused by simp_all
    ultimately show ?thesis using Refused cs l by (simp add: creates_ok_def c ball_Un)
  qed
  then show ?thesis using T by (auto simp: 1 c)
qed

lemma creates_keep:
  "run (create_step s) C xs C' \<Longrightarrow> ok_via view invar (cs_world C) \<Longrightarrow> creates_ok a0 (abs_via view (cs_world C)) (cs_creators C) \<Longrightarrow>
   ok_via view invar (cs_world C') \<and> creates_ok a0 (abs_via view (cs_world C')) (cs_creators C') \<and>
   map cr_info (cs_creators C') = map cr_info (cs_creators C) \<and>
   length xs + sum_list (map (create_turns_left \<circ> cr_at) (cs_creators C')) \<le> sum_list (map (create_turns_left \<circ> cr_at) (cs_creators C))"
proof (induction rule: run.induct)
  case (run_Cons C x C1 xs C2)
  from run_Cons.IH create_step_ok [OF run_Cons.hyps(1) run_Cons.prems] show ?case by (simp add: comp_def)
qed simp

text \<open>All calls for one absent room look it up before any of them stores it.\<close>

lemma all_lookup:
  "ok_via view invar w \<Longrightarrow> \<forall>it \<in> set its. rooms (abs_via view w) (room_of (fst it)) = None \<Longrightarrow>
   \<exists>xs w'. run (create_step s) \<lparr>cs_world = w, cs_creators = us @ map new_creator its\<rparr> xs
      \<lparr>cs_world = w', cs_creators = us @ map (\<lambda>it. (new_creator it)\<lparr>cr_at := Absent\<rparr>) its\<rparr> \<and> ok_via view invar w'"
proof (induction its arbitrary: us w)
  case Nil
  then show ?case by (intro exI [of _ "[]"] exI [of _ w]) simp
next
  case (Cons it its)
  let ?c = "new_creator it" and ?k = "GenerateRoomKey (fst it)"
  obtain w1 where l: "load s now ?k w = (view (store w) ?k, w1)" "same w w1" by (rule load_cases)
  have "view (store w) ?k = None"
    using Cons.prems by (simp add: abs_via_def ok_via_def room_of_def GenerateRoomKey_eq abs_room_None)
  then have t: "create_turn s now ?c w = (?c\<lparr>cr_at := Absent\<rparr>, w1)" using l(1) by (simp add: create_turn_def new_creator_def)
  have st: "create_step s \<lparr>cs_world = w, cs_creators = us @ map new_creator (it # its)\<rparr> (length us, now)
      \<lparr>cs_world = w1, cs_creators = (us @ [?c\<lparr>cr_at := Absent\<rparr>]) @ map new_creator its\<rparr>"
    using create_step.intros [of "\<lparr>cs_world = w, cs_creators = us @ map new_creator (it # its)\<rparr>" us ?c _ s now] t
    by (simp add: new_creator_def)
  obtain xs w' where "run (create_step s) \<lparr>cs_world = w1, cs_creators = (us @ [?c\<lparr>cr_at := Absent\<rparr>]) @ map new_creator its\<rparr> xs
      \<lparr>cs_world = w', cs_creators = (us @ [?c\<lparr>cr_at := Absent\<rparr>]) @ map (\<lambda>it. (new_creator it)\<lparr>cr_at := Absent\<rparr>) its\<rparr>" "ok_via view invar w'"
    using Cons.IH [of w1 "us @ [?c\<lparr>cr_at := Absent\<rparr>]"] same_ok [OF l(2)] same_abs [OF l(2)] Cons.prems by auto
  with run_Cons [where step = "create_step s", OF st] show ?case by (intro exI [of _ "(length us, now) # xs"] exI [of _ w']) simp
qed

lemma all_store:
  "ok_via view invar w \<Longrightarrow>
   \<exists>xs w'. run (create_step s) \<lparr>cs_world = w, cs_creators = us @ map (\<lambda>it. (new_creator it)\<lparr>cr_at := Absent\<rparr>) its\<rparr> xs
      \<lparr>cs_world = w', cs_creators = us @ map (\<lambda>it. (new_creator it)\<lparr>cr_at := Created\<rparr>) its\<rparr>"
proof (induction its arbitrary: us w)
  case Nil
  then show ?case by (intro exI [of _ "[]"] exI [of _ w]) simp
next
  case (Cons it its)
  let ?c = "(new_creator it)\<lparr>cr_at := Absent\<rparr>" and ?d = "(new_creator it)\<lparr>cr_at := Created\<rparr>"
  obtain w1 where t: "create_turn s 0 ?c w = (?d, w1)" by (simp add: create_turn_def new_creator_def alloc_room_def)
  have st: "create_step s \<lparr>cs_world = w, cs_creators = us @ map (\<lambda>it. (new_creator it)\<lparr>cr_at := Absent\<rparr>) (it # its)\<rparr> (length us, 0)
      \<lparr>cs_world = w1, cs_creators = (us @ [?d]) @ map (\<lambda>it. (new_creator it)\<lparr>cr_at := Absent\<rparr>) its\<rparr>"
    using create_step.intros [of "\<lparr>cs_world = w, cs_creators = us @ map (\<lambda>it. (new_creator it)\<lparr>cr_at := Absent\<rparr>) (it # its)\<rparr>" us ?c _ s 0] t
    by simp
  have "ok_via view invar w1" using create_turn_cases [OF t Cons.prems] by simp
  then obtain xs w' where "run (create_step s) \<lparr>cs_world = w1, cs_creators = (us @ [?d]) @ map (\<lambda>it. (new_creator it)\<lparr>cr_at := Absent\<rparr>) its\<rparr> xs
      \<lparr>cs_world = w', cs_creators = (us @ [?d]) @ map (\<lambda>it. (new_creator it)\<lparr>cr_at := Created\<rparr>) its\<rparr>"
    using Cons.IH [of w1 "us @ [?d]"] by auto
  with run_Cons [where step = "create_step s", OF st] show ?case by (intro exI [of _ "(length us, 0) # xs"] exI [of _ w']) simp
qed

end

text \<open>
  C9: Rooms created at the same time. Any number of calls of \<^verbatim>\<open>CreateRoom\<close> with tokens that were parsed run at the same time. At every
  moment the world is consistent, the rooms are those from before, with their members, and empty ones that a call stored, which
  were absent before; a call that returned the error finds its room existing. At most two turns per call happen. But the error is
  no protection: for calls that all name one absent room there is an interleaving in which every one of them returns without
  an error, while of calls one after the other only the first does.
\<close>

theorem concurrent_creates:
  fixes its :: "(Info \<times> duration) list" and parse cpus ram
  defines "svc \<equiv> mem_service parse cpus ram"
  assumes "world_ok w"
  shows "(\<forall>xs C. run (create_step svc) \<lparr>cs_world = w, cs_creators = map new_creator its\<rparr> xs C \<longrightarrow>
      world_ok (cs_world C) \<and> creates_ok (abs_world w) (abs_world (cs_world C)) (cs_creators C) \<and>
      map cr_info (cs_creators C) = map fst its \<and> length xs \<le> 2 * length its) \<and>
    ((\<forall>it \<in> set its. rooms (abs_world w) (room_of (fst it)) = None) \<longrightarrow>
      (\<exists>xs C. run (create_step svc) \<lparr>cs_world = w, cs_creators = map new_creator its\<rparr> xs C \<and>
        (\<forall>c \<in> set (cs_creators C). cr_at c = Created)))"
proof (intro conjI allI impI)
  have w: "ok_via look db_ok w" using assms(2) by (simp add: world_ok_def)
  have start: "creates_ok (abs_via look w) (abs_via look w) (map new_creator its)"
    by (auto simp: creates_ok_def creates_abs_def new_creator_def)
  have left: "sum_list (map (create_turns_left \<circ> cr_at) (map new_creator its)) = 2 * length its"
    by (induction its) (simp_all add: new_creator_def)
  {
    fix xs C assume "run (create_step svc) \<lparr>cs_world = w, cs_creators = map new_creator its\<rparr> xs C"
    from sv.creates_keep [OF this [unfolded svc_def], of "abs_via look w"] w start left
    show "world_ok (cs_world C)" "creates_ok (abs_world w) (abs_world (cs_world C)) (cs_creators C)"
      "map cr_info (cs_creators C) = map fst its" "length xs \<le> 2 * length its"
      by (simp_all add: world_defs new_creator_def comp_def)
  }
  assume "\<forall>it \<in> set its. rooms (abs_world w) (room_of (fst it)) = None"
  from sv.all_lookup [OF w this [unfolded abs_world_def], of parse cpus ram "[]"]
  obtain xs w1 where L: "run (create_step svc) \<lparr>cs_world = w, cs_creators = map new_creator its\<rparr> xs
      \<lparr>cs_world = w1, cs_creators = map (\<lambda>it. (new_creator it)\<lparr>cr_at := Absent\<rparr>) its\<rparr>" "ok_via look db_ok w1"
    by (auto simp: svc_def)
  from sv.all_store [OF L(2), of parse cpus ram "[]" its]
  obtain ys w2 where "run (create_step svc) \<lparr>cs_world = w1, cs_creators = map (\<lambda>it. (new_creator it)\<lparr>cr_at := Absent\<rparr>) its\<rparr> ys
      \<lparr>cs_world = w2, cs_creators = map (\<lambda>it. (new_creator it)\<lparr>cr_at := Created\<rparr>) its\<rparr>"
    by (auto simp: svc_def)
  from run_trans [OF L(1) this] show "\<exists>xs C. run (create_step svc) \<lparr>cs_world = w, cs_creators = map new_creator its\<rparr> xs C \<and>
      (\<forall>c \<in> set (cs_creators C). cr_at c = Created)"
    by (intro exI conjI) (assumption, simp)
qed

text \<open>
  C10: A room that is created late loses its members. Whenever a call of \<^verbatim>\<open>CreateRoom\<close> has found the room absent, a client joins that
  room, which \<^verbatim>\<open>setNewUser\<close> creates, and then the call stores its own room: both return without an error, and the client,
  which was the member of its room, has a session in a room without members.
\<close>

theorem late_create_evicts_members:
  fixes parse cpus ram
  defines "svc \<equiv> mem_service parse cpus ram"
  assumes "world_ok w" and "parse now tok = Inr i" and "rooms (abs_world w) (room_of i) = None" and "room_of ci = room_of i"
  shows "\<exists>c1 w1 w2 c2 w3. create_turn svc now (new_creator (ci, ttl)) w = (c1, w1) \<and>
    setNewUser svc p now ds tok w1 = (Inr i, w2) \<and>
    spec_session (abs_world w2) ds = Inr (i, [UserID i \<mapsto> \<lparr>u_ID = UserID i, u_Connection = ds\<rparr>]) \<and>
    create_turn svc now c1 w2 = (c2, w3) \<and> cr_at c2 = Created \<and> world_ok w3 \<and>
    spec_session (abs_world w3) ds = Inr (i, Map.empty)"
proof -
  let ?c = "new_creator (ci, ttl)"
  have w: "ok_via look db_ok w" using assms(2) by (simp add: world_ok_def)
  have c: "cr_at ?c = Lookup" "cr_info ?c = ci" by (simp_all add: new_creator_def)
  obtain c1 w1 where 1: "create_turn svc now ?c w = (c1, w1)" by force
  note T1 = sv.create_turn_cases [OF 1 [unfolded svc_def] w, folded world_defs] c
  have "cr_at c1 = Absent \<or> cr_at c1 = Refused"
    using 1 c(1) by (auto simp: create_turn_def split: prod.splits option.splits)
  then have c1: "cr_at c1 = Absent" using T1 assms(4,5) by auto
  with T1 have c1': "cr_info c1 = ci" and w1: "world_ok w1" "abs_world w1 = abs_world w" by simp_all
  obtain w2 where 2: "setNewUser svc p now ds tok w1 = (Inr i, w2)" "world_ok w2" "abs_world w2 = spec_join ds i (abs_world w1)"
    using sv.setNewUser_spec [where parse = parse and cpus = cpus and mem = ram and w = w1 and now = now and req = tok and p = p and ds = ds]
      w1(1) assms(3) by (auto simp: svc_def world_defs Let_def split: prod.splits)
  obtain c2 w3 where 3: "create_turn svc now c1 w2 = (c2, w3)" by force
  have c2: "cr_at c2 = Created" using 3 c1(1) by (auto simp: create_turn_def split: prod.splits)
  have w2: "ok_via look db_ok w2" using 2(2) by (simp add: world_ok_def)
  have w3: "world_ok w3" "abs_world w3 = spec_create ci (abs_world w2)"
    using sv.create_turn_cases [OF 3 [unfolded svc_def] w2, folded world_defs] c1 c1' c2 by simp_all
  have s2: "spec_session (abs_world w2) ds = Inr (i, [UserID i \<mapsto> \<lparr>u_ID = UserID i, u_Connection = ds\<rparr>])"
    using assms(4) by (simp add: 2(3) w1(2) spec_join_def members_or_empty_def)
  have s3: "spec_session (abs_world w3) ds = Inr (i, Map.empty)"
    using assms(5) by (simp add: w3(2) 2(3) spec_create_def spec_join_def)
  from conjI [OF 1 conjI [OF 2(1) conjI [OF s2 conjI [OF 3 conjI [OF c2 conjI [OF w3(1) s3]]]]]]
  show ?thesis by (intro exI)
qed

section \<open>Instances\<close>

theorem concurrent_creates_witness:
  "\<exists>xs C. run (create_step (mem_service ex_parse 4 0))
      \<lparr>cs_world = new_world 10, cs_creators = map new_creator [(ex_info 7, 0), (ex_info 8, Second)]\<rparr> xs C \<and>
    (\<forall>c \<in> set (cs_creators C). cr_at c = Created) \<and> map cr_info (cs_creators C) = [ex_info 7, ex_info 8] \<and> world_ok (cs_world C)"
proof -
  note C = concurrent_creates [where parse = ex_parse and cpus = 4 and ram = 0 and w = "new_world 10" and its = "[(ex_info 7, 0), (ex_info 8, Second)]", OF new_world_ok]
  have "\<forall>it \<in> set [(ex_info 7, 0 :: duration), (ex_info 8, Second)]. rooms (abs_world (new_world 10)) (room_of (fst it)) = None"
    by (simp add: abs_new_world)
  from mp [OF conjunct2 [OF C] this]
  obtain xs C where R: "run (create_step (mem_service ex_parse 4 0))
      \<lparr>cs_world = new_world 10, cs_creators = map new_creator [(ex_info 7, 0), (ex_info 8, Second)]\<rparr> xs C"
      "\<forall>c \<in> set (cs_creators C). cr_at c = Created" by (elim exE conjE)
  then have "map cr_info (cs_creators C) = [ex_info 7, ex_info 8]" "world_ok (cs_world C)"
    using conjunct1 [OF concurrent_creates [where parse = ex_parse and cpus = 4 and ram = 0 and w = "new_world 10" and its = "[(ex_info 7, 0), (ex_info 8, Second)]", OF new_world_ok], rule_format, OF R(1)]
    by simp_all
  from conjI [OF R(1) conjI [OF R(2) conjI [OF this]]] show ?thesis by (intro exI)
qed

theorem late_create_evicts_members_witness:
  "\<exists>c1 w1 w2 c2 w3. create_turn (mem_service ex_parse 4 0) 5 (new_creator (ex_info 8, 0)) (new_world 10) = (c1, w1) \<and>
    setNewUser (mem_service ex_parse 4 0) insertion_order 5 (ex_addr 1) ''alice'' w1 = (Inr (ex_info 7), w2) \<and>
    create_turn (mem_service ex_parse 4 0) 5 c1 w2 = (c2, w3) \<and> spec_session (abs_world w3) (ex_addr 1) = Inr (ex_info 7, Map.empty)"
proof -
  have "ex_parse 5 ''alice'' = Inr (ex_info 7)" "rooms (abs_world (new_world 10)) (room_of (ex_info 7)) = None"
      "room_of (ex_info 8) = room_of (ex_info 7)"
    by (simp_all add: ex_parse_def abs_new_world room_of_def ex_info_def)
  from late_create_evicts_members [where parse = ex_parse and cpus = 4 and ram = 0, OF new_world_ok this, of 0 insertion_order "ex_addr 1"]
  show ?thesis by (elim exE conjE) (intro exI conjI)
qed

end
