(* ===== verification/RemoveRace.thy ===== *)
theory RemoveRace
  imports ServerProps
begin

text \<open>
  Workers that remove users at the same time. \<^verbatim>\<open>RemoveUser\<close> of the service finds the room with two atomic reads of the database;
  what follows is \<^verbatim>\<open>removeFromArray\<close> of \<^verbatim>\<open>room.go\<close>, which walks and edits the slice \<^verbatim>\<open>Users\<close> without a lock. Here that loop is
  split into its steps, and any number of removals from one room interleave. Memory is sequentially consistent, and the copy
  that \<^verbatim>\<open>append\<close> makes is one step.
\<close>

section \<open>The loop in steps\<close>

text \<open>
  Where a removal is: before the loop; at the next of the indices that are left of \<^verbatim>\<open>range r.Users\<close>, whose header is read once; at
  an element with its id; past the check of \<^verbatim>\<open>r.Users[i+1:]\<close> with the length it read; past the copy; returned; or in a
  panic.
\<close>

datatype remove_pc =
    RemStart
  | Looping "nat list"
  | Matched nat "nat list"
  | Cutting nat nat "nat list"
  | Moved nat "nat list"
  | RemDone
  | RemPanicked

text \<open>The backing array of \<^verbatim>\<open>Users\<close>, the length of the slice, and the removals: the id to remove and where each is.\<close>

record removals =
  rv_array :: "User list"
  rv_len :: nat
  rv_removers :: "(uuid \<times> remove_pc) list"

definition remove_turn :: "uuid \<Rightarrow> remove_pc \<Rightarrow> User list \<times> nat \<Rightarrow> remove_pc \<times> User list \<times> nat" where
  "remove_turn userID q al = (case al of (arr, len) \<Rightarrow>
     (case q of
        RemStart \<Rightarrow> (Looping [0..<len], arr, len)
      | Looping [] \<Rightarrow> (RemDone, arr, len)
      | Looping (i # is) \<Rightarrow> (if u_ID (arr ! i) = userID then Matched i is else Looping is, arr, len)
      | Matched i is \<Rightarrow> (if Suc i \<le> len then Cutting i len is else RemPanicked, arr, len)
      | Cutting i l is \<Rightarrow> (Moved l is, shift_left i l arr, len)
      | Moved l is \<Rightarrow> (Looping is, arr, l - 1)
      | RemDone \<Rightarrow> (RemDone, arr, len)
      | RemPanicked \<Rightarrow> (RemPanicked, arr, len)))"

inductive remove_step :: "removals \<Rightarrow> nat \<Rightarrow> removals \<Rightarrow> bool" where
  "rv_removers R = xs @ (userID, q) # ys \<Longrightarrow> q \<noteq> RemDone \<Longrightarrow> q \<noteq> RemPanicked \<Longrightarrow>
   remove_turn userID q (rv_array R, rv_len R) = (q', arr, len) \<Longrightarrow>
   remove_step R (length xs) \<lparr>rv_array = arr, rv_len = len, rv_removers = xs @ (userID, q') # ys\<rparr>"

definition start_removals :: "User list \<Rightarrow> uuid list \<Rightarrow> removals" where
  "start_removals users ids = \<lparr>rv_array = users, rv_len = length users, rv_removers = map (\<lambda>i. (i, RemStart)) ids\<rparr>"

section \<open>One removal without interruption\<close>

lemma remove_turn_step:
  assumes "remove_turn k q (arr, len) = (q', arr', len')" and "q \<noteq> RemDone" and "q \<noteq> RemPanicked"
    and "run remove_step \<lparr>rv_array = arr', rv_len = len', rv_removers = xs @ (k, q') # ys\<rparr> as R"
  shows "run remove_step \<lparr>rv_array = arr, rv_len = len, rv_removers = xs @ (k, q) # ys\<rparr> (length xs # as) R"
  using remove_step.intros [of "\<lparr>rv_array = arr, rv_len = len, rv_removers = xs @ (k, q) # ys\<rparr>" xs k q ys q' arr' len'] assms
  by (intro run_Cons) simp_all

lemmas turn_eq = remove_turn_def

text \<open>Turns of one removal are the loop of \<^verbatim>\<open>removeFromArray\<close>, whatever the others are at.\<close>

lemma length_shift_left: "Suc i \<le> len \<Longrightarrow> len \<le> length arr \<Longrightarrow> length (shift_left i len arr) = length arr"
  by (simp add: shift_left_def)

lemma loop_turns:
  "len \<le> length arr \<Longrightarrow> \<exists>as arr' len'. len' \<le> length arr' \<and> run remove_step \<lparr>rv_array = arr, rv_len = len, rv_removers = xs @ (k, Looping is) # ys\<rparr> as
       \<lparr>rv_array = arr', rv_len = len',
        rv_removers = xs @ (k, if remove_loop (\<lambda>u. u_ID u = k) is arr len = None then RemPanicked else RemDone) # ys\<rparr> \<and>
     (\<forall>users. remove_loop (\<lambda>u. u_ID u = k) is arr len = Some users \<longrightarrow> users = take len' arr')"
proof (induction "is" arbitrary: arr len)
  case Nil
  have "run remove_step \<lparr>rv_array = arr, rv_len = len, rv_removers = xs @ (k, Looping []) # ys\<rparr> [length xs]
      \<lparr>rv_array = arr, rv_len = len, rv_removers = xs @ (k, RemDone) # ys\<rparr>"
    by (rule remove_turn_step [OF _ _ _ run_Nil]) (simp_all add: turn_eq)
  with Nil show ?case by (intro exI [of _ "[length xs]"] exI [of _ arr] exI [of _ len]) simp
next
  case (Cons i "is")
  show ?case
  proof (cases "u_ID (arr ! i) = k")
    case False
    then show ?thesis using Cons.IH [OF Cons.prems]
      by (auto intro!: exI remove_turn_step [where q = "Looping (i # is)" and q' = "Looping is"] simp: turn_eq)
  next
    case match: True
    show ?thesis
    proof (cases "Suc i \<le> len")
      case True
      obtain as arr' len' where len': "len' \<le> length arr'" and IH: "run remove_step \<lparr>rv_array = shift_left i len arr, rv_len = len - 1, rv_removers = xs @ (k, Looping is) # ys\<rparr> as
         \<lparr>rv_array = arr', rv_len = len', rv_removers = xs @
            (k, if remove_loop (\<lambda>u. u_ID u = k) is (shift_left i len arr) (len - 1) = None then RemPanicked else RemDone) # ys\<rparr>"
         "\<forall>users. remove_loop (\<lambda>u. u_ID u = k) is (shift_left i len arr) (len - 1) = Some users \<longrightarrow> users = take len' arr'"
        using Cons.IH [of "len - 1" "shift_left i len arr"] Cons.prems length_shift_left [OF True Cons.prems] by force
      let ?from = "\<lambda>q arr len. \<lparr>rv_array = arr, rv_len = len, rv_removers = xs @ (k, q) # ys\<rparr>"
        and ?stop = "\<lparr>rv_array = arr', rv_len = len', rv_removers = xs @
            (k, if remove_loop (\<lambda>u. u_ID u = k) is (shift_left i len arr) (len - 1) = None then RemPanicked else RemDone) # ys\<rparr>"
      have "run remove_step (?from (Moved len is) (shift_left i len arr) len) (length xs # as) ?stop"
        using IH(1) by (intro remove_turn_step [of k "Moved len is"]) (simp_all add: turn_eq)
      then have "run remove_step (?from (Cutting i len is) arr len) (length xs # length xs # as) ?stop"
        by (intro remove_turn_step [of k "Cutting i len is"]) (simp_all add: turn_eq)
      then have "run remove_step (?from (Matched i is) arr len) (length xs # length xs # length xs # as) ?stop"
        using True by (intro remove_turn_step [of k "Matched i is"]) (simp_all add: turn_eq)
      then have "run remove_step (?from (Looping (i # is)) arr len) (length xs # length xs # length xs # length xs # as) ?stop"
        using match by (intro remove_turn_step [of k "Looping (i # is)"]) (simp_all add: turn_eq)
      then show ?thesis using IH(2) match True len' by (intro exI) auto
    next
      case False
      have "run remove_step \<lparr>rv_array = arr, rv_len = len, rv_removers = xs @ (k, Looping (i # is)) # ys\<rparr> [length xs, length xs]
          \<lparr>rv_array = arr, rv_len = len, rv_removers = xs @ (k, RemPanicked) # ys\<rparr>"
        by (rule remove_turn_step [of k "Looping (i # is)" _ _ "Matched i is"],
            simp_all add: turn_eq match, rule remove_turn_step [of k "Matched i is" _ _ RemPanicked, OF _ _ _ run_Nil])
          (use False in \<open>simp_all add: turn_eq\<close>)
      then show ?thesis using match False Cons.prems by (intro exI) auto
    qed
  qed
qed

lemma loop_skips:
  "\<forall>i \<in> set is. u_ID (arr ! i) \<noteq> k \<Longrightarrow>
   \<exists>as. run remove_step \<lparr>rv_array = arr, rv_len = len, rv_removers = xs @ (k, Looping (is @ js)) # ys\<rparr> as
     \<lparr>rv_array = arr, rv_len = len, rv_removers = xs @ (k, Looping js) # ys\<rparr>"
proof (induction "is")
  case Nil
  then show ?case by (intro exI [of _ "[]"]) simp
next
  case (Cons i "is")
  then obtain as where "run remove_step \<lparr>rv_array = arr, rv_len = len, rv_removers = xs @ (k, Looping (is @ js)) # ys\<rparr> as
     \<lparr>rv_array = arr, rv_len = len, rv_removers = xs @ (k, Looping js) # ys\<rparr>" by auto
  then have "run remove_step \<lparr>rv_array = arr, rv_len = len, rv_removers = xs @ (k, Looping ((i # is) @ js)) # ys\<rparr> (length xs # as)
     \<lparr>rv_array = arr, rv_len = len, rv_removers = xs @ (k, Looping js) # ys\<rparr>"
    using Cons.prems by (intro remove_turn_step [of k "Looping ((i # is) @ js)"]) (simp_all add: turn_eq)
  then show ?case by blast
qed

text \<open>One removal alone removes the user and never panics when the ids differ.\<close>

lemma lone_removal:
  assumes "distinct (map u_ID users)"
  shows "\<exists>as arr len. run remove_step (start_removals users [k]) as \<lparr>rv_array = arr, rv_len = len, rv_removers = [(k, RemDone)]\<rparr> \<and>
    take len arr = filter (\<lambda>u. u_ID u \<noteq> k) users"
proof -
  have R: "remove_loop (\<lambda>u. u_ID u = k) [0..<length users] users (length users) = Some (filter (\<lambda>u. u_ID u \<noteq> k) users)"
    using range_remove_distinct [OF assms, of k] by (simp add: range_remove_def)
  obtain as arr len where "run remove_step \<lparr>rv_array = users, rv_len = length users, rv_removers = [(k, Looping [0..<length users])]\<rparr> as
      \<lparr>rv_array = arr, rv_len = len, rv_removers = [(k, RemDone)]\<rparr>" "take len arr = filter (\<lambda>u. u_ID u \<noteq> k) users"
    using loop_turns [of "length users" users "[]" k "[0..<length users]" "[]"] by (auto simp: R)
  moreover from this(1) have "run remove_step (start_removals users [k]) (0 # as) \<lparr>rv_array = arr, rv_len = len, rv_removers = [(k, RemDone)]\<rparr>"
    using remove_turn_step [of k RemStart users "length users" _ _ _ "[]" "[]"] by (simp add: start_removals_def turn_eq)
  ultimately show ?thesis by blast
qed

section \<open>Two removals panic\<close>

context service_env
begin

lemma two_in_room:
  assumes "ok_via view invar w" and "spec_session (abs_via view w) ds1 = Inr (i1, m)"
    and "spec_session (abs_via view w) ds2 = Inr (i2, m)" and "room_of i1 = room_of i2"
  shows "\<exists>n w1 w2. getRoom s now ds1 w = (Inr (i1, n), w1) \<and> getRoom s now ds2 w1 = (Inr (i2, n), w2) \<and>
    room_ok (heap w2 ! n) \<and> room_members (heap w2 ! n) = m"
proof -
  have vals: "vals_ok (view (store w)) (heap w)" using assms(1) by (simp add: ok_via_def)
  obtain w1 where g1: "getRoom s now ds1 w = (session (view (store w)) ds1, w1)" "same w w1" by (rule getRoom_cases)
  obtain w2 where g2: "getRoom s now ds2 w1 = (session (view (store w1)) ds2, w2)" "same w1 w2" by (rule getRoom_cases)
  have eq: "view (store w1) = view (store w)" "heap w2 = heap w" using g1(2) g2(2) by (simp_all add: same_values_def)
  obtain n where n: "session (view (store w)) ds1 = Inr (i1, n)" "room_members (heap w ! n) = m"
    using assms(2) session_abs [OF vals, of ds1] by (auto simp: abs_via_def split: sum.splits)
  obtain n' where n': "session (view (store w)) ds2 = Inr (i2, n')"
    using assms(3) session_abs [OF vals, of ds2] by (auto simp: abs_via_def split: sum.splits)
  have "n' = n"
    using session_Inr(2) [OF vals n(1)] session_Inr(2) [OF vals n'] assms(4) by (simp add: room_of_def)
  then show ?thesis
    using g1(1) g2(1) n n' session_Inr(4) [OF vals n(1)] by (simp add: eq)
qed

end

lemma two_removals:
  assumes "distinct (map u_ID users)" and "a \<in> u_ID ` set users"
  shows "\<exists>as R. run remove_step (start_removals users [a, u_ID (last users)]) as R \<and> map snd (rv_removers R) = [RemDone, RemPanicked]"
proof -
  let ?b = "u_ID (last users)" and ?n = "length users"
  have ne: "users \<noteq> []" using assms(2) by auto
  then obtain n where n: "?n = Suc n" "last users = users ! n" by (cases users) (auto simp: last_conv_nth)
  have "\<forall>i \<in> set [0..<n]. u_ID (users ! i) \<noteq> ?b"
    using assms(1) n by (auto simp: distinct_conv_nth)
  from loop_skips [OF this, of ?n "[(a, RemStart)]" "[n]" "[]"] n(1)
  obtain as1 where A1: "run remove_step \<lparr>rv_array = users, rv_len = ?n, rv_removers = [(a, RemStart), (?b, Looping [0..<?n])]\<rparr> as1
      \<lparr>rv_array = users, rv_len = ?n, rv_removers = [(a, RemStart), (?b, Looping [n])]\<rparr>" by auto
  have R: "remove_loop (\<lambda>u. u_ID u = a) [0..<?n] users ?n = Some (filter (\<lambda>u. u_ID u \<noteq> a) users)"
    using range_remove_distinct [OF assms(1), of a] by (simp add: range_remove_def)
  obtain as2 arr len where A2: "run remove_step \<lparr>rv_array = users, rv_len = ?n, rv_removers = [(a, Looping [0..<?n]), (?b, Matched n [])]\<rparr> as2
      \<lparr>rv_array = arr, rv_len = len, rv_removers = [(a, RemDone), (?b, Matched n [])]\<rparr>"
      "len \<le> length arr" "take len arr = filter (\<lambda>u. u_ID u \<noteq> a) users"
    using loop_turns [of ?n users "[]" a "[0..<?n]" "[(?b, Matched n [])]"] by (auto simp: R)
  have "len = length (filter (\<lambda>u. u_ID u \<noteq> a) users)" using A2(2) by (simp add: A2(3) [symmetric])
  also have "\<dots> < ?n" using assms(2) by (auto intro!: length_filter_less)
  finally have len: "\<not> Suc n \<le> len" using n(1) by simp
  have A3: "run remove_step \<lparr>rv_array = arr, rv_len = len, rv_removers = [(a, RemDone), (?b, Matched n [])]\<rparr> [1]
      \<lparr>rv_array = arr, rv_len = len, rv_removers = [(a, RemDone), (?b, RemPanicked)]\<rparr>"
    using remove_turn_step [of ?b "Matched n []" arr len RemPanicked arr len "[(a, RemDone)]" "[]", OF _ _ _ run_Nil] len
    by (simp add: turn_eq)
  have "run remove_step \<lparr>rv_array = users, rv_len = ?n, rv_removers = [(a, RemStart), (?b, Matched n [])]\<rparr> (0 # as2 @ [1])
      \<lparr>rv_array = arr, rv_len = len, rv_removers = [(a, RemDone), (?b, RemPanicked)]\<rparr>"
    using remove_turn_step [of a RemStart users ?n "Looping [0..<?n]" users ?n "[]" "[(?b, Matched n [])]" "as2 @ [1]"] A2(1) A3
    by (auto simp: turn_eq run_append)
  then have "run remove_step \<lparr>rv_array = users, rv_len = ?n, rv_removers = [(a, RemStart), (?b, Looping [n])]\<rparr> (1 # 0 # as2 @ [1])
      \<lparr>rv_array = arr, rv_len = len, rv_removers = [(a, RemDone), (?b, RemPanicked)]\<rparr>"
    using remove_turn_step [of ?b "Looping [n]" users ?n "Matched n []" users ?n "[(a, RemStart)]" "[]"] n(2) by (simp add: turn_eq)
  with A1 have "run remove_step \<lparr>rv_array = users, rv_len = ?n, rv_removers = [(a, RemStart), (?b, Looping [0..<?n])]\<rparr> (as1 @ 1 # 0 # as2 @ [1])
      \<lparr>rv_array = arr, rv_len = len, rv_removers = [(a, RemDone), (?b, RemPanicked)]\<rparr>"
    by (auto simp: run_append)
  then have "run remove_step (start_removals users [a, ?b]) (1 # as1 @ 1 # 0 # as2 @ [1])
      \<lparr>rv_array = arr, rv_len = len, rv_removers = [(a, RemDone), (?b, RemPanicked)]\<rparr>"
    using remove_turn_step [of ?b RemStart users ?n "Looping [0..<?n]" users ?n "[(a, RemStart)]" "[]"]
    by (simp add: start_removals_def turn_eq)
  then show ?thesis by (intro exI conjI) (assumption, simp)
qed

text \<open>
  C3: Concurrent removals panic. Let two clients have sessions in the same room, and let their workers remove users of that
  room because writes failed: the one any member, the other the last user of the slice, who may be the same. There is an
  interleaving of the two loops in which the first removal is done and the second slices \<^verbatim>\<open>r.Users\<close> beyond its length and panics,
  which \<^verbatim>\<open>sendWorker\<close> does not recover: the process ends. Each removal alone does not panic.
\<close>

theorem concurrent_removals_panic:
  assumes "world_ok w" and "spec_session (abs_world w) ds1 = Inr (i1, m)" and "spec_session (abs_world w) ds2 = Inr (i2, m)"
    and "room_of i1 = room_of i2" and "a \<in> dom m"
  shows "\<exists>n w1 w2 b. getRoom (mem_service parse cpus ram) now ds1 w = (Inr (i1, n), w1) \<and>
    getRoom (mem_service parse cpus ram) now ds2 w1 = (Inr (i2, n), w2) \<and> b \<in> dom m \<and>
    (\<exists>as R. run remove_step (start_removals (r_Users (Service.heap w2 ! n)) [a, b]) as R \<and> map snd (rv_removers R) = [RemDone, RemPanicked]) \<and>
    (\<forall>k. \<exists>as arr len. run remove_step (start_removals (r_Users (Service.heap w2 ! n)) [k]) as
       \<lparr>rv_array = arr, rv_len = len, rv_removers = [(k, RemDone)]\<rparr>)"
proof -
  from sv.two_in_room [OF assms(1) [unfolded world_ok_def] assms(2,3) [unfolded abs_world_def] assms(4)]
  obtain n w1 w2 where W: "getRoom (mem_service parse cpus ram) now ds1 w = (Inr (i1, n), w1)"
      "getRoom (mem_service parse cpus ram) now ds2 w1 = (Inr (i2, n), w2)"
      "room_ok (Service.heap w2 ! n)" "room_members (Service.heap w2 ! n) = m"
    by blast
  let ?users = "r_Users (Service.heap w2 ! n)"
  have d: "distinct (map u_ID ?users)" using W(3) by (simp add: room_ok_def)
  have ids: "dom m = u_ID ` set ?users" using W(4) [symmetric] by (simp add: room_members_def dom_map_of_conv_image_fst image_image)
  then have a: "a \<in> u_ID ` set ?users" using assms(5) by simp
  then have "?users \<noteq> []" by auto
  then have b: "u_ID (last ?users) \<in> dom m" using ids by simp
  have lone: "\<forall>k. \<exists>as arr len. run remove_step (start_removals ?users [k]) as
      \<lparr>rv_array = arr, rv_len = len, rv_removers = [(k, RemDone)]\<rparr>"
    using lone_removal [OF d] by meson
  from conjI [OF W(1) conjI [OF W(2) conjI [OF b conjI [OF two_removals [OF d a] lone]]]] show ?thesis by (intro exI)
qed

theorem concurrent_removals_panic_witness:
  "\<exists>n w1 w2 b as R. getRoom (mem_service ex_parse 4 0) 6 (ex_addr 1) ex_pair_world = (Inr (ex_info 7, n), w1) \<and>
    getRoom (mem_service ex_parse 4 0) 6 (ex_addr 2) w1 = (Inr (ex_info 8, n), w2) \<and> b \<in> {7, 8} \<and>
    run remove_step (start_removals (r_Users (Service.heap w2 ! n)) [7, b]) as R \<and> map snd (rv_removers R) = [RemDone, RemPanicked]"
proof -
  have r: "room_of (ex_info 7) = room_of (ex_info 8)" by (simp add: room_of_def ex_info_def)
  have m: "(7 :: uuid) \<in> dom [7 \<mapsto> \<lparr>u_ID = 7, u_Connection = ex_addr 1\<rparr>, 8 \<mapsto> \<lparr>u_ID = 8, u_Connection = ex_addr 2\<rparr>]" by simp
  from concurrent_removals_panic [OF ex_pair_world_ok ex_pair_sessions r m, of ex_parse 4 0 6]
  obtain n w1 w2 b as R where W: "getRoom (mem_service ex_parse 4 0) 6 (ex_addr 1) ex_pair_world = (Inr (ex_info 7, n), w1)"
      "getRoom (mem_service ex_parse 4 0) 6 (ex_addr 2) w1 = (Inr (ex_info 8, n), w2)"
    and b: "b \<in> dom [7 \<mapsto> \<lparr>u_ID = 7, u_Connection = ex_addr 1\<rparr>, 8 \<mapsto> \<lparr>u_ID = 8, u_Connection = ex_addr 2\<rparr>]"
    and R: "run remove_step (start_removals (r_Users (Service.heap w2 ! n)) [7, b]) as R" "map snd (rv_removers R) = [RemDone, RemPanicked]"
    by (elim exE conjE)
  have "b \<in> {7, 8}" using b by (auto split: if_splits)
  from conjI [OF W(1) conjI [OF W(2) conjI [OF this conjI [OF R]]]] show ?thesis by (intro exI)
qed

end
