(* ===== verification/Tracing.thy ===== *)
theory Tracing
  imports MiddlewareProps
begin

text \<open>
  What is left of \<^verbatim>\<open>pkg/transport\<close> around the handlers: the set-up of tracing in \<^verbatim>\<open>tracer.go\<close>, the health endpoint and the
  shutdown in \<^verbatim>\<open>server.go\<close>, \<^verbatim>\<open>uploadFile\<close> of \<^verbatim>\<open>http.go\<close>, and the span helpers of the client (\<^verbatim>\<open>tracer.go\<close> of
  \<^verbatim>\<open>pkg/clients/udpGameServer\<close>). What Jaeger, Zipkin, the tracer and fiber return is an argument; \<open>'t\<close> is the type of tracers,
  \<open>'r\<close> that of their reporters, and errors are their texts.
\<close>

section \<open>Setting up a tracer\<close>

text \<open>\<^verbatim>\<open>ExitOnError\<close> logs at the level panic, which panics with the message (the left value).\<close>

definition ExitOnError :: "string option \<Rightarrow> string \<Rightarrow> 'a \<Rightarrow> string + 'a" where
  "ExitOnError err msg x = (case err of Some _ \<Rightarrow> Inl msg | None \<Rightarrow> Inr x)"

record ('t, 'r) tracing_lib =
  tl_ENV :: "string option"
  tl_FromEnv :: "string + string"
  tl_jaeger_NewTracer :: "string \<Rightarrow> 't \<times> 'r \<times> string option"
  tl_NewReporter :: "string \<Rightarrow> 'r"
  tl_NewEndpoint :: "string \<Rightarrow> string option"
  tl_zipkin_NewTracer :: "'r \<Rightarrow> string \<Rightarrow> 't \<times> string option"

text \<open>What the set-up changes: the global tracer, and the reporter that the server keeps to close it.\<close>

record ('t, 'r) tracing =
  globalTracer :: "'t option"
  reporterCloser :: "'r option"

definition TraceJaeger :: "('t, 'r) tracing_lib \<Rightarrow> string \<Rightarrow> ('t, 'r) tracing \<Rightarrow> string + ('t, 'r) tracing" where
  "TraceJaeger lib serviceName tr =
     (let environment = (case tl_ENV lib of None \<Rightarrow> [] | Some e \<Rightarrow> e)
      in case tl_FromEnv lib of
           Inl err \<Rightarrow> ExitOnError (Some err) ''jaeger config err'' tr
         | Inr name \<Rightarrow>
             (let name' = (if name = [] then environment @ serviceName else name);
                  (trace, closer, err) = tl_jaeger_NewTracer lib name'
              in ExitOnError err ''could not create jaeger tracer'' \<lparr>globalTracer = Some trace, reporterCloser = Some closer\<rparr>))"

definition TraceZipkin :: "('t, 'r) tracing_lib \<Rightarrow> string \<Rightarrow> string \<Rightarrow> ('t, 'r) tracing \<Rightarrow> string + ('t, 'r) tracing" where
  "TraceZipkin lib serviceName zipkinUrl tr =
     (let reporter = tl_NewReporter lib zipkinUrl;
          tr1 = tr\<lparr>reporterCloser := Some reporter\<rparr>;
          serviceName' = (case tl_ENV lib of Some environment \<Rightarrow> environment @ serviceName | None \<Rightarrow> serviceName)
      in case ExitOnError (tl_NewEndpoint lib serviceName') ''could not create endpoint'' tr1 of
           Inl msg \<Rightarrow> Inl msg
         | Inr tr2 \<Rightarrow>
             (let (trace, err) = tl_zipkin_NewTracer lib reporter serviceName'
              in ExitOnError err ''could not create tracer'' (tr2\<lparr>globalTracer := Some trace\<rparr>)))"

text \<open>
  Both set-ups name the service after the environment and the given name, unless the configuration of Jaeger names it; both either
  panic or leave a tracer and the reporter that belongs to it.
\<close>

definition service_name :: "('t, 'r) tracing_lib \<Rightarrow> string \<Rightarrow> string" where
  "service_name lib name = (case tl_ENV lib of None \<Rightarrow> name | Some e \<Rightarrow> e @ name)"

lemma TraceJaeger_named:
  "tl_FromEnv lib = Inr conf \<Longrightarrow>
   tl_jaeger_NewTracer lib (if conf = [] then service_name lib name else conf) = (t, r, err) \<Longrightarrow>
   TraceJaeger lib name tr =
     (case err of None \<Rightarrow> Inr \<lparr>globalTracer = Some t, reporterCloser = Some r\<rparr> | Some _ \<Rightarrow> Inl ''could not create jaeger tracer'')"
  by (auto simp: TraceJaeger_def ExitOnError_def service_name_def Let_def split: option.splits)

lemma TraceZipkin_named:
  "tl_NewEndpoint lib (service_name lib name) = None \<Longrightarrow>
   tl_zipkin_NewTracer lib (tl_NewReporter lib url) (service_name lib name) = (t, None) \<Longrightarrow>
   TraceZipkin lib name url tr = Inr \<lparr>globalTracer = Some t, reporterCloser = Some (tl_NewReporter lib url)\<rparr>"
  by (cases tr) (auto simp: TraceZipkin_def ExitOnError_def service_name_def Let_def split: option.splits)

section \<open>Spans across a call\<close>

text \<open>
  The tracer: the headers it injects for a span, the span it extracts from headers, and \<^verbatim>\<open>StartSpan\<close> with its parent. A span is
  any value of type \<open>'sp\<close>.
\<close>

record 'sp tracer =
  tr_Inject :: "'sp \<Rightarrow> (string \<times> string list) list"
  tr_Extract :: "(string \<times> string) list \<Rightarrow> 'sp option"
  tr_StartSpan :: "string \<Rightarrow> 'sp option \<Rightarrow> 'sp"

text \<open>The client side: \<^verbatim>\<open>extractSpan\<close> with the span of the context, and \<^verbatim>\<open>injectSpan\<close> into the headers of a request.\<close>

definition extractSpan :: "'sp tracer \<Rightarrow> 'sp option \<Rightarrow> string \<Rightarrow> 'sp" where
  "extractSpan tr ctxSpan opName = tr_StartSpan tr opName ctxSpan"

definition client_injectSpan :: "(string \<Rightarrow> string) \<Rightarrow> 'sp tracer \<Rightarrow> 'sp \<Rightarrow> (string \<times> string) list \<Rightarrow> (string \<times> string) list" where
  "client_injectSpan canon tr span headers =
     fold (\<lambda>(key, values). Set_header canon key (join_values '';'' values)) (tr_Inject tr span) headers"

text \<open>The server side: \<^verbatim>\<open>makeSpan\<close> copies the headers of the request under canonical names and asks the tracer for a parent.\<close>

definition canonical_headers :: "(string \<Rightarrow> string) \<Rightarrow> (string \<times> string) list \<Rightarrow> (string \<times> string) list" where
  "canonical_headers canon hs = fold (\<lambda>(k, v). Set_header canon k v) hs []"

definition server_span :: "(string \<Rightarrow> string) \<Rightarrow> 'sp tracer \<Rightarrow> string \<Rightarrow> (string \<times> string) list \<Rightarrow> 'sp" where
  "server_span canon tr opName requestHeaders = tr_StartSpan tr opName (tr_Extract tr (canonical_headers canon requestHeaders))"

text \<open>What a tracer promises: from headers that carry what it injected for a span it extracts this span.\<close>

definition propagates :: "(string \<Rightarrow> string) \<Rightarrow> 'sp tracer \<Rightarrow> bool" where
  "propagates canon tr \<longleftrightarrow> (\<forall>k. canon (canon k) = canon k) \<and> (\<forall>sp. distinct (map (canon \<circ> fst) (tr_Inject tr sp))) \<and>
     (\<forall>sp hs. (\<forall>(k, vs) \<in> set (tr_Inject tr sp). map_of hs (canon k) = Some (join_values '';'' vs)) \<longrightarrow> tr_Extract tr hs = Some sp)"

definition canonical :: "(string \<Rightarrow> string) \<Rightarrow> (string \<times> string) list \<Rightarrow> bool" where
  "canonical canon hs \<longleftrightarrow> distinct (map fst hs) \<and> (\<forall>(k, v) \<in> set hs. canon k = k)"

lemma injected_headers:
  "distinct (map (canon \<circ> fst) xs) \<Longrightarrow> (k, vs) \<in> set xs \<Longrightarrow>
   map_of (fold (\<lambda>(key, values). Set_header canon key (join_values '';'' values)) xs hs) (canon k) = Some (join_values '';'' vs)"
proof (induction xs arbitrary: hs rule: rev_induct)
  case (snoc x xs)
  then show ?case by (cases x) (force simp: Set_header_def image_iff)
qed simp

lemma injected_canonical:
  "(\<And>k. canon (canon k) = canon k) \<Longrightarrow> canonical canon hs \<Longrightarrow>
   canonical canon (fold (\<lambda>(key, values). Set_header canon key (join_values '';'' values)) xs hs)"
proof (induction xs arbitrary: hs)
  case (Cons x xs)
  then have "canonical canon (Set_header canon (fst x) (join_values '';'' (snd x)) hs)"
    by (auto simp: canonical_def Set_header_def distinct_update dest!: in_set_update)
  with Cons show ?case by (cases x) simp
qed simp

lemma canonical_copy:
  "canonical canon hs \<Longrightarrow>
   map_of (fold (\<lambda>(k, v). Set_header canon k v) hs gs) k = (case map_of hs k of None \<Rightarrow> map_of gs k | Some v \<Rightarrow> Some v)"
proof (induction hs arbitrary: gs)
  case (Cons x hs)
  then show ?case by (cases x) (force simp: canonical_def Set_header_def split: option.splits dest: map_of_SomeD)
qed simp

text \<open>
  A trace goes on across a call: the span that the server makes for a request is a child of the span that the client injected into its
  headers, whatever other headers there are.
\<close>

lemma trace_continues:
  assumes "propagates canon tr" and "canonical canon hs"
  shows "server_span canon tr opName (client_injectSpan canon tr sp hs) = tr_StartSpan tr opName (Some sp)"
proof -
  have "map_of (canonical_headers canon (client_injectSpan canon tr sp hs)) (canon k) = Some (join_values '';'' vs)"
    if "(k, vs) \<in> set (tr_Inject tr sp)" for k vs
    using injected_canonical [of canon hs "tr_Inject tr sp"] injected_headers [OF _ that, of canon hs] assms
    by (simp add: canonical_headers_def canonical_copy client_injectSpan_def propagates_def)
  then have "tr_Extract tr (canonical_headers canon (client_injectSpan canon tr sp hs)) = Some sp"
    using assms(1) unfolding propagates_def by blast
  then show ?thesis by (simp add: server_span_def)
qed

text \<open>A tracer with numbered spans: a span is its number and that of its parent, and the number travels in one header.\<close>

definition sample_tracer :: "(nat \<times> nat) tracer" where
  "sample_tracer =
     \<lparr>tr_Inject = (\<lambda>sp. [(''Span'', [Itoa (fst sp)]), (''Parent'', [Itoa (snd sp)])]),
      tr_Extract = (\<lambda>hs. case (map_of hs ''Span'', map_of hs ''Parent'') of (Some n, Some m) \<Rightarrow> Some (Atoi n, Atoi m) | _ \<Rightarrow> None),
      tr_StartSpan = (\<lambda>op parent. case parent of None \<Rightarrow> (1, 0) | Some sp \<Rightarrow> (Suc (fst sp), fst sp))\<rparr>"

lemma sample_tracer_propagates: "propagates (\<lambda>k. k) sample_tracer"
  by (auto simp: propagates_def sample_tracer_def Atoi_Itoa simp del: Atoi.simps)

section \<open>The servers of a process\<close>

text \<open>\<^verbatim>\<open>uploadFile\<close>: each call of the multipart form can fail; the file is closed when reading it returns.\<close>

definition uploadFile :: "(string \<Rightarrow> error + 'f) \<Rightarrow> ('f \<Rightarrow> error + 'h) \<Rightarrow> ('h \<Rightarrow> error + bytes) \<Rightarrow> string \<Rightarrow> error + bytes" where
  "uploadFile formFile openFile readAll key =
     (case formFile key of
        Inl err \<Rightarrow> Inl err
      | Inr header \<Rightarrow> (case openFile header of Inl err \<Rightarrow> Inl err | Inr file \<Rightarrow> readAll file))"

datatype app_state = AppListening | AppStopped

record servers =
  srv_http :: "app_state option"
  srv_health :: "app_state option"
  health_routes :: "(string \<times> json) list"

text \<open>
  \<^verbatim>\<open>ServeHealth\<close> sets up a second app with one route and listens in a goroutine of its own, where a failing \<^verbatim>\<open>Listen\<close> panics (\<open>Inl\<close>).
\<close>

definition ServeHealth :: "string \<Rightarrow> json \<Rightarrow> string option \<Rightarrow> servers \<Rightarrow> string + servers" where
  "ServeHealth address response listenErr s =
     ExitOnError listenErr (''serve health on '' @ address)
       (s\<lparr>srv_health := Some AppListening, health_routes := [(''/health'', response)]\<rparr>)"

definition Shutdown :: "servers \<Rightarrow> servers" where
  "Shutdown s =
     s\<lparr>srv_http := map_option (\<lambda>_. AppStopped) (srv_http s), srv_health := map_option (\<lambda>_. AppStopped) (srv_health s)\<rparr>"

lemma Shutdown_stops: "srv_http (Shutdown s) \<noteq> Some AppListening \<and> srv_health (Shutdown s) \<noteq> Some AppListening \<and> Shutdown (Shutdown s) = Shutdown s"
  by (auto simp: Shutdown_def option.map_comp comp_def)

end
