(* ===== verification/Spec2Isabelle.thy ===== *)
theory Spec2Isabelle
  imports BreakerProps CurlText ClientRace ClientFallback HasherProps TokenHash HttpRun SessionLife Drain
    Startup CreateRace RemoveRace Tracing
begin

text \<open>
  A verification of the UDP game server of this repository (Go module
  \<^verbatim>\<open>github.com/ascenmmo/udp-server\<close>), of its HTTP settings service and of the generated client of that
  service.

  \<^bold>\<open>The program.\<close> Game clients send datagrams to one UDP port. The first datagram of a client is a
  token that names a game, a room and a user; later ones are relayed to the other members of the
  room. A listener goroutine reads datagrams into one buffer and hands them round-robin to queues, one
  worker goroutine per queue asks the service who has to get them and writes them. Sessions, rooms and
  the counters of a rate limiter are rows of in-memory databases that a ticker sweeps. A JSON-RPC
  service over HTTP creates rooms, lists rooms and reports the capacity. The client of that service
  has a circuit breaker, a response cache with structural hashes as keys, and batch requests.

  \<^bold>\<open>Theories and sources.\<close> Each theory carries the definitions of the files named with it; a
  definition has the name of the function or type it translates, or that name with a prefix where two
  files use it.

  \<^item> \<open>GoPrelude\<close>: 64-bit integers, decimal texts, association lists, and \<open>range_order\<close>, an arbitrary
  order of traversal for a Go map. \<open>Machine\<close>: runs and reachable states of a step relation.
  \<^item> \<open>Identity\<close> (\<^verbatim>\<open>pkg/errors\<close>, \<^verbatim>\<open>internal/utils/room_generator.go\<close>): errors, UUIDs and room keys.
  \<^item> \<open>Rooms\<close> (\<^verbatim>\<open>pkg/api/types/room.go\<close>, \<^verbatim>\<open>internal/connection\<close>): members of a room, with removal on the backing
  array as Go does it.
  \<^item> \<open>MemoryStore\<close> (\<^verbatim>\<open>internal/storage\<close>): the database with its lifetimes, counters and sweep; the locale of
  its operations is what the service and the limiter rely on, interpreted on the model of the database.
  \<^item> \<open>RateLimiter\<close> (\<^verbatim>\<open>internal/utils/rate_limit.go\<close>), \<open>ServerConfig\<close> (\<^verbatim>\<open>env\<close>, \<^verbatim>\<open>pkg/api/types/settings.go\<close>).
  \<^item> \<open>Service\<close>, \<open>ServiceSpec\<close>, \<open>ServiceProps\<close> (\<^verbatim>\<open>internal/service\<close>): every operation of the service on a store and
  a heap of rooms; an abstract state of sessions and rooms; and that each operation refines its
  abstract counterpart. \<open>JoinRace\<close>: \<^verbatim>\<open>setNewUser\<close> split at its accesses to shared memory; what every interleaving of
  joins keeps, and that of two joins at the same time one member can be lost. \<open>CreateRace\<close>: \<^verbatim>\<open>CreateRoom\<close> split likewise; any
  number of calls at the same time keep the rooms well formed, but more than one can create the same room, and a late one empties
  a room that players have joined. \<open>RemoveRace\<close>: the loop of \<^verbatim>\<open>removeFromArray\<close> split likewise; two workers that remove the
  same user at the same time can panic, which ends the server.
  \<^item> \<open>TcpHandler\<close> (\<^verbatim>\<open>internal/handler/tcp\<close>), \<open>UdpWorker\<close> (\<^verbatim>\<open>internal/handler/udp\<close>), \<open>ServerRun\<close> and \<open>ServerProps\<close>
  (\<^verbatim>\<open>pkg/start\<close>): handlers, listener, queues and workers, and the whole server as a step relation in which
  goroutines interleave; invariants of all reachable states, isolation of rooms, delivery, and what
  happens after cancellation. \<open>SessionLife\<close>: how long a session lives while its client sends and when it does not;
  the locales \<open>watched_store\<close> and \<open>watched_server\<close> follow the time of last use of one row through any run. \<open>Drain\<close>: the queues run
  empty when the listener rests and the parser of the generator returns on what waits in them. \<open>Startup\<close> (\<^verbatim>\<open>pkg/start\<close>, \<^verbatim>\<open>cmd/udp\<close>): the error channel of \<^verbatim>\<open>StartUDP\<close>, when it returns with
  which error, and what \<^verbatim>\<open>main\<close> starts.
  \<^item> \<open>Token\<close>, \<open>TokenServer\<close> (\<^verbatim>\<open>vendor/github.com/ascenmmo/token-generator\<close>): the token generator behind the
  service; tokens come back until they expire, an issued token opens a session, and which datagrams
  make its parser panic and with it the server. \<open>TokenHash\<close>: its hashed variant and its password hash.
  \<^item> \<open>Breaker\<close>, \<open>BreakerProps\<close> (\<^verbatim>\<open>pkg/clients/udpGameServer/cb\<close>): the circuit breaker, sequentially and with any
  number of concurrent callers.
  \<^item> \<open>JsonRpc\<close>, \<open>JsonRpcProps\<close> (\<^verbatim>\<open>pkg/transport\<close>): decoding, method handlers, single requests, batches, options
  and routes of the server side. \<open>BatchRace\<close>: the goroutines of a batch with their unsynchronised appends.
  \<^item> \<open>Viewer\<close>, \<open>ViewerProps\<close> (\<^verbatim>\<open>pkg/transport/viewer\<close>): the pretty printer of the log: masks, termination, texts.
  \<^item> \<open>Middleware\<close>, \<open>MiddlewareProps\<close> (the other files of \<^verbatim>\<open>pkg/transport\<close>): logging, tracing, header and
  recover handlers; logging and tracing change neither answers nor state, request ids come back, and
  panics are answered. \<open>HttpRun\<close> (\<^verbatim>\<open>pkg/start\<close>): the HTTP server that \<^verbatim>\<open>StartUDP\<close> sets up, over the state of the
  game server, and which requests never reach its state. \<open>Tracing\<close>: the set-up of Jaeger and Zipkin, the span
  helpers of both sides, the upload helper, the health endpoint and the shutdown.
  \<^item> \<open>ClientRpc\<close>, \<open>CurlText\<close> (\<^verbatim>\<open>pkg/clients/udpGameServer/jsonrpc\<close>): requests, responses, single and batch calls,
  and the curl text of a request. \<open>ClientApi\<close> (the other files of \<^verbatim>\<open>pkg/clients/udpGameServer\<close>): the methods
  of the client with breaker, cache and error decoding.
  \<^item> \<open>ClientServer\<close>, \<open>ClientBatch\<close>, \<open>ClientFallback\<close>: the client connected to the modelled server, for single
  calls, batches and failures. \<open>ClientRace\<close>: the client's batch over the goroutines of \<open>BatchRace\<close>.
  \<^item> \<open>Hasher\<close>, \<open>HasherProps\<close> (\<^verbatim>\<open>pkg/clients/udpGameServer/hasher\<close>): the structural hash; it does not depend on the
  order of map entries, and which values without cycles are hashed without an error.
  \<^item> This theory: a call of the client from its method down to the rooms of the game state.

  \<^bold>\<open>State and effects.\<close> Structs are records, state is passed explicitly, errors are values of sum or
  option types, a panic is \<open>None\<close> or a constructor of its own. Machine integers keep their width: times and
  durations are 64-bit words or integers where no wrap-around is possible under the stated
  bounds. In the step relation of the server (\<open>ServerRun\<close>) goroutines are
  interleaved at the level of one listener turn, one worker turn, one sweep, one call of a handler. The code has no locks
  around these, so the invariants of \<open>ServerProps\<close>, \<open>SessionLife\<close>, \<open>Drain\<close> and \<open>ServiceProps\<close> are about
  turns that do not interrupt each other. What turns do to each other when they do is worked out, in steps of single reads and
  writes of sequentially consistent memory, where the code shares memory without copying or locking: the users of a room when
  clients join (\<open>JoinRace\<close>) and when they are removed (\<open>RemoveRace\<close>), the entry of a room in the database
  (\<open>CreateRace\<close>), the responses of a batch (\<open>BatchRace\<close>, \<open>ClientRace\<close>). The receive buffer of the listener is shared
  memory everywhere.

  \<^bold>\<open>Parameters.\<close> What is not code of the repository is an argument of the definitions: the token
  parser (for the properties of the token generator: the cipher, the JSON codec of its claims and the JWT
  library), the clock, the order of map traversals and schedules, the results of socket writes, the HTTP
  exchange, the cache, fresh UUIDs, the texts of JSON errors, floating-point numbers and durations,
  the canonical form of header names, log level names, the headers a tracer injects, and which paths
  a route of fiber matches. The
  hypotheses on them are named in the theorems, and every such theorem has an instance with concrete
  functions.

  \<^bold>\<open>Fuel and bounds.\<close> The only fuel is that of the pretty printer. \<open>format_terminates\<close> shows that some
  fuel is enough for every value of a heap without cycles and every larger fuel as well, and the values that
  the middleware logs need less than the \<open>viewer_fuel\<close> of 8 (\<open>logged_texts\<close>). A run of the breaker is
  bounded by \<open>2 ^ 63\<close> steps, below which its generation cannot wrap. A parallel batch of \<open>n\<close> requests ends
  within \<open>7 * n + 2\<close> steps of its own, a join within six, a creation within two. The lifetime of a row is what the
  configuration says up to 9223372036 seconds, beyond which the cutoff of the sweep wraps around. The receive buffer has 4096 bytes,
  as in the code.

  \<^bold>\<open>Not modelled.\<close> The network itself (sockets, the HTTP listener and router of fiber, beyond what \<open>Parameters\<close>
  says of them), the option \<^verbatim>\<open>Use\<close> of the transport, which passes its arguments to fiber, memory logging, which builds log
  events that it does not send, tests, and vendored packages other than the token generator. In \<open>do_batch\<close>, and so in the
  theorems that rest on it, the \<^verbatim>\<open>append\<close> of the goroutines of a batch is one step; \<open>BatchRace\<close> and \<open>ClientRace\<close> have the
  race. In \<open>HttpRun\<close> an exchange is one step and the clock does not move within it. A sweep is one step, although it tests
  and deletes a row without a lock: the real one can delete a row that is renewed between the two. The token parser of the
  generator can panic, and nothing recovers in the goroutines that call it; the panic is a value in \<open>Token\<close>, \<open>TokenServer\<close>
  and \<open>Drain\<close>, and elsewhere the parser is an argument that returns. Values with cycles, on which the hasher does not
  return, cannot be written as a \<open>gval\<close>.
\<close>

section \<open>From the client to the game state\<close>

definition createRoom_request :: "uuid \<Rightarrow> string \<Rightarrow> duration \<Rightarrow> RequestRPC" where
  "createRoom_request i tok ttl =
     NewRequestWithID i ''serversettings.createroom'' [GoValue Struct (enc_createRoom tok ttl)]"

lemma settings_http_sel [simp]:
  "errorHandler (settings_http parse cpus mem lim now order) = None"
  "fn_createRoom (http_svc (settings_http parse cpus mem lim now order)) = tcp_CreateRoom (mem_settings parse cpus mem lim) now"
  by (simp_all add: settings_http_def NewServerSettings_http_def newServerServerSettings_def tcp_api_def)

text \<open>
  C29: a client creates a room. The generated client, the JSON-RPC transport, the handler with its
  limiter, the service and the database together: \<^verbatim>\<open>CreateRoom\<close> of the client returns no error
  exactly when the room of the token did not exist, and then it exists and is empty; otherwise it
  returns the error "room is exists" and the rooms are unchanged. The token is valid, no other call interrupts this one,
  the client's breaker admits it, and the client has no cached response and the error decoder of the package.
\<close>

theorem client_creates_room:
  assumes "app_ok st" and "0 < now" and "0 <s lim" and "parse now tok = Inr i"
    and "plain_api cli key env cst" and "peer_http p = settings_http parse cpus mem lim now order"
  shows "fst (client_CreateRoom cli (env_over p st env) key tok ttl cst) =
      Some (if rooms (abs_world (world st)) (room_of i) = None then Inr RespNothing else Inl (AppError ''room is exists'')) \<and>
    (\<exists>resp st'. Server_serveBatch (peer_server p) (peer_http p) (peer_dec p) (peer_schedule p)
        (client_ctx (enc_request (createRoom_request (env_newID env) tok ttl))) st = Returns (resp, st') \<and> app_ok st' \<and>
      abs_world (world st') =
        (if rooms (abs_world (world st)) (room_of i) = None then spec_create i (abs_world (world st)) else abs_world (world st)))"
proof -
  let ?ctx = "client_ctx (enc_request (createRoom_request (env_newID env) tok ttl))"
  have w: "world_ok (world st)" using assms(1) by (simp add: app_ok_def)
  have eh: "errorHandler (peer_http p) = None" by (simp add: assms(6))
  obtain err st' where tcp: "tcp_CreateRoom (mem_settings parse cpus mem lim) now tok ttl st = (err, st')" "app_ok st'"
    and new: "err = (if rooms (abs_world (world st)) (room_of i) = None then None else Some ErrRoomIsExists)"
      "abs_world (world st') = (if rooms (abs_world (world st)) (room_of i) = None then spec_create i (abs_world (world st))
        else abs_world (world st))"
    using w assms(4)
  proof (cases rule: create_room_cases [where cpus = cpus and mem = mem and ttl = ttl])
    case (new w')
    obtain st' where "tcp_CreateRoom (mem_settings parse cpus mem lim) now tok ttl st = (None, st')" "app_ok st'" "world st' = w'"
      by (rule tcp_CreateRoom_eq [OF assms(1-3) new(1,2)])
    then show thesis using that [of None st'] new(3,4) by simp
  next
    case (exists w')
    obtain st' where "tcp_CreateRoom (mem_settings parse cpus mem lim) now tok ttl st = (Some ErrRoomIsExists, st')" "app_ok st'"
        "world st' = w'"
      by (rule tcp_CreateRoom_eq [OF assms(1-3) exists(1,2)])
    then show thesis using that [of "Some ErrRoomIsExists" st'] exists(3,4) by simp
  qed
  have "Server_serveBatch (peer_server p) (peer_http p) (peer_dec p) (peer_schedule p) ?ctx st =
      Returns (\<lparr>status = 200, written = [One (fst (answer (env_newID env) (\<lambda>_. JObj []) (createRoom_outcome (err, st'))))]\<rparr>, st')"
  proof (rule serveBatch_single [where r = "createRoom_request (env_newID env) tok ttl"])
    show "Server_doSingleBatch (peer_http p) (peer_dec p) ?ctx (client_base (createRoom_request (env_newID env) tok ttl)) st =
        (fst (answer (env_newID env) (\<lambda>_. JObj []) (createRoom_outcome (err, st'))), st')"
      by (simp add: createRoom_request_def assms(6) single_createRoom tcp(1) answer_def createRoom_outcome_def)
  qed (simp_all add: client_ctx_def)
  moreover have "fst (client_CreateRoom cli (env_over p st env) key tok ttl cst) =
      Some (case err of None \<Rightarrow> Inr RespNothing | Some e \<Rightarrow> Inl (AppError (Error e)))"
    using client_results(4) [OF assms(5) eh refl refl, where tok = tok and ttl = ttl and st = st] by (simp add: assms(6) tcp(1))
  ultimately show ?thesis using tcp(2) new by auto
qed


definition ex_game_peer :: "any MemoryDb app peer" where
  "ex_game_peer = \<lparr>peer_server = new_Server [], peer_http = settings_http ex_parse 4 0 10 5 insertion_order, peer_dec = ex_dec,
     peer_err = (\<lambda>e. JObj []), peer_schedule = reversed_order, peer_hang = ''timeout''\<rparr>"

theorem client_creates_room_witness:
  "fst (client_CreateRoom (fst ex_client) (env_over ex_game_peer (new_app 10) ex_env) 0 ''alice'' 60 (snd ex_client)) =
     Some (Inr RespNothing)"
proof -
  have "ex_parse 5 ''alice'' = Inr (ex_info 7)" "rooms (abs_world (world (new_app 10))) (room_of (ex_info 7)) = None"
    by (simp_all add: ex_parse_def new_app_def abs_new_world)
  then show ?thesis
    using client_creates_room [OF new_app_ok [of 10], where now = 5 and lim = 10 and parse = ex_parse and tok = "''alice''"
        and i = "ex_info 7" and p = ex_game_peer and cpus = 4 and mem = 0 and order = insertion_order and ttl = 60, OF _ _ _ ex_plain_api]
    by (simp add: word_sless_alt ex_game_peer_def)
qed

end
